(* ===== verification/Go_Prelude.thy ===== *)
theory Go_Prelude
  imports Complex_Main "HOL-Library.Word" "HOL-Library.AList" "HOL-Library.Multiset"
begin

text \<open>
  Shared vocabulary of the development: the Go types the sources use (strings as byte
  lists, byte slices with their nil value, times in nanoseconds, UUIDs), Go maps as
  association lists with distinct keys, the \<open>strings\<close> and \<open>slices\<close> functions the sources
  call, and the two places where Go leaves the result open: the order in which a map is
  ranged over and the order \<open>slices.SortFunc\<close> gives to equal elements. Both are
  parameters of the operations that use them; \<open>range_order\<close> and \<open>sort_func\<close> state what
  the language and the library promise about them.
\<close>

section \<open>Types\<close>

type_synonym did = string
type_synonym byte = "8 word"
type_synonym bytes = "byte list"
type_synonym slice = "bytes option"
type_synonym uuid = "128 word"
type_synonym time = int
type_synonym duration = int
type_synonym ('k, 'v) gomap = "('k \<times> 'v) list"

text \<open>A value of type \<open>any\<close> as \<open>encoding/json\<close> produces and accepts it.\<close>

datatype json = JNull | JBool bool | JNum rat | JStr string | JArr "json list"
  | JObj "(string \<times> json) list"

text \<open>A byte slice is nil (\<open>None\<close>) or holds bytes; \<open>len\<close>, \<open>bytes.Equal\<close> and conversions
  read a nil slice as the empty one.\<close>

definition slice_bytes :: "slice \<Rightarrow> bytes" where
  "slice_bytes s = (case s of None \<Rightarrow> [] | Some b \<Rightarrow> b)"

definition bytes_Equal :: "slice \<Rightarrow> slice \<Rightarrow> bool" where
  "bytes_Equal a b \<longleftrightarrow> slice_bytes a = slice_bytes b"

definition string_bytes :: "string \<Rightarrow> bytes" where
  "string_bytes s = map (\<lambda>c. word_of_nat (of_char c)) s"

section \<open>The strings package\<close>

definition HasPrefix :: "string \<Rightarrow> string \<Rightarrow> bool" where
  "HasPrefix s p \<longleftrightarrow> length p \<le> length s \<and> take (length p) s = p"

definition HasSuffix :: "string \<Rightarrow> string \<Rightarrow> bool" where
  "HasSuffix s p \<longleftrightarrow> length p \<le> length s \<and> drop (length s - length p) s = p"

definition TrimSuffix :: "string \<Rightarrow> string \<Rightarrow> string" where
  "TrimSuffix s p = (if HasSuffix s p then take (length s - length p) s else s)"

lemma HasPrefix_iff: "HasPrefix s p \<longleftrightarrow> (\<exists>t. s = p @ t)"
  unfolding HasPrefix_def
  by (metis append_eq_conv_conj append_take_drop_id le_add1 length_append)

lemma HasSuffix_iff: "HasSuffix s p \<longleftrightarrow> (\<exists>t. s = t @ p)"
  unfolding HasSuffix_def
  by (metis add_diff_cancel_right' append_eq_conv_conj append_take_drop_id le_add2 length_append)

lemma TrimSuffix_append [simp]: "TrimSuffix (t @ p) p = t"
  by (simp add: TrimSuffix_def HasSuffix_def)

section \<open>The slices package\<close>

text \<open>\<open>slices.Delete(xs, i, i+1)\<close>.\<close>

definition delete_at :: "nat \<Rightarrow> 'a list \<Rightarrow> 'a list" where
  "delete_at i xs = take i xs @ drop (Suc i) xs"

lemma length_delete_at [simp]: "i < length xs \<Longrightarrow> length (delete_at i xs) = length xs - 1"
  by (simp add: delete_at_def)

lemma mset_delete_at:
  assumes "i < length xs"
  shows "mset xs = add_mset (xs ! i) (mset (delete_at i xs))"
proof -
  have "mset xs = mset (take i xs @ xs ! i # drop (Suc i) xs)"
    using assms by (simp add: id_take_nth_drop [symmetric])
  then show ?thesis by (simp add: delete_at_def)
qed

lemma set_delete_at: "set (delete_at i xs) \<subseteq> set xs"
  unfolding delete_at_def by (auto dest: in_set_takeD in_set_dropD)

lemma delete_at_Nil_iff: "i < length xs \<Longrightarrow> delete_at i xs = [] \<longleftrightarrow> length xs = 1"
  unfolding length_0_conv [symmetric] by auto

lemma mset_filter_parts: "mset (filter (\<lambda>x. \<not> P x) xs) + mset (filter P xs) = mset xs"
  by (induction xs) auto

text \<open>The index at which a \<open>for i, x := range xs\<close> loop with an early return stops.\<close>

fun find_index :: "('a \<Rightarrow> bool) \<Rightarrow> 'a list \<Rightarrow> nat option" where
  "find_index p [] = None"
| "find_index p (x # xs) = (if p x then Some 0 else map_option Suc (find_index p xs))"

lemma find_index_None: "find_index p xs = None \<longleftrightarrow> (\<forall>x \<in> set xs. \<not> p x)"
  by (induction xs) auto

lemma find_index_Some:
  "find_index p xs = Some i \<Longrightarrow> i < length xs \<and> p (xs ! i) \<and> (\<forall>j < i. \<not> p (xs ! j))"
  by (induction xs arbitrary: i) (auto split: if_splits simp: less_Suc_eq_0_disj)

lemma find_index_ex: "find_index p xs = Some i \<Longrightarrow> \<exists>x \<in> set xs. p x"
  by (metis find_index_None option.distinct(1))

text \<open>
  \<open>slices.SortFunc\<close> with a comparison by an integer key: some permutation that is sorted
  by the key. It is not stable, so nothing more is promised about equal keys.
\<close>

definition sort_func :: "('a \<Rightarrow> int) \<Rightarrow> ('a list \<Rightarrow> 'a list) \<Rightarrow> bool" where
  "sort_func key srt \<longleftrightarrow> (\<forall>xs. mset (srt xs) = mset xs \<and> sorted (map key (srt xs)))"

lemma sort_func_mset: "sort_func key srt \<Longrightarrow> mset (srt xs) = mset xs"
  by (simp add: sort_func_def)

lemma sort_func_sorted: "sort_func key srt \<Longrightarrow> sorted (map key (srt xs))"
  by (simp add: sort_func_def)

lemma sort_func_set: "sort_func key srt \<Longrightarrow> set (srt xs) = set xs"
  by (metis sort_func_mset set_mset_mset)

lemma sort_func_length: "sort_func key srt \<Longrightarrow> length (srt xs) = length xs"
  by (metis sort_func_mset size_mset)

lemma sort_func_sort_key: "sort_func key (sort_key key)"
  by (simp add: sort_func_def)

text \<open>
  The order of a \<open>for k, v := range m\<close> loop: the entries of the map, each once, in an
  order the language leaves open.
\<close>

definition range_order :: "(('k, 'v) gomap \<Rightarrow> ('k, 'v) gomap) \<Rightarrow> bool" where
  "range_order ord \<longleftrightarrow> (\<forall>m. mset (ord m) = mset m)"

lemma range_order_mset: "range_order ord \<Longrightarrow> mset (ord m) = mset m"
  by (simp add: range_order_def)

lemma range_order_set: "range_order ord \<Longrightarrow> set (ord m) = set m"
  by (metis range_order_mset set_mset_mset)

lemma range_order_distinct:
  "range_order ord \<Longrightarrow> distinct (map fst (ord m)) \<longleftrightarrow> distinct (map fst m)"
  by (metis mset_eq_imp_distinct_iff mset_map range_order_mset)

lemma range_order_id: "range_order (\<lambda>m. m)"
  by (simp add: range_order_def)

lemma range_order_rev: "range_order rev"
  by (simp add: range_order_def)

section \<open>Go maps\<close>

text \<open>
  A Go map is an association list with distinct keys: \<open>m[k]\<close> is \<open>map_of m k\<close>,
  \<open>m[k] = v\<close> is \<open>AList.update k v m\<close>, \<open>delete(m, k)\<close> is \<open>AList.delete k m\<close>. Reading an
  absent key of a map of slices gives the nil slice.
\<close>

abbreviation mput :: "'k \<Rightarrow> 'v \<Rightarrow> ('k, 'v) gomap \<Rightarrow> ('k, 'v) gomap" where
  "mput \<equiv> AList.update"

abbreviation mdel :: "'k \<Rightarrow> ('k, 'v) gomap \<Rightarrow> ('k, 'v) gomap" where
  "mdel \<equiv> AList.delete"

abbreviation mkeys :: "('k, 'v) gomap \<Rightarrow> 'k list" where
  "mkeys m \<equiv> map fst m"

definition mlist :: "('k, 'v list) gomap \<Rightarrow> 'k \<Rightarrow> 'v list" where
  "mlist m k = (case map_of m k of None \<Rightarrow> [] | Some xs \<Rightarrow> xs)"

definition mvals :: "('k, 'v list) gomap \<Rightarrow> 'v multiset" where
  "mvals m = mset (concat (map snd m))"

named_theorems gomap \<open>lookup and key facts of Go maps\<close>

lemma map_of_mput [gomap]: "map_of (mput k v m) k' = (if k = k' then Some v else map_of m k')"
  by (simp add: update_conv')

lemma map_of_mdel [gomap]: "map_of (mdel k m) k' = (if k = k' then None else map_of m k')"
  by (simp add: delete_conv')

lemma distinct_mput [gomap]: "distinct (mkeys m) \<Longrightarrow> distinct (mkeys (mput k v m))"
  by (rule distinct_update)

lemma distinct_mdel [gomap]: "distinct (mkeys m) \<Longrightarrow> distinct (mkeys (mdel k m))"
  by (rule distinct_delete)

lemma set_mput [gomap]:
  "distinct (mkeys m) \<Longrightarrow> set (mput k v m) = insert (k, v) {p \<in> set m. fst p \<noteq> k}"
  by (induction m) (force simp: image_iff)+

lemma set_mdel [gomap]: "set (mdel k m) = {p \<in> set m. fst p \<noteq> k}"
  by (auto simp: AList.delete_eq)

lemma mlist_mput [gomap]: "mlist (mput k v m) k' = (if k = k' then v else mlist m k')"
  by (simp add: mlist_def gomap)

lemma mlist_mdel [gomap]: "mlist (mdel k m) k' = (if k = k' then [] else mlist m k')"
  by (simp add: mlist_def gomap)

lemma mvals_Nil [simp]: "mvals [] = {#}"
  by (simp add: mvals_def)

lemma mvals_Cons [simp]: "mvals ((k, q) # m) = mset q + mvals m"
  by (simp add: mvals_def)

lemma mvals_mdel:
  "distinct (mkeys m) \<Longrightarrow> mvals m = mset (mlist m k) + mvals (mdel k m)"
proof (induction m)
  case Nil
  then show ?case by (simp add: mlist_def)
next
  case (Cons p m)
  obtain k' q where p: "p = (k', q)" by (cases p)
  show ?case
  proof (cases "k' = k")
    case True
    with Cons.prems p have "mdel k m = m" by (simp add: delete_id)
    with True p show ?thesis by (simp add: mlist_def)
  next
    case False
    with Cons.prems Cons.IH p show ?thesis by (simp add: mlist_def)
  qed
qed

lemma mvals_mput:
  "distinct (mkeys m) \<Longrightarrow> mvals (mput k q m) = mset q + mvals (mdel k m)"
  using mvals_mdel [of "mput k q m" k]
  by (simp add: gomap delete_update_same)

lemma set_mlist_mvals: "distinct (mkeys m) \<Longrightarrow> set (mlist m k) \<subseteq> set_mset (mvals m)"
  using mvals_mdel [of m k] by simp

lemma in_mvals: "x \<in># mvals m \<longleftrightarrow> (\<exists>k q. (k, q) \<in> set m \<and> x \<in> set q)"
  by (force simp: mvals_def)

lemma mvals_order: "range_order ord \<Longrightarrow> mvals (ord m) = mvals m"
proof -
  assume "range_order ord"
  then have "mset (map (mset \<circ> snd) (ord m)) = mset (map (mset \<circ> snd) m)"
    by (simp add: range_order_mset)
  then have "sum_list (map (mset \<circ> snd) (ord m)) = sum_list (map (mset \<circ> snd) m)"
    by (metis sum_mset_sum_list)
  then show ?thesis by (simp add: mvals_def mset_concat)
qed

text \<open>The nested loop \<open>for k, xs := range m { for i, x := range xs { if p(x) { return } } }\<close>.\<close>

fun find_entry :: "('v \<Rightarrow> bool) \<Rightarrow> ('k, 'v list) gomap \<Rightarrow> ('k \<times> nat) option" where
  "find_entry p [] = None"
| "find_entry p ((k, xs) # m) =
     (case find_index p xs of Some i \<Rightarrow> Some (k, i) | None \<Rightarrow> find_entry p m)"

lemma find_entry_None: "find_entry p m = None \<longleftrightarrow> (\<forall>x \<in># mvals m. \<not> p x)"
  by (induction p m rule: find_entry.induct)
    (auto simp: find_index_None ball_Un split: option.splits dest: find_index_ex)

lemma find_entry_Some:
  "find_entry p m = Some (k, i) \<Longrightarrow> \<exists>xs. (k, xs) \<in> set m \<and> i < length xs \<and> p (xs ! i)"
  by (induction p m rule: find_entry.induct)
    (auto split: option.splits dest: find_index_Some)

lemma find_entry_order:
  assumes "range_order ord" and "distinct (mkeys m)" and "find_entry p (ord m) = Some (k, i)"
  shows "map_of m k = Some (mlist m k)" and "i < length (mlist m k)" and "p (mlist m k ! i)"
proof -
  obtain xs where xs: "(k, xs) \<in> set m" "i < length xs" "p (xs ! i)"
    using find_entry_Some [OF assms(3)] assms(1) by (auto simp: range_order_set)
  then have "map_of m k = Some xs" using assms(2) by simp
  with xs show "map_of m k = Some (mlist m k)" "i < length (mlist m k)" "p (mlist m k ! i)"
    by (simp_all add: mlist_def)
qed

lemma find_entry_order_None:
  "range_order ord \<Longrightarrow> find_entry p (ord m) = None \<longleftrightarrow> (\<forall>x \<in># mvals m. \<not> p x)"
  by (simp add: find_entry_None mvals_order)

lemma mlist_in: "distinct (mkeys m) \<Longrightarrow> (k, q) \<in> set m \<Longrightarrow> mlist m k = q"
  by (simp add: mlist_def map_of_is_SomeI)

lemma mlist_Some: "map_of m k = Some q \<Longrightarrow> mlist m k = q"
  by (simp add: mlist_def)

lemma mlist_None: "map_of m k = None \<Longrightarrow> mlist m k = []"
  by (simp add: mlist_def)

section \<open>A map with a secondary index\<close>

text \<open>
  Several stores keep their values under a primary key and a second map from a name to the
  key. The two agree when every value is filed under its own key, every value whose name is to
  be indexed is found through it, and every index entry leads to a value of that name.
\<close>

definition secondary_index ::
  "('v \<Rightarrow> 'k) \<Rightarrow> ('v \<Rightarrow> 'n) \<Rightarrow> ('n \<Rightarrow> bool) \<Rightarrow> ('k \<rightharpoonup> 'v) \<Rightarrow> ('n \<rightharpoonup> 'k) \<Rightarrow> bool" where
  "secondary_index key nm indexed m ix \<longleftrightarrow>
     (\<forall>k v. m k = Some v \<longrightarrow> key v = k \<and> (indexed (nm v) \<longrightarrow> ix (nm v) = Some k))
     \<and> (\<forall>n k. ix n = Some k \<longrightarrow> (\<exists>v. m k = Some v \<and> nm v = n \<and> indexed n))"

lemma secondary_indexD:
  assumes "secondary_index key nm indexed m ix"
  shows "m k = Some v \<Longrightarrow> key v = k"
    and "m k = Some v \<Longrightarrow> indexed (nm v) \<Longrightarrow> ix (nm v) = Some k"
    and "ix n = Some k \<Longrightarrow> \<exists>v. m k = Some v \<and> nm v = n"
    and "ix n = Some k \<Longrightarrow> indexed n"
  using assms unfolding secondary_index_def by blast+

lemma secondary_index_empty [simp]: "secondary_index key nm indexed Map.empty Map.empty"
  by (simp add: secondary_index_def)

lemma secondary_index_put:
  assumes ok: "secondary_index key nm indexed m ix" and keyv: "\<forall>w. m (key v) = Some w \<longrightarrow> nm w = nm v"
    and nmv: "\<forall>k. ix (nm v) = Some k \<longrightarrow> k = key v"
  shows "secondary_index key nm indexed (m(key v \<mapsto> v)) (if indexed (nm v) then ix(nm v \<mapsto> key v) else ix)"
    (is "secondary_index _ _ _ ?m ?ix")
proof -
  have "key w = k \<and> (indexed (nm w) \<longrightarrow> ?ix (nm w) = Some k)" if "?m k = Some w" for k w
  proof (cases "k = key v")
    case True
    then show ?thesis using that by auto
  next
    case False
    then have w: "m k = Some w" using that by simp
    have "nm w \<noteq> nm v" if "indexed (nm w)"
      using secondary_indexD(2) [OF ok w that] nmv False by metis
    then show ?thesis
      using secondary_indexD(1,2) [OF ok w] by auto
  qed
  moreover have "\<exists>w. ?m k = Some w \<and> nm w = n \<and> indexed n" if "?ix n = Some k" for n k
  proof (cases "indexed (nm v) \<and> n = nm v")
    case True
    then show ?thesis using that by auto
  next
    case False
    then have "ix n = Some k" using that by (auto split: if_splits)
    with False keyv secondary_indexD(3,4) [OF ok, of n k] show ?thesis by auto
  qed
  ultimately show ?thesis unfolding secondary_index_def by blast
qed

lemma secondary_index_delete:
  assumes ok: "secondary_index key nm indexed m ix" and v: "m k = Some v"
  shows "secondary_index key nm indexed (m(k := None)) (if indexed (nm v) then ix(nm v := None) else ix)"
    (is "secondary_index _ _ _ ?m ?ix")
proof -
  have "key w = j \<and> (indexed (nm w) \<longrightarrow> ?ix (nm w) = Some j)" if "?m j = Some w" for j w
  proof -
    have w: "m j = Some w" "j \<noteq> k" using that by (auto split: if_splits)
    have "nm w \<noteq> nm v" if "indexed (nm w)"
      using secondary_indexD(2) [OF ok w(1) that] secondary_indexD(2) [OF ok v] w(2) that by auto
    then show ?thesis
      using secondary_indexD(1,2) [OF ok w(1)] by auto
  qed
  moreover have "\<exists>w. ?m j = Some w \<and> nm w = n \<and> indexed n" if "?ix n = Some j" for n j
  proof -
    have "ix n = Some j" "nm v \<noteq> n \<or> \<not> indexed (nm v)" using that by (auto split: if_splits)
    with v secondary_indexD(3,4) [OF ok, of n j] show ?thesis by auto
  qed
  ultimately show ?thesis unfolding secondary_index_def by blast
qed

lemma secondary_index_unique:
  assumes "secondary_index key nm indexed m ix" and "secondary_index key nm indexed m ix'"
  shows "ix = ix'"
proof
  fix n
  have half: "ix1 n = Some k \<Longrightarrow> ix2 n = Some k"
    if "secondary_index key nm indexed m ix1" "secondary_index key nm indexed m ix2" for ix1 ix2 k
    using secondary_indexD(3,4) [OF that(1), of n k] secondary_indexD(2) [OF that(2), of k] by auto
  show "ix n = ix' n"
    using half [OF assms] half [OF assms(2,1)] by (cases "ix n"; cases "ix' n") auto
qed

lemmas map_of_simps = update_conv' delete_conv'

lemma map_of_filter_distinct:
  "distinct (map fst m) \<Longrightarrow> map_of (filter P m) k = (case map_of m k of None \<Rightarrow> None | Some v \<Rightarrow> if P (k, v) then Some v else None)"
  by (induction m) (auto split: option.split simp: map_of_eq_None_iff image_iff)

section \<open>Lists\<close>

lemma split_at_first: "x \<notin> set xs \<Longrightarrow> x \<notin> set ys \<Longrightarrow> xs @ x # us = ys @ x # vs \<Longrightarrow> xs = ys \<and> us = vs"
proof (induction xs arbitrary: ys)
  case Nil
  then show ?case by (cases ys) auto
next
  case (Cons y xs)
  then show ?case by (cases ys) auto
qed

lemma find_unique: "x \<in> set xs \<Longrightarrow> P x \<Longrightarrow> (\<And>y. y \<in> set xs \<Longrightarrow> P y \<Longrightarrow> y = x) \<Longrightarrow> find P xs = Some x"
proof (induction xs)
  case (Cons z zs)
  show ?case
  proof (cases "P z")
    case True
    then show ?thesis using Cons.prems(3) [of z] by simp
  next
    case False
    then have "x \<in> set zs" using Cons.prems(1,2) by auto
    from Cons.IH [OF this Cons.prems(2)] Cons.prems(3) False show ?thesis by simp
  qed
qed simp

section \<open>Decimal notation\<close>

text \<open>Decimal notation of \<open>%d\<close>.\<close>

fun nat_string :: "nat \<Rightarrow> string" where
  "nat_string n =
     (if n < 10 then [char_of (48 + n)] else nat_string (n div 10) @ [char_of (48 + n mod 10)])"

declare nat_string.simps [simp del]

definition int_string :: "int \<Rightarrow> string" where
  "int_string i = (if i < 0 then ''-'' @ nat_string (nat (- i)) else nat_string (nat i))"

fun string_nat :: "string \<Rightarrow> nat \<Rightarrow> nat" where
  "string_nat [] a = a"
| "string_nat (c # cs) a = string_nat cs (10 * a + (of_char c - 48))"

lemma string_nat_append: "string_nat (xs @ ys) a = string_nat ys (string_nat xs a)"
  by (induction xs a rule: string_nat.induct) simp_all

lemma string_nat_string: "string_nat (nat_string n) 0 = n"
proof (induction n rule: nat_string.induct)
  case (1 n)
  have digit: "of_char (char_of (48 + n mod 10) :: char) - 48 = n mod 10" by simp
  show ?case
  proof (cases "n < 10")
    case True
    then show ?thesis by (simp add: nat_string.simps [of n])
  next
    case False
    then have "nat_string n = nat_string (n div 10) @ [char_of (48 + n mod 10)]" by (subst nat_string.simps) simp
    then show ?thesis using 1 False by (simp add: string_nat_append digit)
  qed
qed

lemma nat_string_digits: "\<forall>c \<in> set (nat_string n). 48 \<le> (of_char c :: nat) \<and> (of_char c :: nat) < 58"
  by (induction n rule: nat_string.induct) (subst nat_string.simps, auto)

lemma int_string_inj: "int_string i = int_string j \<longleftrightarrow> i = j"
proof
  assume eq: "int_string i = int_string j"
  have minus: "nat_string n \<noteq> CHR ''-'' # s" for n s using nat_string_digits [of n] by force
  have sgn: "i < 0 \<longleftrightarrow> j < 0"
    using eq minus [of "nat i" "nat_string (nat (- j))"] minus [of "nat j" "nat_string (nat (- i))"]
    by (auto simp: int_string_def split: if_splits)
  then have "nat_string (nat \<bar>i\<bar>) = nat_string (nat \<bar>j\<bar>)" using eq by (simp add: int_string_def split: if_splits)
  then have "nat \<bar>i\<bar> = nat \<bar>j\<bar>" by (metis string_nat_string)
  then show "i = j" using sgn by linarith
qed simp

lemma int_string_colon: "CHR '':'' \<notin> set (int_string i)"
proof -
  have "CHR '':'' \<notin> set (nat_string n)" for n using nat_string_digits [of n] by force
  then show ?thesis by (simp add: int_string_def)
qed

section \<open>The calendar\<close>

text \<open>
  Times are nanoseconds since the start of 1970 in UTC. The civil date of a day is computed on
  years that start in March, as \<open>Time.Date\<close> gives it.
\<close>

definition day_number :: "time \<Rightarrow> int" where
  "day_number t = t div (86400 * 1000000000)"

definition civil :: "int \<Rightarrow> int \<times> int \<times> int" where
  "civil d =
     (let z = d + 719468; era = z div 146097; doe = z mod 146097;
          yoe = (doe - doe div 1460 + doe div 36524 - doe div 146096) div 365;
          doy = doe - (365 * yoe + yoe div 4 - yoe div 100);
          mp = (5 * doy + 2) div 153;
          m = (if mp < 10 then mp + 3 else mp - 9)
      in (yoe + era * 400 + (if m \<le> 2 then 1 else 0), m, doy - (153 * mp + 2) div 5 + 1))"

definition Year :: "time \<Rightarrow> int" where "Year t = fst (civil (day_number t))"
definition Month :: "time \<Rightarrow> int" where "Month t = fst (snd (civil (day_number t)))"
definition Day :: "time \<Rightarrow> int" where "Day t = snd (snd (civil (day_number t)))"
definition Hour :: "time \<Rightarrow> int" where "Hour t = t mod (86400 * 1000000000) div (3600 * 1000000000)"

text \<open>\<open>%0wd\<close> of a number that is not negative.\<close>

definition padded :: "nat \<Rightarrow> int \<Rightarrow> string" where
  "padded w n = (let s = int_string n in replicate (w - length s) (CHR ''0'') @ s)"

lemma civil_examples: "civil 0 = (1970, 1, 1)" "civil 19782 = (2024, 2, 29)" "civil 20408 = (2025, 11, 16)" "civil (- 1) = (1969, 12, 31)"
  by code_simp+

end
