(* ===== verification/Messaging.thy ===== *)
theory Messaging
  imports Go_Prelude
begin

text \<open>
  The message envelope of \<open>pkg/messaging/message.go\<close>: its data, the constructors, the
  predicates and \<open>Validate\<close>. Identifiers (\<open>uuid.NewV7\<close>) and the clock are arguments; the
  encoding of a body is the argument \<open>marshal\<close> (\<open>None\<close> is a marshalling error). \<open>Clone\<close> is
  modelled over an explicit store of UUID cells and byte buffers, because its purpose is that
  the copy shares no memory with the original.
\<close>

section \<open>Data\<close>

abbreviation MaxEmojiLength :: nat where "MaxEmojiLength \<equiv> 32"
abbreviation MaxStatusTextLength :: nat where "MaxStatusTextLength \<equiv> 256"
abbreviation MaxMethodLength :: nat where "MaxMethodLength \<equiv> 128"
abbreviation MaxDIDLength :: nat where "MaxDIDLength \<equiv> 256"

datatype message_error = ErrEmojiTooLong | ErrStatusTextTooLong | ErrMethodTooLong | ErrDIDTooLong
  | ErrInvalidReaction | MarshalError

type_synonym MessageType = string

abbreviation TypeRequest :: MessageType where "TypeRequest \<equiv> ''request''"
abbreviation TypeResponse :: MessageType where "TypeResponse \<equiv> ''response''"
abbreviation TypeNotification :: MessageType where "TypeNotification \<equiv> ''notification''"
abbreviation TypeStream :: MessageType where "TypeStream \<equiv> ''stream''"
abbreviation TypeError :: MessageType where "TypeError \<equiv> ''error''"
abbreviation TypeChat :: MessageType where "TypeChat \<equiv> ''chat''"
abbreviation TypeTyping :: MessageType where "TypeTyping \<equiv> ''typing''"
abbreviation TypeReceipt :: MessageType where "TypeReceipt \<equiv> ''receipt''"
abbreviation TypePresence :: MessageType where "TypePresence \<equiv> ''presence''"
abbreviation TypeReaction :: MessageType where "TypeReaction \<equiv> ''reaction''"

record Message =
  msg_ID :: uuid
  CorrelationID :: "uuid option"
  From :: did
  To :: did
  MsgType :: MessageType
  Method :: string
  Body :: slice
  Signature :: slice
  Timestamp :: time
  TraceID :: string
  Encrypted :: bool
  ThreadID :: "uuid option"
  ParentID :: "uuid option"
  ThreadSeqNo :: int
  RequestAck :: bool
  ActorDID :: did
  ActorProof :: slice

record ErrorBody =
  eb_Code :: int
  eb_Message :: string
  eb_Data :: "json option"

record Receipt =
  rc_MessageID :: uuid
  ReceiptType :: string
  rc_Timestamp :: time

abbreviation ReceiptDelivered :: string where "ReceiptDelivered \<equiv> ''delivered''"
abbreviation ReceiptRead :: string where "ReceiptRead \<equiv> ''read''"

record Reaction =
  rn_MessageID :: uuid
  Emoji :: string

record TypingIndicator =
  Typing :: bool

type_synonym PresenceStatus = string

abbreviation PresenceOnline :: PresenceStatus where "PresenceOnline \<equiv> ''online''"
abbreviation PresenceOffline :: PresenceStatus where "PresenceOffline \<equiv> ''offline''"
abbreviation PresenceBusy :: PresenceStatus where "PresenceBusy \<equiv> ''busy''"
abbreviation PresenceAway :: PresenceStatus where "PresenceAway \<equiv> ''away''"
abbreviation PresenceDND :: PresenceStatus where "PresenceDND \<equiv> ''dnd''"

record PresenceUpdate =
  pu_Status :: PresenceStatus
  pu_StatusText :: string
  pu_LastActivity :: "time option"

section \<open>Constructors\<close>

definition NewMessage :: "uuid \<Rightarrow> time \<Rightarrow> did \<Rightarrow> did \<Rightarrow> MessageType \<Rightarrow> string \<Rightarrow> Message" where
  "NewMessage i now from to ty m =
     \<lparr>msg_ID = i, CorrelationID = None, From = from, To = to, MsgType = ty, Method = m, Body = None,
      Signature = None, Timestamp = now, TraceID = '''', Encrypted = False, ThreadID = None,
      ParentID = None, ThreadSeqNo = 0, RequestAck = False, ActorDID = '''', ActorProof = None\<rparr>"

text \<open>The block every constructor with an optional body shares: nil leaves the body unset.\<close>

definition with_body :: "('b \<Rightarrow> bytes option) \<Rightarrow> 'b option \<Rightarrow> Message \<Rightarrow> message_error + Message" where
  "with_body marshal body msg =
     (case body of
        None \<Rightarrow> Inr msg
      | Some b \<Rightarrow> (case marshal b of None \<Rightarrow> Inl MarshalError | Some d \<Rightarrow> Inr (msg\<lparr>Body := Some d\<rparr>)))"

definition NewRequest ::
  "('b \<Rightarrow> bytes option) \<Rightarrow> uuid \<Rightarrow> time \<Rightarrow> did \<Rightarrow> did \<Rightarrow> string \<Rightarrow> 'b option \<Rightarrow> message_error + Message" where
  "NewRequest marshal i now from to m body = with_body marshal body (NewMessage i now from to TypeRequest m)"

definition NewResponse ::
  "('b \<Rightarrow> bytes option) \<Rightarrow> uuid \<Rightarrow> time \<Rightarrow> Message \<Rightarrow> 'b option \<Rightarrow> message_error + Message" where
  "NewResponse marshal i now req body =
     with_body marshal body
       ((NewMessage i now (To req) (From req) TypeResponse (Method req))\<lparr>CorrelationID := Some (msg_ID req)\<rparr>)"

definition NewNotification ::
  "('b \<Rightarrow> bytes option) \<Rightarrow> uuid \<Rightarrow> time \<Rightarrow> did \<Rightarrow> did \<Rightarrow> string \<Rightarrow> 'b option \<Rightarrow> message_error + Message" where
  "NewNotification marshal i now from to m body =
     with_body marshal body (NewMessage i now from to TypeNotification m)"

definition NewErrorResponse ::
  "(ErrorBody \<Rightarrow> bytes option) \<Rightarrow> uuid \<Rightarrow> time \<Rightarrow> Message \<Rightarrow> int \<Rightarrow> string \<Rightarrow> message_error + Message" where
  "NewErrorResponse marshal i now req errCode errMsg =
     with_body marshal (Some \<lparr>eb_Code = errCode, eb_Message = errMsg, eb_Data = None\<rparr>)
       ((NewMessage i now (To req) (From req) TypeError (Method req))\<lparr>CorrelationID := Some (msg_ID req)\<rparr>)"

definition SetBody :: "('b \<Rightarrow> bytes option) \<Rightarrow> 'b \<Rightarrow> Message \<Rightarrow> message_error + Message" where
  "SetBody marshal b msg = (case marshal b of None \<Rightarrow> Inl MarshalError | Some d \<Rightarrow> Inr (msg\<lparr>Body := Some d\<rparr>))"

definition ParseBody :: "(bytes \<Rightarrow> 'b option) \<Rightarrow> Message \<Rightarrow> 'b option" where
  "ParseBody unmarshal msg = unmarshal (slice_bytes (Body msg))"

definition NewChatMessage ::
  "('b \<Rightarrow> bytes option) \<Rightarrow> uuid \<Rightarrow> time \<Rightarrow> did \<Rightarrow> did \<Rightarrow> 'b option \<Rightarrow> message_error + Message" where
  "NewChatMessage marshal i now from to body =
     (let msg = NewMessage i now from to TypeChat ''chat''
      in with_body marshal body (msg\<lparr>ThreadID := Some (msg_ID msg), ThreadSeqNo := 1\<rparr>))"

definition NewChatReply ::
  "('b \<Rightarrow> bytes option) \<Rightarrow> uuid \<Rightarrow> time \<Rightarrow> did \<Rightarrow> did \<Rightarrow> uuid \<Rightarrow> uuid option \<Rightarrow> int \<Rightarrow> 'b option
   \<Rightarrow> message_error + Message" where
  "NewChatReply marshal i now from to threadID parentID seqNo body =
     with_body marshal body
       ((NewMessage i now from to TypeChat ''chat'')
          \<lparr>ThreadID := Some threadID, ParentID := parentID, ThreadSeqNo := seqNo\<rparr>)"

text \<open>Constructors that drop the marshalling error: the body is what \<open>json.Marshal\<close> returned,
  nil on error.\<close>

definition NewTypingIndicator ::
  "(TypingIndicator \<Rightarrow> bytes option) \<Rightarrow> uuid \<Rightarrow> time \<Rightarrow> did \<Rightarrow> did \<Rightarrow> uuid option \<Rightarrow> bool \<Rightarrow> Message" where
  "NewTypingIndicator marshal i now from to threadID typing =
     (NewMessage i now from to TypeTyping ''typing'')
       \<lparr>ThreadID := threadID, Body := marshal \<lparr>Typing = typing\<rparr>\<rparr>"

definition NewReceipt ::
  "(Receipt \<Rightarrow> bytes option) \<Rightarrow> uuid \<Rightarrow> time \<Rightarrow> did \<Rightarrow> did \<Rightarrow> uuid \<Rightarrow> string \<Rightarrow> Message" where
  "NewReceipt marshal i now from to messageID receiptType =
     (NewMessage i now from to TypeReceipt ''receipt'')
       \<lparr>Body := marshal \<lparr>rc_MessageID = messageID, ReceiptType = receiptType, rc_Timestamp = now\<rparr>\<rparr>"

definition NewReaction ::
  "(Reaction \<Rightarrow> bytes option) \<Rightarrow> uuid \<Rightarrow> time \<Rightarrow> did \<Rightarrow> did \<Rightarrow> uuid \<Rightarrow> string \<Rightarrow> Message" where
  "NewReaction marshal i now from to messageID emoji =
     (NewMessage i now from to TypeReaction ''reaction'')
       \<lparr>Body := marshal \<lparr>rn_MessageID = messageID, Emoji = emoji\<rparr>\<rparr>"

definition NewPresenceMessage ::
  "(PresenceUpdate \<Rightarrow> bytes option) \<Rightarrow> uuid \<Rightarrow> time \<Rightarrow> did \<Rightarrow> did \<Rightarrow> PresenceStatus \<Rightarrow> string \<Rightarrow> Message" where
  "NewPresenceMessage marshal i now from to st txt =
     (NewMessage i now from to TypePresence '''')
       \<lparr>Body := marshal \<lparr>pu_Status = st, pu_StatusText = txt, pu_LastActivity = None\<rparr>\<rparr>"

section \<open>Predicates and setters\<close>

definition IsRequest :: "Message \<Rightarrow> bool" where "IsRequest m \<longleftrightarrow> MsgType m = TypeRequest"
definition IsResponse :: "Message \<Rightarrow> bool" where "IsResponse m \<longleftrightarrow> MsgType m = TypeResponse"
definition IsError :: "Message \<Rightarrow> bool" where "IsError m \<longleftrightarrow> MsgType m = TypeError"
definition IsChat :: "Message \<Rightarrow> bool" where "IsChat m \<longleftrightarrow> MsgType m = TypeChat"
definition IsTyping :: "Message \<Rightarrow> bool" where "IsTyping m \<longleftrightarrow> MsgType m = TypeTyping"
definition IsReceipt :: "Message \<Rightarrow> bool" where "IsReceipt m \<longleftrightarrow> MsgType m = TypeReceipt"
definition IsPresence :: "Message \<Rightarrow> bool" where "IsPresence m \<longleftrightarrow> MsgType m = TypePresence"
definition IsReaction :: "Message \<Rightarrow> bool" where "IsReaction m \<longleftrightarrow> MsgType m = TypeReaction"

definition InThread :: "Message \<Rightarrow> bool" where "InThread m \<longleftrightarrow> ThreadID m \<noteq> None"

definition IsThreadStart :: "Message \<Rightarrow> bool" where
  "IsThreadStart m \<longleftrightarrow> ThreadID m = Some (msg_ID m)"

definition WithTraceID :: "string \<Rightarrow> Message \<Rightarrow> Message" where
  "WithTraceID t m = m\<lparr>TraceID := t\<rparr>"

definition WithThread :: "uuid \<Rightarrow> int \<Rightarrow> Message \<Rightarrow> Message" where
  "WithThread threadID seqNo m = m\<lparr>ThreadID := Some threadID, ThreadSeqNo := seqNo\<rparr>"

definition WithParent :: "uuid \<Rightarrow> Message \<Rightarrow> Message" where
  "WithParent parentID m = m\<lparr>ParentID := Some parentID\<rparr>"

definition WithRequestAck :: "Message \<Rightarrow> Message" where
  "WithRequestAck m = m\<lparr>RequestAck := True\<rparr>"

definition Validate :: "Message \<Rightarrow> message_error option" where
  "Validate m =
     (if length (From m) > MaxDIDLength then Some ErrDIDTooLong
      else if length (To m) > MaxDIDLength then Some ErrDIDTooLong
      else if length (Method m) > MaxMethodLength then Some ErrMethodTooLong
      else None)"

definition ValidateReaction :: "Reaction \<Rightarrow> message_error option" where
  "ValidateReaction r =
     (if Emoji r = '''' then Some ErrInvalidReaction
      else if length (Emoji r) > MaxEmojiLength then Some ErrEmojiTooLong
      else None)"

definition ValidatePresence :: "PresenceUpdate \<Rightarrow> message_error option" where
  "ValidatePresence p =
     (if length (pu_StatusText p) > MaxStatusTextLength then Some ErrStatusTextTooLong else None)"

section \<open>Clone, over an explicit store\<close>

text \<open>
  UUID cells and byte buffers live at addresses; the pointer fields and slices of a message
  object hold addresses, and the object's own \<open>ID\<close> is a cell as well, because \<open>NewChatMessage\<close>
  takes its address. A slice refers to a whole buffer.
\<close>

type_synonym addr = nat

record memory =
  uuid_cells :: "addr \<Rightarrow> uuid"
  buffers :: "addr \<Rightarrow> bytes"
  next_addr :: addr

record MessageObject =
  obj_ID :: addr
  obj_CorrelationID :: "addr option"
  obj_From :: did
  obj_To :: did
  obj_Type :: MessageType
  obj_Method :: string
  obj_Body :: "addr option"
  obj_Signature :: "addr option"
  obj_Timestamp :: time
  obj_TraceID :: string
  obj_Encrypted :: bool
  obj_ThreadID :: "addr option"
  obj_ParentID :: "addr option"
  obj_ThreadSeqNo :: int
  obj_RequestAck :: bool
  obj_ActorDID :: did
  obj_ActorProof :: "addr option"

definition read_message :: "memory \<Rightarrow> MessageObject \<Rightarrow> Message" where
  "read_message mem m =
     \<lparr>msg_ID = uuid_cells mem (obj_ID m), CorrelationID = map_option (uuid_cells mem) (obj_CorrelationID m),
      From = obj_From m, To = obj_To m, MsgType = obj_Type m, Method = obj_Method m,
      Body = map_option (buffers mem) (obj_Body m), Signature = map_option (buffers mem) (obj_Signature m),
      Timestamp = obj_Timestamp m, TraceID = obj_TraceID m, Encrypted = obj_Encrypted m,
      ThreadID = map_option (uuid_cells mem) (obj_ThreadID m),
      ParentID = map_option (uuid_cells mem) (obj_ParentID m), ThreadSeqNo = obj_ThreadSeqNo m,
      RequestAck = obj_RequestAck m, ActorDID = obj_ActorDID m,
      ActorProof = map_option (buffers mem) (obj_ActorProof m)\<rparr>"

definition new_uuid :: "uuid \<Rightarrow> memory \<Rightarrow> addr \<times> memory" where
  "new_uuid v mem =
     (next_addr mem, mem\<lparr>uuid_cells := (uuid_cells mem)(next_addr mem := v), next_addr := Suc (next_addr mem)\<rparr>)"

definition new_buffer :: "bytes \<Rightarrow> memory \<Rightarrow> addr \<times> memory" where
  "new_buffer b mem =
     (next_addr mem, mem\<lparr>buffers := (buffers mem)(next_addr mem := b), next_addr := Suc (next_addr mem)\<rparr>)"

definition copy_uuid :: "addr option \<Rightarrow> memory \<Rightarrow> addr option \<times> memory" where
  "copy_uuid p mem =
     (case p of None \<Rightarrow> (None, mem)
      | Some a \<Rightarrow> let (a', mem') = new_uuid (uuid_cells mem a) mem in (Some a', mem'))"

definition copy_buffer :: "addr option \<Rightarrow> memory \<Rightarrow> addr option \<times> memory" where
  "copy_buffer p mem =
     (case p of None \<Rightarrow> (None, mem)
      | Some a \<Rightarrow> let (a', mem') = new_buffer (buffers mem a) mem in (Some a', mem'))"

definition Clone :: "MessageObject \<Rightarrow> memory \<Rightarrow> MessageObject \<times> memory" where
  "Clone m mem =
     (let (i, mem) = new_uuid (uuid_cells mem (obj_ID m)) mem;
          clone = m\<lparr>obj_ID := i\<rparr>;
          (corrID, mem) = copy_uuid (obj_CorrelationID m) mem;
          (threadID, mem) = copy_uuid (obj_ThreadID m) mem;
          (parentID, mem) = copy_uuid (obj_ParentID m) mem;
          (body, mem) = copy_buffer (obj_Body m) mem;
          (sig, mem) = copy_buffer (obj_Signature m) mem;
          (proof', mem) = copy_buffer (obj_ActorProof m) mem
      in (clone\<lparr>obj_CorrelationID := corrID, obj_ThreadID := threadID, obj_ParentID := parentID,
                obj_Body := body, obj_Signature := sig, obj_ActorProof := proof'\<rparr>, mem))"

text \<open>The addresses of an object, and writes through any of its pointers.\<close>

definition addresses :: "MessageObject \<Rightarrow> addr set" where
  "addresses m = {obj_ID m} \<union> set_option (obj_CorrelationID m) \<union> set_option (obj_ThreadID m)
     \<union> set_option (obj_ParentID m) \<union> set_option (obj_Body m) \<union> set_option (obj_Signature m)
     \<union> set_option (obj_ActorProof m)"

definition allocated :: "memory \<Rightarrow> MessageObject \<Rightarrow> bool" where
  "allocated mem m \<longleftrightarrow> (\<forall>a \<in> addresses m. a < next_addr mem)"

datatype memory_write = WriteUUID addr uuid | WriteBuffer addr bytes

fun write_addr :: "memory_write \<Rightarrow> addr" where
  "write_addr (WriteUUID a v) = a"
| "write_addr (WriteBuffer a b) = a"

fun write_memory :: "memory_write \<Rightarrow> memory \<Rightarrow> memory" where
  "write_memory (WriteUUID a v) mem = mem\<lparr>uuid_cells := (uuid_cells mem)(a := v)\<rparr>"
| "write_memory (WriteBuffer a b) mem = mem\<lparr>buffers := (buffers mem)(a := b)\<rparr>"

lemma read_message_cong:
  assumes "\<forall>a \<in> addresses m. uuid_cells mem a = uuid_cells mem' a \<and> buffers mem a = buffers mem' a"
  shows "read_message mem m = read_message mem' m"
  using assms by (auto simp: read_message_def addresses_def intro!: option.map_cong0)

lemma write_elsewhere:
  assumes "\<forall>w \<in> set ws. write_addr w \<notin> addresses m"
  shows "read_message (fold write_memory ws mem) m = read_message mem m"
  using assms
proof (induction ws arbitrary: mem)
  case (Cons w ws)
  have "read_message (write_memory w mem) m = read_message mem m"
    using Cons.prems by (cases w) (auto intro!: read_message_cong)
  with Cons show ?case by simp
qed simp

text \<open>What a copied pointer looks like in every later memory.\<close>

definition extends :: "memory \<Rightarrow> memory \<Rightarrow> bool" where
  "extends mem mem' \<longleftrightarrow> next_addr mem \<le> next_addr mem' \<and>
     (\<forall>a < next_addr mem. uuid_cells mem' a = uuid_cells mem a \<and> buffers mem' a = buffers mem a)"

lemma extends_trans: "extends a b \<Longrightarrow> extends b c \<Longrightarrow> extends a c"
  by (auto simp: extends_def)

lemma copy_uuid_spec:
  assumes "copy_uuid p mem = (q, mem')" and "set_option p \<subseteq> {..<next_addr mem}"
  shows "extends mem mem' \<and> set_option q \<subseteq> {next_addr mem..<next_addr mem'}
    \<and> map_option (uuid_cells mem') q = map_option (uuid_cells mem) p"
  using assms by (auto simp: copy_uuid_def new_uuid_def extends_def split: option.splits)

lemma copy_buffer_spec:
  assumes "copy_buffer p mem = (q, mem')" and "set_option p \<subseteq> {..<next_addr mem}"
  shows "extends mem mem' \<and> set_option q \<subseteq> {next_addr mem..<next_addr mem'}
    \<and> map_option (buffers mem') q = map_option (buffers mem) p"
  using assms by (auto simp: copy_buffer_def new_buffer_def extends_def split: option.splits)

lemma extends_map_option:
  assumes "extends mem mem'" and "set_option p \<subseteq> {..<next_addr mem}"
  shows "map_option (uuid_cells mem') p = map_option (uuid_cells mem) p"
    and "map_option (buffers mem') p = map_option (buffers mem) p"
  using assms by (cases p; auto simp: extends_def)+

text \<open>The state of a partial clone: the memory has grown and the pointer has its copy above it.\<close>

definition copied_uuid :: "memory \<Rightarrow> memory \<Rightarrow> addr option \<Rightarrow> addr option \<Rightarrow> bool" where
  "copied_uuid mem mem' p q \<longleftrightarrow> set_option q \<subseteq> {next_addr mem..<next_addr mem'}
     \<and> map_option (uuid_cells mem') q = map_option (uuid_cells mem) p"

definition copied_buffer :: "memory \<Rightarrow> memory \<Rightarrow> addr option \<Rightarrow> addr option \<Rightarrow> bool" where
  "copied_buffer mem mem' p q \<longleftrightarrow> set_option q \<subseteq> {next_addr mem..<next_addr mem'}
     \<and> map_option (buffers mem') q = map_option (buffers mem) p"

lemma copied_extends:
  assumes "extends mem mem1" and "extends mem1 mem2"
  shows "copied_uuid mem mem1 p q \<Longrightarrow> copied_uuid mem mem2 p q"
    and "copied_buffer mem mem1 p q \<Longrightarrow> copied_buffer mem mem2 p q"
  using assms extends_map_option [OF assms(2), of q]
  by (auto simp: copied_uuid_def copied_buffer_def extends_def subset_iff)

lemma copy_uuid_copied:
  assumes "extends mem mem1" and "copy_uuid p mem1 = (q, mem2)" and "set_option p \<subseteq> {..<next_addr mem}"
  shows "extends mem mem2 \<and> extends mem1 mem2 \<and> copied_uuid mem mem2 p q"
proof -
  have p1: "set_option p \<subseteq> {..<next_addr mem1}"
    using assms(1,3) by (auto simp: extends_def)
  show ?thesis
    using copy_uuid_spec [OF assms(2) p1] extends_map_option(1) [OF assms(1,3)] assms(1)
      extends_trans [OF assms(1)] by (auto simp: copied_uuid_def extends_def)
qed

lemma copy_buffer_copied:
  assumes "extends mem mem1" and "copy_buffer p mem1 = (q, mem2)" and "set_option p \<subseteq> {..<next_addr mem}"
  shows "extends mem mem2 \<and> extends mem1 mem2 \<and> copied_buffer mem mem2 p q"
proof -
  have p1: "set_option p \<subseteq> {..<next_addr mem1}"
    using assms(1,3) by (auto simp: extends_def)
  show ?thesis
    using copy_buffer_spec [OF assms(2) p1] extends_map_option(2) [OF assms(1,3)] assms(1)
      extends_trans [OF assms(1)] by (auto simp: copied_buffer_def extends_def)
qed

lemma Clone_copied:
  assumes "Clone m mem = (c, mem')" and "allocated mem m"
  shows "extends mem mem' \<and> copied_uuid mem mem' (Some (obj_ID m)) (Some (obj_ID c))
    \<and> copied_uuid mem mem' (obj_CorrelationID m) (obj_CorrelationID c)
    \<and> copied_uuid mem mem' (obj_ThreadID m) (obj_ThreadID c)
    \<and> copied_uuid mem mem' (obj_ParentID m) (obj_ParentID c)
    \<and> copied_buffer mem mem' (obj_Body m) (obj_Body c)
    \<and> copied_buffer mem mem' (obj_Signature m) (obj_Signature c)
    \<and> copied_buffer mem mem' (obj_ActorProof m) (obj_ActorProof c)
    \<and> obj_From c = obj_From m \<and> obj_To c = obj_To m \<and> obj_Type c = obj_Type m \<and> obj_Method c = obj_Method m
    \<and> obj_Timestamp c = obj_Timestamp m \<and> obj_TraceID c = obj_TraceID m \<and> obj_Encrypted c = obj_Encrypted m
    \<and> obj_ThreadSeqNo c = obj_ThreadSeqNo m \<and> obj_RequestAck c = obj_RequestAck m
    \<and> obj_ActorDID c = obj_ActorDID m"
proof -
  have al: "set_option (obj_CorrelationID m) \<subseteq> {..<next_addr mem}" "set_option (obj_ThreadID m) \<subseteq> {..<next_addr mem}"
    "set_option (obj_ParentID m) \<subseteq> {..<next_addr mem}" "set_option (obj_Body m) \<subseteq> {..<next_addr mem}"
    "set_option (obj_Signature m) \<subseteq> {..<next_addr mem}" "set_option (obj_ActorProof m) \<subseteq> {..<next_addr mem}"
    using assms(2) by (auto simp: allocated_def addresses_def)
  obtain i m1 where s1: "new_uuid (uuid_cells mem (obj_ID m)) mem = (i, m1)" by force
  obtain a m2 where s2: "copy_uuid (obj_CorrelationID m) m1 = (a, m2)" by force
  obtain b m3 where s3: "copy_uuid (obj_ThreadID m) m2 = (b, m3)" by force
  obtain d m4 where s4: "copy_uuid (obj_ParentID m) m3 = (d, m4)" by force
  obtain e m5 where s5: "copy_buffer (obj_Body m) m4 = (e, m5)" by force
  obtain f m6 where s6: "copy_buffer (obj_Signature m) m5 = (f, m6)" by force
  obtain g m7 where s7: "copy_buffer (obj_ActorProof m) m6 = (g, m7)" by force
  have e1: "extends mem m1 \<and> copied_uuid mem m1 (Some (obj_ID m)) (Some i)"
    using s1 assms(2)
    by (auto simp: new_uuid_def extends_def copied_uuid_def allocated_def addresses_def)
  note e2 = copy_uuid_copied [OF conjunct1 [OF e1] s2 al(1)]
  note e3 = copy_uuid_copied [OF conjunct1 [OF e2] s3 al(2)]
  note e4 = copy_uuid_copied [OF conjunct1 [OF e3] s4 al(3)]
  note e5 = copy_buffer_copied [OF conjunct1 [OF e4] s5 al(4)]
  note e6 = copy_buffer_copied [OF conjunct1 [OF e5] s6 al(5)]
  note e7 = copy_buffer_copied [OF conjunct1 [OF e6] s7 al(6)]
  have c: "c = m\<lparr>obj_ID := i, obj_CorrelationID := a, obj_ThreadID := b, obj_ParentID := d,
      obj_Body := e, obj_Signature := f, obj_ActorProof := g\<rparr>" and mem': "mem' = m7"
    using assms(1) by (simp_all add: Clone_def s1 s2 s3 s4 s5 s6 s7)
  show ?thesis
    unfolding c mem' using e1 e2 e3 e4 e5 e6 e7
    by (simp, meson copied_extends extends_trans)
qed

lemma Clone_fresh:
  assumes "Clone m mem = (c, mem')" and "allocated mem m"
  shows "addresses c \<subseteq> {next_addr mem..<next_addr mem'}"
  using Clone_copied [OF assms] by (simp add: addresses_def copied_uuid_def copied_buffer_def)

text \<open>
  \<open>Clone\<close> is a deep copy. The clone of an allocated message has the same contents,
  nil slices and pointers included, and the original is unchanged; the two share no memory: no
  sequence of writes through the pointers and buffers of one is visible in the other.
\<close>

theorem Clone_independent:
  assumes "Clone m mem = (c, mem')" and "allocated mem m"
  shows "read_message mem' c = read_message mem m \<and> read_message mem' m = read_message mem m
    \<and> addresses c \<inter> addresses m = {}
    \<and> (\<forall>ws. (\<forall>w \<in> set ws. write_addr w \<in> addresses c)
          \<longrightarrow> read_message (fold write_memory ws mem') m = read_message mem m)
    \<and> (\<forall>ws. (\<forall>w \<in> set ws. write_addr w \<in> addresses m)
          \<longrightarrow> read_message (fold write_memory ws mem') c = read_message mem m)"
proof -
  note cp = Clone_copied [OF assms]
  have same: "read_message mem' c = read_message mem m"
    using cp by (simp add: read_message_def copied_uuid_def copied_buffer_def)
  have orig: "read_message mem' m = read_message mem m"
    using cp assms(2) by (auto simp: extends_def allocated_def intro!: read_message_cong)
  have disj: "addresses c \<inter> addresses m = {}"
    using Clone_fresh [OF assms] assms(2) by (fastforce simp: allocated_def)
  have "read_message (fold write_memory ws mem') m = read_message mem m"
    if "\<forall>w \<in> set ws. write_addr w \<in> addresses c" for ws
    using write_elsewhere [of ws m mem'] that disj orig by auto
  moreover have "read_message (fold write_memory ws mem') c = read_message mem m"
    if "\<forall>w \<in> set ws. write_addr w \<in> addresses m" for ws
    using write_elsewhere [of ws c mem'] that disj same by auto
  ultimately show ?thesis
    using same orig disj by blast
qed

text \<open>A chat message as \<open>NewChatMessage\<close> leaves it: \<open>ThreadID\<close> points to the message's own \<open>ID\<close>.\<close>

definition chat_object :: MessageObject where
  "chat_object = \<lparr>obj_ID = 0, obj_CorrelationID = None, obj_From = ''a'', obj_To = ''b'', obj_Type = TypeChat,
     obj_Method = ''chat'', obj_Body = Some 1, obj_Signature = None, obj_Timestamp = 5, obj_TraceID = '''',
     obj_Encrypted = False, obj_ThreadID = Some 0, obj_ParentID = None, obj_ThreadSeqNo = 1,
     obj_RequestAck = False, obj_ActorDID = '''', obj_ActorProof = None\<rparr>"

definition chat_memory :: memory where
  "chat_memory = \<lparr>uuid_cells = (\<lambda>_. 7), buffers = (\<lambda>_. [1, 2]), next_addr = 2\<rparr>"

theorem Clone_independent_witness:
  "case Clone chat_object chat_memory of (c, mem) \<Rightarrow>
     obj_ThreadID c \<noteq> Some (obj_ID c) \<and> Signature (read_message mem c) = None
     \<and> read_message mem c = read_message chat_memory chat_object
     \<and> read_message (fold write_memory [WriteUUID (obj_ID c) 9, WriteBuffer 4 [3]] mem) chat_object
         = read_message chat_memory chat_object"
proof -
  have "allocated chat_memory chat_object"
    by (simp add: allocated_def addresses_def chat_object_def chat_memory_def)
  moreover obtain c mem where cl: "Clone chat_object chat_memory = (c, mem)" by force
  ultimately have
    "read_message mem c = read_message chat_memory chat_object \<and>
     ((\<forall>w \<in> set [WriteUUID (obj_ID c) 9, WriteBuffer 4 [3]]. write_addr w \<in> addresses c)
      \<longrightarrow> read_message (fold write_memory [WriteUUID (obj_ID c) 9, WriteBuffer 4 [3]] mem) chat_object
         = read_message chat_memory chat_object)"
    using Clone_independent [OF cl] by blast
  moreover have "obj_ID c = 2" "obj_ThreadID c = Some 3" "obj_Body c = Some 4"
    using cl by (auto simp: Clone_def new_uuid_def copy_uuid_def copy_buffer_def new_buffer_def
        chat_object_def chat_memory_def)
  moreover from this have "\<forall>w \<in> set [WriteUUID (obj_ID c) 9, WriteBuffer 4 [3]]. write_addr w \<in> addresses c"
    by (simp add: addresses_def)
  moreover have "Signature (read_message chat_memory chat_object) = None"
    by (simp add: read_message_def chat_object_def)
  ultimately show ?thesis by (simp add: cl)
qed

section \<open>Replies and threads\<close>

lemmas constructor_defs = NewRequest_def NewResponse_def NewNotification_def NewErrorResponse_def
  NewChatMessage_def NewChatReply_def with_body_def NewMessage_def Let_def

text \<open>A reply goes back along the request's route, names it, and passes validation if the
  request does.\<close>

lemma NewResponse_route:
  assumes "NewResponse marshal i now req body = Inr r"
  shows "From r = To req \<and> To r = From req \<and> Method r = Method req
    \<and> CorrelationID r = Some (msg_ID req) \<and> IsResponse r \<and> (Validate req = None \<longrightarrow> Validate r = None)"
  using assms by (auto simp: constructor_defs IsResponse_def Validate_def split: option.splits if_splits)

lemma NewErrorResponse_route:
  assumes "NewErrorResponse marshal i now req code txt = Inr r"
  shows "From r = To req \<and> To r = From req \<and> Method r = Method req
    \<and> CorrelationID r = Some (msg_ID req) \<and> IsError r \<and> (Validate req = None \<longrightarrow> Validate r = None)"
  using assms by (auto simp: constructor_defs IsError_def Validate_def split: option.splits if_splits)

lemma chat_thread:
  "NewChatMessage marshal i now f t body = Inr m \<Longrightarrow> IsThreadStart m \<and> ThreadSeqNo m = 1"
  "NewChatReply marshal i now f t th p n body = Inr m \<Longrightarrow> InThread m \<and> (IsThreadStart m \<longleftrightarrow> th = i)"
  by (auto simp: constructor_defs IsThreadStart_def InThread_def split: option.splits)

end
