(* ===== verification/Reliability.thy ===== *)
theory Reliability
  imports Go_Prelude
begin

text \<open>
  The reliability helpers of \<open>pkg/messaging/reliability.go\<close>: retry with exponential backoff,
  the circuit breaker and the token-bucket rate limiter. Every method of the breaker and the
  limiter runs under the object's mutex, so it is one atomic step; the clock reading is an
  argument. Floating-point quantities (tokens, rates, the backoff factor) are rational
  numbers: the rounding of \<open>float64\<close> is not modelled. Counters are unbounded integers.
\<close>

section \<open>Retry\<close>

record 'e RetryPolicy =
  MaxRetries :: int
  InitialBackoff :: duration
  MaxBackoff :: duration
  BackoffFactor :: rat
  RetryableError :: "'e \<Rightarrow> bool"

definition DefaultRetryPolicy :: "'e RetryPolicy" where
  "DefaultRetryPolicy = \<lparr>MaxRetries = 3, InitialBackoff = 100 * 1000000, MaxBackoff = 5 * 1000000000,
     BackoffFactor = 2, RetryableError = (\<lambda>_. True)\<rparr>"

text \<open>The conversion of a floating-point value to an integer truncates towards zero.\<close>

definition truncate_rat :: "rat \<Rightarrow> int" where
  "truncate_rat x = (if x < 0 then \<lceil>x\<rceil> else \<lfloor>x\<rfloor>)"

definition next_backoff :: "'e RetryPolicy \<Rightarrow> duration \<Rightarrow> duration" where
  "next_backoff p b =
     (let b' = truncate_rat (of_int b * BackoffFactor p) in if b' > MaxBackoff p then MaxBackoff p else b')"

text \<open>
  The outcome of \<open>Retry\<close>: nil, a non-retryable error, the context's error, or
  \<open>ErrMaxRetriesExceeded\<close> joined with the last error (nil when no attempt was made).
\<close>

datatype 'e retry_result = RetryNil | RetryErr 'e | RetryCtx | RetryExceeded "'e option"

text \<open>
  The callback is the sequence of its results (\<open>None\<close> for a nil error), the context is what
  the two \<open>select\<close> statements of attempt \<open>n\<close> observe. The model also returns the number of
  calls of the callback and the waits between them.
\<close>

record 'e retry_env =
  fn_result :: "nat \<Rightarrow> 'e option"
  done_before :: "nat \<Rightarrow> bool"
  done_waiting :: "nat \<Rightarrow> bool"

function retry_loop ::
  "'e RetryPolicy \<Rightarrow> 'e retry_env \<Rightarrow> nat \<Rightarrow> duration \<Rightarrow> 'e option \<Rightarrow> duration list
   \<Rightarrow> 'e retry_result \<times> nat \<times> duration list" where
  "retry_loop p env attempt backoff lastErr waits =
     (if \<not> int attempt \<le> MaxRetries p then (RetryExceeded lastErr, attempt, waits)
      else if done_before env attempt then (RetryCtx, attempt, waits)
      else case fn_result env attempt of
        None \<Rightarrow> (RetryNil, Suc attempt, waits)
      | Some e \<Rightarrow>
          if \<not> RetryableError p e then (RetryErr e, Suc attempt, waits)
          else if int attempt < MaxRetries p then
            if done_waiting env attempt then (RetryCtx, Suc attempt, waits)
            else retry_loop p env (Suc attempt) (next_backoff p backoff) (Some e) (waits @ [backoff])
          else retry_loop p env (Suc attempt) backoff (Some e) waits)"
  by pat_completeness auto
termination
  by (relation "measure (\<lambda>(p, env, attempt, _). nat (MaxRetries p + 1 - int attempt))") auto

declare retry_loop.simps [simp del]

definition Retry :: "'e RetryPolicy \<Rightarrow> 'e retry_env \<Rightarrow> 'e retry_result \<times> nat \<times> duration list" where
  "Retry p env = retry_loop p env 0 (InitialBackoff p) None []"

section \<open>Circuit breaker\<close>

datatype CircuitState = CircuitClosed | CircuitOpen | CircuitHalfOpen

record CircuitBreaker =
  cb_name :: string
  maxFailures :: int
  resetTimeout :: duration
  halfOpenMax :: int
  state :: CircuitState
  failures :: int
  successes :: int
  lastFailure :: time

record CircuitBreakerConfig =
  Name :: string
  MaxFailures :: int
  ResetTimeout :: duration
  HalfOpenMax :: int

definition DefaultCircuitBreakerConfig :: "string \<Rightarrow> CircuitBreakerConfig" where
  "DefaultCircuitBreakerConfig n =
     \<lparr>Name = n, MaxFailures = 5, ResetTimeout = 30 * 1000000000, HalfOpenMax = 3\<rparr>"

definition NewCircuitBreaker :: "CircuitBreakerConfig \<Rightarrow> CircuitBreaker" where
  "NewCircuitBreaker c = \<lparr>cb_name = Name c, maxFailures = MaxFailures c, resetTimeout = ResetTimeout c,
     halfOpenMax = HalfOpenMax c, state = CircuitClosed, failures = 0, successes = 0, lastFailure = 0\<rparr>"

definition allowRequest :: "time \<Rightarrow> CircuitBreaker \<Rightarrow> bool \<times> CircuitBreaker" where
  "allowRequest now cb =
     (case state cb of
        CircuitClosed \<Rightarrow> (True, cb)
      | CircuitHalfOpen \<Rightarrow> (True, cb)
      | CircuitOpen \<Rightarrow>
          if now - lastFailure cb > resetTimeout cb
          then (True, cb\<lparr>state := CircuitHalfOpen, successes := 0\<rparr>)
          else (False, cb))"

definition recordFailure :: "time \<Rightarrow> CircuitBreaker \<Rightarrow> CircuitBreaker" where
  "recordFailure now cb =
     (let cb1 = cb\<lparr>failures := failures cb + 1, lastFailure := now\<rparr>
      in if state cb1 = CircuitHalfOpen then cb1\<lparr>state := CircuitOpen\<rparr>
         else if failures cb1 \<ge> maxFailures cb1 then cb1\<lparr>state := CircuitOpen\<rparr>
         else cb1)"

definition recordSuccess :: "CircuitBreaker \<Rightarrow> CircuitBreaker" where
  "recordSuccess cb =
     (if state cb = CircuitHalfOpen then
        let cb1 = cb\<lparr>successes := successes cb + 1\<rparr>
        in if successes cb1 \<ge> halfOpenMax cb1 then cb1\<lparr>state := CircuitClosed, failures := 0\<rparr> else cb1
      else cb\<lparr>failures := 0\<rparr>)"

definition Reset :: "CircuitBreaker \<Rightarrow> CircuitBreaker" where
  "Reset cb = cb\<lparr>state := CircuitClosed, failures := 0, successes := 0\<rparr>"

text \<open>\<open>Execute\<close> for a caller that is not interleaved with others: \<open>None\<close> is \<open>ErrCircuitOpen\<close>,
  \<open>Some r\<close> the callback's result.\<close>

definition Execute ::
  "time \<Rightarrow> time \<Rightarrow> 'e option \<Rightarrow> CircuitBreaker \<Rightarrow> 'e option option \<times> CircuitBreaker" where
  "Execute now later fn cb =
     (let (ok, cb1) = allowRequest now cb
      in if \<not> ok then (None, cb1)
         else case fn of
           Some e \<Rightarrow> (Some (Some e), recordFailure later cb1)
         | None \<Rightarrow> (Some None, recordSuccess cb1))"

section \<open>Rate limiter\<close>

record RateLimiter =
  rate :: rat
  bucketSize :: rat
  tokens :: rat
  lastUpdate :: time

definition NewRateLimiter :: "time \<Rightarrow> rat \<Rightarrow> rat \<Rightarrow> RateLimiter" where
  "NewRateLimiter now r b = \<lparr>rate = r, bucketSize = b, tokens = b, lastUpdate = now\<rparr>"

definition seconds :: "duration \<Rightarrow> rat" where
  "seconds d = of_int d / 1000000000"

definition Allow :: "time \<Rightarrow> RateLimiter \<Rightarrow> bool \<times> RateLimiter" where
  "Allow now rl =
     (let elapsed = seconds (now - lastUpdate rl);
          t = min (tokens rl + elapsed * rate rl) (bucketSize rl);
          rl1 = rl\<lparr>lastUpdate := now, tokens := t\<rparr>
      in if t \<ge> 1 then (True, rl1\<lparr>tokens := t - 1\<rparr>) else (False, rl1))"

text \<open>
  \<open>Wait\<close> polls \<open>Allow\<close>. Its schedule lists, for every iteration, the clock reading of the
  poll and whether the context ends during the pause that follows a refusal; running out of
  schedule is a caller that is still waiting.
\<close>

datatype wait_result = WaitOk | WaitCtx | WaitPending

fun Wait :: "(time \<times> bool) list \<Rightarrow> RateLimiter \<Rightarrow> wait_result \<times> RateLimiter" where
  "Wait [] rl = (WaitPending, rl)"
| "Wait ((now, cancelled) # ps) rl =
     (let (ok, rl1) = Allow now rl
      in if ok then (WaitOk, rl1) else if cancelled then (WaitCtx, rl1) else Wait ps rl1)"

section \<open>Retry: attempts and results\<close>

text \<open>An attempt the loop goes past: the context is alive and the callback failed retryably.\<close>

definition passes :: "'e RetryPolicy \<Rightarrow> 'e retry_env \<Rightarrow> nat \<Rightarrow> bool" where
  "passes p env n \<longleftrightarrow> \<not> done_before env n \<and>
     (case fn_result env n of None \<Rightarrow> False | Some e \<Rightarrow> RetryableError p e) \<and>
     (int n < MaxRetries p \<longrightarrow> \<not> done_waiting env n)"

definition stop_result :: "'e RetryPolicy \<Rightarrow> 'e retry_env \<Rightarrow> nat \<Rightarrow> 'e retry_result" where
  "stop_result p env n =
     (if done_before env n then RetryCtx
      else case fn_result env n of
        None \<Rightarrow> RetryNil
      | Some e \<Rightarrow> if RetryableError p e then RetryCtx else RetryErr e)"

text \<open>The waits before the first \<open>n\<close> retries.\<close>

definition backoffs :: "'e RetryPolicy \<Rightarrow> nat \<Rightarrow> duration list" where
  "backoffs p n = map (\<lambda>k. (next_backoff p ^^ k) (InitialBackoff p)) [0..<n]"

lemma backoffs_Suc: "backoffs p (Suc n) = backoffs p n @ [(next_backoff p ^^ n) (InitialBackoff p)]"
  by (simp add: backoffs_def)

lemma length_backoffs [simp]: "length (backoffs p n) = n"
  by (simp add: backoffs_def)

lemma backoffs_bounded:
  assumes "w \<in> set (backoffs p n)"
  shows "w \<le> max (InitialBackoff p) (MaxBackoff p)"
proof -
  obtain k where "w = (next_backoff p ^^ k) (InitialBackoff p)"
    using assms by (auto simp: backoffs_def)
  then show ?thesis
    by (cases k) (auto simp: next_backoff_def Let_def)
qed

lemma retry_loop_stops:
  assumes "int n \<le> MaxRetries p" and "\<not> passes p env n"
  shows "retry_loop p env n b l w =
    (stop_result p env n, if done_before env n then n else Suc n, w)"
  using assms
  by (auto simp: retry_loop.simps [of p env n] passes_def stop_result_def split: option.splits if_splits)

lemma retry_loop_passes:
  assumes "int n \<le> MaxRetries p" and "passes p env n"
  shows "retry_loop p env n b l w =
    (if int n < MaxRetries p
     then retry_loop p env (Suc n) (next_backoff p b) (fn_result env n) (w @ [b])
     else retry_loop p env (Suc n) b (fn_result env n) w)"
  using assms by (auto simp: retry_loop.simps [of p env n] passes_def split: option.splits)

lemma retry_loop_end:
  "\<not> int n \<le> MaxRetries p \<Longrightarrow> retry_loop p env n b l w = (RetryExceeded l, n, w)"
  by (simp add: retry_loop.simps [of p env n])

lemma Retry_upto:
  assumes "\<forall>k<n. passes p env k" and "int n \<le> MaxRetries p"
  shows "\<exists>l. Retry p env = retry_loop p env n ((next_backoff p ^^ n) (InitialBackoff p)) l (backoffs p n)"
  using assms
proof (induction n)
  case 0
  show ?case by (auto simp: Retry_def backoffs_def)
next
  case (Suc n)
  then show ?case
    by (auto simp: retry_loop_passes backoffs_Suc)
qed

text \<open>The first attempt that is not gone past decides the outcome.\<close>

lemma Retry_stops:
  assumes "\<forall>k<n. passes p env k" and "int n \<le> MaxRetries p" and "\<not> passes p env n"
  shows "Retry p env =
    (stop_result p env n, if done_before env n then n else Suc n, backoffs p n)"
  using Retry_upto [OF assms(1,2)] retry_loop_stops [OF assms(2,3)] by auto

lemma Retry_exhausts:
  assumes "\<forall>k\<le>n. passes p env k" and "MaxRetries p = int n"
  shows "Retry p env = (RetryExceeded (fn_result env n), Suc n, backoffs p n)"
  using Retry_upto [of n p env] assms
  by (auto simp: retry_loop_passes retry_loop_end)

lemma find_upt_Some:
  "find P [0..<n] = Some k \<Longrightarrow> k < n \<and> P k \<and> (\<forall>j<k. \<not> P j)"
  by (auto simp: find_Some_iff)

lemma find_upt_None: "find P [0..<n] = None \<Longrightarrow> j < n \<Longrightarrow> \<not> P j"
  by (auto simp: find_None_iff)

text \<open>
  Outcome of \<open>Retry\<close>. With a non-negative retry limit, the loop ends at the first
  attempt at which the context is done, the callback succeeds, or it fails with an error that
  is not retryable, and returns what that attempt determines; when every attempt fails
  retryably the callback has run exactly \<open>MaxRetries + 1\<close> times and the last error is returned
  with \<open>ErrMaxRetriesExceeded\<close>. The waits taken are the exponential backoff sequence, none of
  them longer than the larger of the initial and the maximal backoff.
\<close>

theorem Retry_outcome:
  assumes "0 \<le> MaxRetries p"
  shows "Retry p env =
      (case find (\<lambda>n. \<not> passes p env n) [0..<Suc (nat (MaxRetries p))] of
         Some n \<Rightarrow> (stop_result p env n, if done_before env n then n else Suc n, backoffs p n)
       | None \<Rightarrow> (RetryExceeded (fn_result env (nat (MaxRetries p))), Suc (nat (MaxRetries p)),
                  backoffs p (nat (MaxRetries p))))
    \<and> (\<forall>w \<in> set (snd (snd (Retry p env))). w \<le> max (InitialBackoff p) (MaxBackoff p))"
    (is "?eq \<and> _")
proof -
  have ?eq
  proof (cases "find (\<lambda>n. \<not> passes p env n) [0..<Suc (nat (MaxRetries p))]")
    case None
    with find_upt_None [OF None] show ?thesis
      using assms Retry_exhausts [of "nat (MaxRetries p)" p env] by (simp add: less_Suc_eq_le)
  next
    case (Some n)
    note first = find_upt_Some [OF Some]
    then have "int n \<le> MaxRetries p"
      using assms by (simp add: less_Suc_eq_le le_nat_iff)
    with first Some show ?thesis
      using Retry_stops [of n p env] by simp
  qed
  then show ?thesis
    by (auto split: option.splits dest: backoffs_bounded)
qed

definition flaky_env :: "nat \<Rightarrow> nat retry_env" where
  "flaky_env k = \<lparr>fn_result = (\<lambda>n. if n < k then Some n else None), done_before = (\<lambda>_. False),
     done_waiting = (\<lambda>_. False)\<rparr>"

theorem Retry_outcome_witness:
  "Retry DefaultRetryPolicy (flaky_env 2) = (RetryNil, 3, [100000000, 200000000])
   \<and> Retry DefaultRetryPolicy (flaky_env 9) = (RetryExceeded (Some 3), 4, [100000000, 200000000, 400000000])"
  using Retry_outcome [of "DefaultRetryPolicy :: nat RetryPolicy" "flaky_env 2"]
    Retry_outcome [of "DefaultRetryPolicy :: nat RetryPolicy" "flaky_env 9"]
  by (simp add: DefaultRetryPolicy_def flaky_env_def passes_def stop_result_def backoffs_def
      next_backoff_def truncate_rat_def upt_rec numeral_eq_Suc)

section \<open>Circuit breaker: refinement of an abstract breaker\<close>

text \<open>
  Concurrent callers interleave the three critical sections of \<open>Execute\<close> and \<open>Reset\<close>
  arbitrarily, so a history of the breaker is any sequence of these events.
\<close>

datatype cb_event = Admit time | Fail time | Succeed | ResetCall

fun cb_step :: "cb_event \<Rightarrow> CircuitBreaker \<Rightarrow> CircuitBreaker" where
  "cb_step (Admit now) cb = snd (allowRequest now cb)"
| "cb_step (Fail now) cb = recordFailure now cb"
| "cb_step Succeed cb = recordSuccess cb"
| "cb_step ResetCall cb = Reset cb"

definition cb_run :: "cb_event list \<Rightarrow> CircuitBreaker \<Rightarrow> CircuitBreaker" where
  "cb_run = fold cb_step"

lemma cb_run_simps [simp]:
  "cb_run [] cb = cb" "cb_run (e # es) cb = cb_run es (cb_step e cb)"
  by (simp_all add: cb_run_def)

inductive cb_reachable :: "CircuitBreakerConfig \<Rightarrow> CircuitBreaker \<Rightarrow> bool" for c where
  cb_new: "cb_reachable c (NewCircuitBreaker c)"
| cb_next: "cb_reachable c cb \<Longrightarrow> cb_reachable c (cb_step e cb)"

text \<open>The abstract breaker: what is remembered depends on the state.\<close>

datatype breaker_spec = SClosed int | SOpen time | SHalfOpen int

fun spec_step :: "CircuitBreakerConfig \<Rightarrow> cb_event \<Rightarrow> breaker_spec \<Rightarrow> breaker_spec" where
  "spec_step c (Admit now) (SOpen t) = (if now - t > ResetTimeout c then SHalfOpen 0 else SOpen t)"
| "spec_step c (Admit now) b = b"
| "spec_step c (Fail now) (SClosed n) = (if n + 1 \<ge> MaxFailures c then SOpen now else SClosed (n + 1))"
| "spec_step c (Fail now) b = SOpen now"
| "spec_step c Succeed (SClosed n) = SClosed 0"
| "spec_step c Succeed (SOpen t) = SOpen t"
| "spec_step c Succeed (SHalfOpen n) = (if n + 1 \<ge> HalfOpenMax c then SClosed 0 else SHalfOpen (n + 1))"
| "spec_step c ResetCall b = SClosed 0"

definition cb_abs :: "CircuitBreaker \<Rightarrow> breaker_spec" where
  "cb_abs cb = (case state cb of
     CircuitClosed \<Rightarrow> SClosed (failures cb)
   | CircuitOpen \<Rightarrow> SOpen (lastFailure cb)
   | CircuitHalfOpen \<Rightarrow> SHalfOpen (successes cb))"

definition cb_config :: "CircuitBreaker \<Rightarrow> CircuitBreakerConfig" where
  "cb_config cb = \<lparr>Name = cb_name cb, MaxFailures = maxFailures cb, ResetTimeout = resetTimeout cb,
     HalfOpenMax = halfOpenMax cb\<rparr>"

lemmas cb_op_defs = allowRequest_def recordFailure_def recordSuccess_def Reset_def

lemma cb_config_step [simp]: "cb_config (cb_step e cb) = cb_config cb"
  by (cases e) (auto simp: cb_config_def cb_op_defs Let_def split: CircuitState.splits)

lemma cb_abs_step: "cb_abs (cb_step e cb) = spec_step (cb_config cb) e (cb_abs cb)"
  by (cases e; cases "state cb")
     (auto simp: cb_abs_def cb_config_def cb_op_defs Let_def)

lemma cb_abs_run: "cb_abs (cb_run es cb) = fold (spec_step (cb_config cb)) es (cb_abs cb)"
  by (induction es arbitrary: cb) (simp_all add: cb_abs_step)

lemma cb_config_New [simp]: "cb_config (NewCircuitBreaker c) = c"
  by (cases c) (simp add: cb_config_def NewCircuitBreaker_def)

lemma cb_reachable_run: "cb_reachable c (cb_run es (NewCircuitBreaker c))"
proof -
  have "cb_reachable c cb \<Longrightarrow> cb_reachable c (cb_run es cb)" for cb
    by (induction es arbitrary: cb) (auto intro: cb_next)
  then show ?thesis by (simp add: cb_new)
qed

lemma cb_reachable_inv:
  assumes "cb_reachable c cb" and "0 < MaxFailures c" and "0 < HalfOpenMax c"
  shows "cb_config cb = c \<and> 0 \<le> failures cb \<and> 0 \<le> successes cb \<and>
    (state cb = CircuitClosed \<longrightarrow> failures cb < MaxFailures c) \<and>
    (state cb = CircuitHalfOpen \<longrightarrow> successes cb < HalfOpenMax c)"
  using assms
proof (induction rule: cb_reachable.induct)
  case cb_new
  then show ?case by (simp add: NewCircuitBreaker_def cb_config_def)
next
  case (cb_next cb e)
  then have "cb_config cb = c" by simp
  with cb_next show ?case
    by (cases e; cases "state cb")
       (auto simp: cb_op_defs Let_def cb_config_def)
qed

text \<open>The number of recorded successes in a history.\<close>

abbreviation successes_in :: "cb_event list \<Rightarrow> int" where
  "successes_in es \<equiv> int (length (filter (\<lambda>e. e = Succeed) es))"

lemma spec_recovery:
  assumes "fold (spec_step c) es b = SClosed m" and "ResetCall \<notin> set es"
    and "b = SOpen t \<and> n = 0 \<or> b = SHalfOpen n" and "0 \<le> n"
  shows "HalfOpenMax c - n \<le> successes_in es"
  using assms
proof (induction es arbitrary: b n t)
  case Nil
  then show ?case by auto
next
  case (Cons e es)
  show ?case
  proof (cases "b = SHalfOpen n \<and> e = Succeed \<and> n + 1 \<ge> HalfOpenMax c")
    case True
    then show ?thesis by simp
  next
    case False
    then have "\<exists>t' n'. (spec_step c e b = SOpen t' \<and> n' = 0 \<or> spec_step c e b = SHalfOpen n') \<and> 0 \<le> n'
        \<and> n' \<le> n + (if e = Succeed then 1 else 0)"
      using Cons.prems by (cases e) auto
    then show ?thesis
      using Cons.IH [of "spec_step c e b"] Cons.prems by (fastforce split: if_splits)
  qed
qed

lemma spec_cooldown:
  assumes "ResetCall \<notin> set es" and "\<forall>now. Admit now \<in> set es \<longrightarrow> now \<le> t + ResetTimeout c"
    and "\<forall>now. Fail now \<in> set es \<longrightarrow> t \<le> now"
  shows "\<exists>t' \<ge> t. fold (spec_step c) es (SOpen t) = SOpen t'"
proof -
  have "\<forall>u\<ge>t. \<exists>t'\<ge>t. fold (spec_step c) es (SOpen u) = SOpen t'"
    using assms
  proof (induction es)
    case (Cons e es)
    then show ?case by (cases e) (fastforce)+
  qed auto
  then show ?thesis by blast
qed

lemma spec_trip:
  "0 < length ts \<Longrightarrow> MaxFailures c \<le> n + int (length ts) \<Longrightarrow>
   fold (spec_step c) (map Fail ts) (SClosed n) = SOpen (last ts)"
proof (induction ts arbitrary: n)
  case (Cons t ts)
  have stay: "fold (spec_step c) (map Fail us) (SOpen u) = SOpen (last (u # us))" for us u
    by (induction us arbitrary: u) auto
  show ?case
    using Cons stay [of ts t] by (cases "ts = []") auto
qed simp

lemma cb_abs_state:
  "state cb = CircuitOpen \<longleftrightarrow> (\<exists>t. cb_abs cb = SOpen t)"
  "state cb = CircuitClosed \<longleftrightarrow> (\<exists>n. cb_abs cb = SClosed n)"
  by (auto simp: cb_abs_def split: CircuitState.splits)

lemma cb_abs_eqs:
  "state cb = CircuitClosed \<Longrightarrow> cb_abs cb = SClosed (failures cb)"
  "state cb = CircuitOpen \<Longrightarrow> cb_abs cb = SOpen (lastFailure cb)"
  by (simp_all add: cb_abs_def)

lemma cb_config_run [simp]: "cb_config (cb_run es cb) = cb_config cb"
  by (induction es arbitrary: cb) simp_all

text \<open>
  Property C15. Refinement of the circuit breaker. For every history of admissions, failures,
  successes and resets, in any interleaving of the callers, the breaker's fields implement the
  abstract breaker that counts consecutive failures while closed, remembers the last failure
  while open, and counts trial successes while half-open; and a request is refused exactly
  when the abstract breaker is open and its reset timeout has not elapsed.
\<close>

theorem breaker_refines_spec:
  "cb_abs (cb_run es (NewCircuitBreaker c)) = fold (spec_step c) es (SClosed 0)
   \<and> fst (allowRequest now (cb_run es (NewCircuitBreaker c))) =
      (case fold (spec_step c) es (SClosed 0) of SOpen t \<Rightarrow> now - t > ResetTimeout c | _ \<Rightarrow> True)"
proof -
  have abs0: "cb_abs (NewCircuitBreaker c) = SClosed 0"
    by (simp add: cb_abs_def NewCircuitBreaker_def)
  have run: "cb_abs (cb_run es (NewCircuitBreaker c)) = fold (spec_step c) es (SClosed 0)"
    by (simp add: cb_abs_run abs0)
  have "fst (allowRequest now cb) =
      (case cb_abs cb of SOpen t \<Rightarrow> now - t > ResetTimeout (cb_config cb) | _ \<Rightarrow> True)" for cb
    by (auto simp: allowRequest_def cb_abs_def cb_config_def split: CircuitState.splits)
  from this [of "cb_run es (NewCircuitBreaker c)"] run show ?thesis
    by (simp split: breaker_spec.split)
qed

text \<open>
  Trip, cool-down and recovery of a reachable breaker with positive limits. A
  closed breaker is open after \<open>MaxFailures\<close> failures in a row. An open breaker that is not
  reset stays open and refuses every request up to \<open>ResetTimeout\<close> after its last failure,
  whatever calls finish meanwhile. A breaker that is not reset goes from open to closed only
  after at least \<open>HalfOpenMax\<close> recorded successes.
\<close>

theorem breaker_trips_and_recovers:
  assumes reach: "cb_reachable c cb" and pos: "0 < MaxFailures c" "0 < HalfOpenMax c"
  shows
    "(state cb = CircuitClosed \<and> int (length ts) = MaxFailures c
        \<longrightarrow> state (cb_run (map Fail ts) cb) = CircuitOpen)
     \<and> (state cb = CircuitOpen \<and> ResetCall \<notin> set es
          \<and> (\<forall>u. Admit u \<in> set es \<longrightarrow> u \<le> lastFailure cb + ResetTimeout c)
          \<and> (\<forall>u. Fail u \<in> set es \<longrightarrow> lastFailure cb \<le> u)
          \<and> now \<le> lastFailure cb + ResetTimeout c
        \<longrightarrow> \<not> fst (allowRequest now (cb_run es cb)))
     \<and> (state cb = CircuitOpen \<and> ResetCall \<notin> set es \<and> state (cb_run es cb) = CircuitClosed
        \<longrightarrow> HalfOpenMax c \<le> successes_in es)"
proof -
  note inv = cb_reachable_inv [OF reach pos]
  have c: "cb_config cb = c" and nonneg: "0 \<le> failures cb" using inv by auto
  have conf: "cb_config (cb_run es cb) = c"
    using c by simp
  have trip: "state (cb_run (map Fail ts) cb) = CircuitOpen"
    if "state cb = CircuitClosed" "int (length ts) = MaxFailures c"
    using spec_trip [of ts c "failures cb"] that nonneg pos cb_abs_eqs(1) [of cb]
    by (cases "ts = []") (auto simp: cb_abs_state(1) cb_abs_run c)
  have cooldown: "\<not> fst (allowRequest now (cb_run es cb))"
    if op: "state cb = CircuitOpen" "ResetCall \<notin> set es"
      "\<forall>u. Admit u \<in> set es \<longrightarrow> u \<le> lastFailure cb + ResetTimeout c"
      "\<forall>u. Fail u \<in> set es \<longrightarrow> lastFailure cb \<le> u" "now \<le> lastFailure cb + ResetTimeout c"
  proof -
    obtain t where t: "t \<ge> lastFailure cb" "cb_abs (cb_run es cb) = SOpen t"
      using spec_cooldown [OF op(2-4)] cb_abs_eqs(2) [OF op(1)] by (auto simp: cb_abs_run c)
    then have "state (cb_run es cb) = CircuitOpen" "lastFailure (cb_run es cb) = t"
      by (auto simp: cb_abs_def split: CircuitState.splits)
    with t op(5) conf show ?thesis
      by (auto simp: allowRequest_def cb_config_def)
  qed
  have recovery: "HalfOpenMax c \<le> successes_in es"
    if rec: "state cb = CircuitOpen" "ResetCall \<notin> set es" "state (cb_run es cb) = CircuitClosed"
  proof -
    obtain m where "fold (spec_step c) es (SOpen (lastFailure cb)) = SClosed m"
      using rec(3) cb_abs_eqs(2) [OF rec(1)] by (auto simp: cb_abs_state(2) cb_abs_run c)
    from spec_recovery [OF this rec(2), of "lastFailure cb" 0] show ?thesis by simp
  qed
  from trip cooldown recovery show ?thesis by blast
qed

definition open_breaker :: CircuitBreaker where
  "open_breaker = cb_run (map Fail [1, 2, 3, 4, 5]) (NewCircuitBreaker (DefaultCircuitBreakerConfig ''peer''))"

theorem breaker_trips_and_recovers_witness:
  "state open_breaker = CircuitOpen
   \<and> \<not> fst (allowRequest 30000000005 (cb_run [Succeed, Admit 7] open_breaker))
   \<and> state (cb_run [Admit 30000000006, Succeed, Succeed, Succeed] open_breaker) = CircuitClosed
   \<and> 3 \<le> successes_in [Admit 30000000006, Succeed, Succeed, Succeed]"
proof -
  let ?c = "DefaultCircuitBreakerConfig ''peer''"
  have pos: "0 < MaxFailures ?c" "0 < HalfOpenMax ?c"
    by (simp_all add: DefaultCircuitBreakerConfig_def)
  have reach: "cb_reachable ?c open_breaker"
    unfolding open_breaker_def by (rule cb_reachable_run)
  have st: "state (NewCircuitBreaker ?c) = CircuitClosed"
    by (simp add: NewCircuitBreaker_def)
  have op: "state open_breaker = CircuitOpen"
    using breaker_trips_and_recovers [OF cb_new pos, of "[1, 2, 3, 4, 5]"] st
    unfolding open_breaker_def by (simp add: DefaultCircuitBreakerConfig_def)
  have last: "lastFailure open_breaker = 5"
    by (simp add: open_breaker_def NewCircuitBreaker_def DefaultCircuitBreakerConfig_def recordFailure_def)
  have closed: "state (cb_run [Admit 30000000006, Succeed, Succeed, Succeed] open_breaker) = CircuitClosed"
    by (simp add: open_breaker_def NewCircuitBreaker_def DefaultCircuitBreakerConfig_def cb_op_defs)
  show ?thesis
    using breaker_trips_and_recovers [OF reach pos, of "[]" "[Succeed, Admit 7]" 30000000005]
      breaker_trips_and_recovers [OF reach pos, of "[]" "[Admit 30000000006, Succeed, Succeed, Succeed]" 0]
      op last closed
    by (simp add: DefaultCircuitBreakerConfig_def)
qed

section \<open>Token buckets\<close>

text \<open>The answers to a sequence of polls, with the final state.\<close>

fun poll_all :: "(time \<Rightarrow> 's \<Rightarrow> bool \<times> 's) \<Rightarrow> time list \<Rightarrow> 's \<Rightarrow> bool list \<times> 's" where
  "poll_all f [] s = ([], s)"
| "poll_all f (t # ts) s =
     (let (ok, s1) = f t s; (oks, s2) = poll_all f ts s1 in (ok # oks, s2))"

lemma seconds_diff: "seconds (a - b) = seconds a - seconds b"
  by (simp add: seconds_def diff_divide_distrib)

lemma seconds_mono: "a \<le> b \<Longrightarrow> seconds a \<le> seconds b"
  by (simp add: seconds_def divide_right_mono)

text \<open>
  The contract of a token bucket: what one poll does to the level. The admission bounds are
  proved from it once.
\<close>

locale token_bucket =
  fixes poll :: "time \<Rightarrow> 's \<Rightarrow> bool \<times> 's"
    and level :: "'s \<Rightarrow> rat" and stamp :: "'s \<Rightarrow> time"
    and fill :: "'s \<Rightarrow> rat" and cap :: "'s \<Rightarrow> rat"
  assumes poll_stamp: "stamp (snd (poll now s)) = now"
    and poll_fill: "fill (snd (poll now s)) = fill s"
    and poll_cap: "cap (snd (poll now s)) = cap s"
    and poll_admits: "fst (poll now s) \<longleftrightarrow>
      1 \<le> min (level s + seconds (now - stamp s) * fill s) (cap s)"
    and poll_level: "level (snd (poll now s)) =
      min (level s + seconds (now - stamp s) * fill s) (cap s) - of_bool (fst (poll now s))"
begin

lemma polls_keep:
  "fill (snd (poll_all poll ts s)) = fill s \<and> cap (snd (poll_all poll ts s)) = cap s
   \<and> stamp (snd (poll_all poll ts s)) = last (stamp s # ts)"
  by (induction ts arbitrary: s)
     (auto simp: split_beta Let_def poll_stamp poll_fill poll_cap)

lemma level_nonneg:
  assumes "0 \<le> level s" "0 \<le> fill s" "0 \<le> cap s" "stamp s \<le> now"
  shows "0 \<le> level (snd (poll now s))"
  using assms seconds_mono [of "stamp s" now]
  by (auto simp: poll_level poll_admits seconds_diff of_bool_def)

lemma admitted_accounting:
  assumes "0 \<le> level s" "0 \<le> fill s" "0 \<le> cap s" "sorted (stamp s # ts)"
  shows "0 \<le> level (snd (poll_all poll ts s)) \<and>
    level (snd (poll_all poll ts s)) + of_nat (count_list (fst (poll_all poll ts s)) True)
      \<le> level s + seconds (last (stamp s # ts) - stamp s) * fill s"
  using assms
proof (induction ts arbitrary: s)
  case Nil
  then show ?case by (simp add: seconds_def)
next
  case (Cons t ts)
  let ?s1 = "snd (poll t s)"
  have IH: "0 \<le> level (snd (poll_all poll ts ?s1)) \<and>
      level (snd (poll_all poll ts ?s1)) + of_nat (count_list (fst (poll_all poll ts ?s1)) True)
      \<le> level ?s1 + seconds (last (t # ts) - t) * fill s"
    using Cons.IH [of ?s1] Cons.prems level_nonneg [of s t]
    by (simp add: poll_stamp poll_fill poll_cap)
  have "level ?s1 + of_bool (fst (poll t s)) \<le> level s + seconds (t - stamp s) * fill s"
    by (simp add: poll_level)
  with IH show ?case
    by (auto simp: split_beta Let_def seconds_diff algebra_simps of_bool_def split: if_splits)
qed

lemma window_bound:
  assumes "0 \<le> level s" "0 \<le> fill s" "0 \<le> cap s" "sorted (stamp s # t # ts)"
  shows "of_nat (count_list (fst (poll_all poll (t # ts) s)) True) \<le> cap s + seconds (last (t # ts) - t) * fill s"
proof -
  let ?s1 = "snd (poll t s)"
  have "level ?s1 + of_bool (fst (poll t s)) \<le> cap s"
    by (simp add: poll_level)
  moreover have "0 \<le> level (snd (poll_all poll ts ?s1)) \<and>
      level (snd (poll_all poll ts ?s1)) + of_nat (count_list (fst (poll_all poll ts ?s1)) True)
      \<le> level ?s1 + seconds (last (t # ts) - t) * fill s"
    using admitted_accounting [of ?s1 ts] level_nonneg [of s t] assms
    by (simp add: poll_stamp poll_fill poll_cap)
  ultimately show ?thesis
    by (auto simp: split_beta Let_def of_bool_def split: if_splits)
qed

lemma refilled_admits:
  assumes "0 \<le> level s" "1 \<le> cap s" "1 \<le> seconds (now - stamp s) * fill s"
  shows "fst (poll now s)"
  using assms by (simp add: poll_admits)

end

interpretation rl: token_bucket Allow tokens lastUpdate rate bucketSize
  by unfold_locales (auto simp: Allow_def Let_def)

lemma Wait_succeeds_aux:
  assumes "\<forall>(u, cancelled) \<in> set ps. \<not> cancelled" and "1 \<le> bucketSize r"
    and "\<exists>(u, b) \<in> set ps. 1 \<le> tokens r + seconds (u - lastUpdate r) * rate r"
  shows "fst (Wait ps r) = WaitOk"
  using assms
proof (induction ps arbitrary: r)
  case (Cons p ps)
  obtain now where p: "p = (now, False)"
    using Cons.prems(1) by (cases p) auto
  show ?case
  proof (cases "fst (Allow now r)")
    case True
    then show ?thesis by (simp add: p split_beta Let_def)
  next
    case False
    let ?r = "snd (Allow now r)"
    have "1 > min (tokens r + seconds (now - lastUpdate r) * rate r) (bucketSize r)"
      using False rl.poll_admits [of now r] by linarith
    then have less: "tokens r + seconds (now - lastUpdate r) * rate r < 1"
      and lev: "tokens ?r = tokens r + seconds (now - lastUpdate r) * rate r"
      using Cons.prems(2) rl.poll_level [of now r] False by (auto simp: min_def split: if_splits)
    then have "tokens ?r + seconds (u - lastUpdate ?r) * rate ?r
        = tokens r + seconds (u - lastUpdate r) * rate r" for u
      by (simp add: rl.poll_stamp rl.poll_fill seconds_diff algebra_simps)
    then have "\<exists>(u, b) \<in> set ps. 1 \<le> tokens ?r + seconds (u - lastUpdate ?r) * rate ?r"
      using Cons.prems(3) less p by auto
    then have "fst (Wait ps ?r) = WaitOk"
      using Cons.IH [of ?r] Cons.prems(1,2) by (auto simp: rl.poll_cap)
    with False show ?thesis by (simp add: p split_beta Let_def)
  qed
qed simp



text \<open>
  \<open>Wait\<close> returns. With a bucket that holds at least one token, a caller whose
  context stays alive gets its token at the latest at the first poll that comes one refill
  interval (\<open>1 / rate\<close> seconds) after the limiter was last used.
\<close>

theorem Wait_succeeds:
  assumes "0 \<le> tokens r" and "1 \<le> bucketSize r" and "\<forall>(u, cancelled) \<in> set ps. \<not> cancelled"
    and "\<exists>(u, b) \<in> set ps. 1 \<le> seconds (u - lastUpdate r) * rate r"
  shows "fst (Wait ps r) = WaitOk"
proof -
  have "\<exists>(u, b) \<in> set ps. 1 \<le> tokens r + seconds (u - lastUpdate r) * rate r"
    using assms(1,4) by (auto intro!: bexI split: prod.splits)
  then show ?thesis
    using Wait_succeeds_aux assms(2,3) by blast
qed

theorem Wait_succeeds_witness:
  "Wait [(0, False), (300000000, False), (600000000, False)]
     \<lparr>rate = 2, bucketSize = 1, tokens = 0, lastUpdate = 0\<rparr>
   = (WaitOk, \<lparr>rate = 2, bucketSize = 1, tokens = 0, lastUpdate = 600000000\<rparr>)"
  using Wait_succeeds [of "\<lparr>rate = 2, bucketSize = 1, tokens = 0, lastUpdate = 0\<rparr>"
      "[(0, False), (300000000, False), (600000000, False)]"]
  by (simp add: Allow_def seconds_def Let_def)

end
