(* ===== verification/Agent_Registry.thy ===== *)
theory Agent_Registry
  imports Go_Prelude
begin

text \<open>
  The agent registry of \<open>pkg/registry\<close>: agents with their presence and keys (\<open>agent.go\<close>), the
  in-memory and the file-backed store (\<open>store.go\<close>) and the discovery service (\<open>discovery.go\<close>).
  The stores hold pointers to agents; every caller in the sources that changes an agent it got
  from a store puts it back at once, and an agent is stored under its own ID, so the model
  keeps agents by value. The clock is read once per operation.
\<close>

section \<open>Agents\<close>

type_synonym AgentStatus = string

abbreviation StatusOnline :: AgentStatus where "StatusOnline \<equiv> ''online''"
abbreviation StatusOffline :: AgentStatus where "StatusOffline \<equiv> ''offline''"
abbreviation StatusBusy :: AgentStatus where "StatusBusy \<equiv> ''busy''"
abbreviation StatusAway :: AgentStatus where "StatusAway \<equiv> ''away''"
abbreviation StatusDND :: AgentStatus where "StatusDND \<equiv> ''dnd''"

record PresenceInfo =
  pi_Status :: AgentStatus
  StatusText :: string
  LastActivity :: time
  IdleSince :: "time option"

definition NewPresenceInfo :: "time \<Rightarrow> PresenceInfo" where
  "NewPresenceInfo now = \<lparr>pi_Status = StatusOnline, StatusText = '''', LastActivity = now, IdleSince = None\<rparr>"

definition UpdateActivity :: "time \<Rightarrow> PresenceInfo \<Rightarrow> PresenceInfo" where
  "UpdateActivity now p =
     (let p1 = p\<lparr>LastActivity := now, IdleSince := None\<rparr>
      in if pi_Status p1 = StatusAway then p1\<lparr>pi_Status := StatusOnline\<rparr> else p1)"

definition SetIdle :: "time \<Rightarrow> PresenceInfo \<Rightarrow> PresenceInfo" where
  "SetIdle now p =
     (if pi_Status p = StatusOnline then p\<lparr>pi_Status := StatusAway, IdleSince := Some now\<rparr> else p)"

definition IsIdle :: "time \<Rightarrow> duration \<Rightarrow> PresenceInfo \<Rightarrow> bool" where
  "IsIdle now idleTimeout p \<longleftrightarrow> now - LastActivity p > idleTimeout"

record PresenceConfig =
  SharePresence :: bool
  ReceivePresence :: bool
  ShareTyping :: bool
  HideLastSeen :: bool
  AwayTimeoutSecs :: int

definition DefaultPresenceConfig :: PresenceConfig where
  "DefaultPresenceConfig = \<lparr>SharePresence = True, ReceivePresence = True, ShareTyping = True,
     HideLastSeen = False, AwayTimeoutSecs = 300\<rparr>"

type_synonym KeyType = string

abbreviation KeyTypeEd25519 :: KeyType where "KeyTypeEd25519 \<equiv> ''Ed25519''"
abbreviation KeyTypeX25519 :: KeyType where "KeyTypeX25519 \<equiv> ''X25519''"

record PublicKey =
  pk_ID :: string
  pk_Type :: KeyType
  pk_Key :: slice
  Purpose :: string

record Endpoint =
  Transport :: string
  URL :: string
  Priority :: int

record Capability =
  cap_Name :: string
  cap_Description :: string
  Methods :: "string list"
  Schema :: "(string, json) gomap"

record ACLRule =
  Principal :: string
  Actions :: "string list"
  Effect :: string
  Conditions :: "string list"

record ACLPolicy =
  DefaultAllow :: bool
  Rules :: "ACLRule list"

record Agent =
  agent_ID :: uuid
  DID :: did
  TenantID :: string
  DisplayName :: string
  PublicKeys :: "PublicKey list"
  Endpoints :: "Endpoint list"
  Capabilities :: "Capability list"
  ACL :: "ACLPolicy option"
  Status :: AgentStatus
  LastSeen :: time
  Metadata :: "(string, json) gomap"
  Presence :: "PresenceInfo option"
  PresenceCfg :: "PresenceConfig option"
  Role :: string
  DelegationNamespace :: string

definition NewAgent :: "uuid \<Rightarrow> time \<Rightarrow> did \<Rightarrow> string \<Rightarrow> Agent" where
  "NewAgent i now d displayName =
     \<lparr>agent_ID = i, DID = d, TenantID = '''', DisplayName = displayName, PublicKeys = [], Endpoints = [],
      Capabilities = [], ACL = None, Status = StatusOffline, LastSeen = now, Metadata = [],
      Presence = None, PresenceCfg = None, Role = '''', DelegationNamespace = ''''\<rparr>"

definition AddEndpoint :: "string \<Rightarrow> string \<Rightarrow> int \<Rightarrow> Agent \<Rightarrow> Agent" where
  "AddEndpoint tr url pr a =
     a\<lparr>Endpoints := Endpoints a @ [\<lparr>Transport = tr, URL = url, Priority = pr\<rparr>]\<rparr>"

definition AddCapability :: "string \<Rightarrow> string \<Rightarrow> string list \<Rightarrow> Agent \<Rightarrow> Agent" where
  "AddCapability n descr ms a =
     a\<lparr>Capabilities := Capabilities a @
        [\<lparr>cap_Name = n, cap_Description = descr, Methods = ms, Schema = []\<rparr>]\<rparr>"

definition AddPublicKey :: "string \<Rightarrow> KeyType \<Rightarrow> slice \<Rightarrow> string \<Rightarrow> Agent \<Rightarrow> Agent" where
  "AddPublicKey i ty k purp a =
     a\<lparr>PublicKeys := PublicKeys a @ [\<lparr>pk_ID = i, pk_Type = ty, pk_Key = k, Purpose = purp\<rparr>]\<rparr>"

definition SetOnline :: "time \<Rightarrow> Agent \<Rightarrow> Agent" where
  "SetOnline now a =
     a\<lparr>Status := StatusOnline, LastSeen := now,
       Presence := Some (case Presence a of
         None \<Rightarrow> NewPresenceInfo now
       | Some p \<Rightarrow> UpdateActivity now (p\<lparr>pi_Status := StatusOnline\<rparr>))\<rparr>"

definition SetOffline :: "time \<Rightarrow> Agent \<Rightarrow> Agent" where
  "SetOffline now a = a\<lparr>Status := StatusOffline, LastSeen := now,
     Presence := map_option (\<lambda>p. p\<lparr>pi_Status := StatusOffline\<rparr>) (Presence a)\<rparr>"

definition SetBusy :: "time \<Rightarrow> Agent \<Rightarrow> Agent" where
  "SetBusy now a = a\<lparr>Status := StatusBusy, LastSeen := now,
     Presence := map_option (\<lambda>p. p\<lparr>pi_Status := StatusBusy\<rparr>) (Presence a)\<rparr>"

definition SetAway :: "time \<Rightarrow> Agent \<Rightarrow> Agent" where
  "SetAway now a = a\<lparr>Status := StatusAway, LastSeen := now,
     Presence := map_option (SetIdle now) (Presence a)\<rparr>"

definition SetDND :: "time \<Rightarrow> Agent \<Rightarrow> Agent" where
  "SetDND now a = a\<lparr>Status := StatusDND, LastSeen := now,
     Presence := map_option (\<lambda>p. p\<lparr>pi_Status := StatusDND\<rparr>) (Presence a)\<rparr>"

definition UpdatePresence :: "time \<Rightarrow> AgentStatus \<Rightarrow> string \<Rightarrow> Agent \<Rightarrow> Agent" where
  "UpdatePresence now st txt a =
     (let p = (case Presence a of
         None \<Rightarrow> \<lparr>pi_Status = '''', StatusText = '''', LastActivity = 0, IdleSince = None\<rparr>
       | Some p \<Rightarrow> p)
      in a\<lparr>Status := st, LastSeen := now,
           Presence := Some (p\<lparr>pi_Status := st, StatusText := txt, LastActivity := now\<rparr>)\<rparr>)"

definition ShouldSharePresence :: "Agent \<Rightarrow> bool" where
  "ShouldSharePresence a = (case PresenceCfg a of None \<Rightarrow> True | Some c \<Rightarrow> SharePresence c)"

definition ShouldShareTyping :: "Agent \<Rightarrow> bool" where
  "ShouldShareTyping a = (case PresenceCfg a of None \<Rightarrow> True | Some c \<Rightarrow> ShareTyping c)"

definition HasCapability :: "string \<Rightarrow> Agent \<Rightarrow> bool" where
  "HasCapability n a \<longleftrightarrow> list_ex (\<lambda>c. cap_Name c = n) (Capabilities a)"

definition GetSigningKey :: "Agent \<Rightarrow> PublicKey option" where
  "GetSigningKey a = find (\<lambda>k. Purpose k = ''signing'') (PublicKeys a)"

definition GetEncryptionKey :: "Agent \<Rightarrow> PublicKey option" where
  "GetEncryptionKey a = find (\<lambda>k. Purpose k = ''encryption'') (PublicKeys a)"

section \<open>The in-memory store\<close>

datatype registry_error = ErrAgentNotFound | ErrAgentAlreadyExists | ErrFile | ErrJSON

record AgentStore =
  agents :: "(uuid, Agent) gomap"
  byDID :: "(did, uuid) gomap"

definition NewAgentStore :: AgentStore where
  "NewAgentStore = \<lparr>agents = [], byDID = []\<rparr>"

definition Get :: "uuid \<Rightarrow> AgentStore \<Rightarrow> registry_error + Agent" where
  "Get i s = (case map_of (agents s) i of None \<Rightarrow> Inl ErrAgentNotFound | Some a \<Rightarrow> Inr a)"

text \<open>\<open>GetByDID\<close> returns the pointer found under the indexed ID, nil when there is none.\<close>

definition GetByDID :: "did \<Rightarrow> AgentStore \<Rightarrow> registry_error + Agent option" where
  "GetByDID d s =
     (case map_of (byDID s) d of None \<Rightarrow> Inl ErrAgentNotFound | Some i \<Rightarrow> Inr (map_of (agents s) i))"

definition Put :: "Agent \<Rightarrow> AgentStore \<Rightarrow> AgentStore" where
  "Put a s =
     (let s1 = s\<lparr>agents := mput (agent_ID a) a (agents s)\<rparr>
      in if DID a \<noteq> '''' then s1\<lparr>byDID := mput (DID a) (agent_ID a) (byDID s1)\<rparr> else s1)"

definition Delete :: "uuid \<Rightarrow> AgentStore \<Rightarrow> registry_error + AgentStore" where
  "Delete i s =
     (case map_of (agents s) i of
        None \<Rightarrow> Inl ErrAgentNotFound
      | Some a \<Rightarrow>
          let s1 = (if DID a \<noteq> '''' then s\<lparr>byDID := mdel (DID a) (byDID s)\<rparr> else s)
          in Inr (s1\<lparr>agents := mdel i (agents s1)\<rparr>))"

type_synonym agent_order = "(uuid, Agent) gomap \<Rightarrow> (uuid, Agent) gomap"

definition List_agents :: "agent_order \<Rightarrow> AgentStore \<Rightarrow> Agent list" where
  "List_agents ord s = map snd (ord (agents s))"

definition Search :: "agent_order \<Rightarrow> string \<Rightarrow> AgentStore \<Rightarrow> Agent list" where
  "Search ord c s = filter (HasCapability c) (map snd (ord (agents s)))"

definition CountByTenant :: "agent_order \<Rightarrow> string \<Rightarrow> AgentStore \<Rightarrow> int" where
  "CountByTenant ord t s =
     (if t = '''' then int (length (agents s))
      else fold (\<lambda>(_, a) n. if TenantID a = t then n + 1 else n) (ord (agents s)) 0)"

section \<open>The file-backed store\<close>

text \<open>
  The file is its contents (\<open>None\<close> when it does not exist). The JSON codec is a pair of
  parameters and so is the outcome of \<open>os.WriteFile\<close>, which may leave any contents when it fails.
\<close>

datatype write_outcome = Written | WriteFailed "bytes option"

record FileStore =
  mem :: AgentStore
  contents :: "bytes option"

record agents_codec =
  encode_agents :: "Agent list \<Rightarrow> bytes option"
  decode_agents :: "bytes \<Rightarrow> Agent list option"

definition load :: "agents_codec \<Rightarrow> FileStore \<Rightarrow> registry_error + FileStore" where
  "load cd s =
     (case contents s of
        None \<Rightarrow> Inl ErrFile
      | Some data \<Rightarrow> (case decode_agents cd data of
          None \<Rightarrow> Inl ErrJSON
        | Some as \<Rightarrow> Inr (s\<lparr>mem := fold
            (\<lambda>a m. let m1 = m\<lparr>agents := mput (agent_ID a) a (agents m)\<rparr>
                   in if DID a \<noteq> '''' then m1\<lparr>byDID := mput (DID a) (agent_ID a) (byDID m1)\<rparr> else m1)
            as (mem s)\<rparr>)))"

definition NewFileStore :: "agents_codec \<Rightarrow> bytes option \<Rightarrow> registry_error + FileStore" where
  "NewFileStore cd c =
     (let fs = \<lparr>mem = NewAgentStore, contents = c\<rparr>
      in if c \<noteq> None then load cd fs else Inr fs)"

definition save :: "agents_codec \<Rightarrow> agent_order \<Rightarrow> write_outcome \<Rightarrow> FileStore \<Rightarrow> registry_error option \<times> FileStore" where
  "save cd ord w s =
     (case encode_agents cd (List_agents ord (mem s)) of
        None \<Rightarrow> (Some ErrJSON, s)
      | Some data \<Rightarrow> (case w of
          Written \<Rightarrow> (None, s\<lparr>contents := Some data\<rparr>)
        | WriteFailed c \<Rightarrow> (Some ErrFile, s\<lparr>contents := c\<rparr>)))"

definition FilePut ::
  "agents_codec \<Rightarrow> agent_order \<Rightarrow> write_outcome \<Rightarrow> Agent \<Rightarrow> FileStore \<Rightarrow> registry_error option \<times> FileStore" where
  "FilePut cd ord w a s = save cd ord w (s\<lparr>mem := Put a (mem s)\<rparr>)"

definition FileDelete ::
  "agents_codec \<Rightarrow> agent_order \<Rightarrow> write_outcome \<Rightarrow> uuid \<Rightarrow> FileStore \<Rightarrow> registry_error option \<times> FileStore" where
  "FileDelete cd ord w i s =
     (case Delete i (mem s) of
        Inl e \<Rightarrow> (Some e, s)
      | Inr m \<Rightarrow> save cd ord w (s\<lparr>mem := m\<rparr>))"

section \<open>Discovery\<close>

abbreviation DiscoveryAnnounce :: string where "DiscoveryAnnounce \<equiv> ''announce''"
abbreviation DiscoveryQuery :: string where "DiscoveryQuery \<equiv> ''query''"
abbreviation DiscoveryResponse :: string where "DiscoveryResponse \<equiv> ''response''"
abbreviation DiscoveryLeave :: string where "DiscoveryLeave \<equiv> ''leave''"

record DiscoveryMessage =
  dm_Type :: string
  dm_AgentID :: uuid
  dm_DID :: did
  dm_Capability :: string
  dm_Agent :: "Agent option"
  dm_Timestamp :: time

text \<open>A handler answers with an error or nil. The service here uses an in-memory store.\<close>

record 'e Discovery =
  ds_store :: AgentStore
  localAgent :: Agent
  handlers :: "(DiscoveryMessage \<Rightarrow> 'e option) list"

datatype 'e discovery_error = DiscoveryJSON | UnknownDiscoveryType | HandlerError 'e

definition NewDiscovery :: "AgentStore \<Rightarrow> Agent \<Rightarrow> 'e Discovery" where
  "NewDiscovery st a = \<lparr>ds_store = st, localAgent = a, handlers = []\<rparr>"

definition OnMessage :: "(DiscoveryMessage \<Rightarrow> 'e option) \<Rightarrow> 'e Discovery \<Rightarrow> 'e Discovery" where
  "OnMessage h d = d\<lparr>handlers := handlers d @ [h]\<rparr>"

definition Announce :: "time \<Rightarrow> 'e Discovery \<Rightarrow> DiscoveryMessage" where
  "Announce now d = \<lparr>dm_Type = DiscoveryAnnounce, dm_AgentID = agent_ID (localAgent d),
     dm_DID = DID (localAgent d), dm_Capability = '''', dm_Agent = Some (localAgent d), dm_Timestamp = now\<rparr>"

definition Leave :: "time \<Rightarrow> 'e Discovery \<Rightarrow> DiscoveryMessage" where
  "Leave now d = \<lparr>dm_Type = DiscoveryLeave, dm_AgentID = agent_ID (localAgent d),
     dm_DID = DID (localAgent d), dm_Capability = '''', dm_Agent = None, dm_Timestamp = now\<rparr>"

definition Query :: "time \<Rightarrow> string \<Rightarrow> 'e Discovery \<Rightarrow> DiscoveryMessage" where
  "Query now c d = \<lparr>dm_Type = DiscoveryQuery, dm_AgentID = agent_ID (localAgent d),
     dm_DID = '''', dm_Capability = c, dm_Agent = None, dm_Timestamp = now\<rparr>"

definition handleAnnounce :: "time \<Rightarrow> DiscoveryMessage \<Rightarrow> 'e Discovery \<Rightarrow> 'e Discovery" where
  "handleAnnounce now m d =
     (case dm_Agent m of
        None \<Rightarrow> d
      | Some a \<Rightarrow>
          if dm_AgentID m = agent_ID (localAgent d) then d
          else d\<lparr>ds_store := Put (SetOnline now a) (ds_store d)\<rparr>)"

text \<open>The handlers are notified in order until one fails.\<close>

fun notify_handlers :: "(DiscoveryMessage \<Rightarrow> 'e option) list \<Rightarrow> DiscoveryMessage \<Rightarrow> 'e option" where
  "notify_handlers [] m = None"
| "notify_handlers (h # hs) m = (case h m of Some e \<Rightarrow> Some e | None \<Rightarrow> notify_handlers hs m)"

definition handleQuery :: "time \<Rightarrow> DiscoveryMessage \<Rightarrow> 'e Discovery \<Rightarrow> 'e option" where
  "handleQuery now m d =
     (if dm_Capability m \<noteq> '''' \<and> \<not> HasCapability (dm_Capability m) (localAgent d) then None
      else notify_handlers (handlers d)
        \<lparr>dm_Type = DiscoveryResponse, dm_AgentID = agent_ID (localAgent d), dm_DID = DID (localAgent d),
         dm_Capability = '''', dm_Agent = Some (localAgent d), dm_Timestamp = now\<rparr>)"

definition handleResponse :: "time \<Rightarrow> DiscoveryMessage \<Rightarrow> 'e Discovery \<Rightarrow> 'e Discovery" where
  "handleResponse now m d =
     (case dm_Agent m of
        None \<Rightarrow> d
      | Some a \<Rightarrow> d\<lparr>ds_store := Put (SetOnline now a) (ds_store d)\<rparr>)"

definition handleLeave :: "time \<Rightarrow> DiscoveryMessage \<Rightarrow> 'e Discovery \<Rightarrow> 'e Discovery" where
  "handleLeave now m d =
     (case Get (dm_AgentID m) (ds_store d) of
        Inl _ \<Rightarrow> d
      | Inr a \<Rightarrow> d\<lparr>ds_store := Put (SetOffline now a) (ds_store d)\<rparr>)"

definition HandleMessage ::
  "(bytes \<Rightarrow> DiscoveryMessage option) \<Rightarrow> time \<Rightarrow> bytes \<Rightarrow> 'e Discovery
   \<Rightarrow> 'e discovery_error option \<times> 'e Discovery" where
  "HandleMessage unmarshal now data d =
     (case unmarshal data of
        None \<Rightarrow> (Some DiscoveryJSON, d)
      | Some m \<Rightarrow>
          if dm_Type m = DiscoveryAnnounce then (None, handleAnnounce now m d)
          else if dm_Type m = DiscoveryQuery then (map_option HandlerError (handleQuery now m d), d)
          else if dm_Type m = DiscoveryResponse then (None, handleResponse now m d)
          else if dm_Type m = DiscoveryLeave then (None, handleLeave now m d)
          else (Some UnknownDiscoveryType, d))"

definition FindByCapability :: "agent_order \<Rightarrow> string \<Rightarrow> 'e Discovery \<Rightarrow> Agent list" where
  "FindByCapability ord c d = Search ord c (ds_store d)"

definition FindByDID :: "did \<Rightarrow> 'e Discovery \<Rightarrow> registry_error + Agent option" where
  "FindByDID x d = GetByDID x (ds_store d)"

definition GetOnlineAgents :: "agent_order \<Rightarrow> 'e Discovery \<Rightarrow> Agent list" where
  "GetOnlineAgents ord d = filter (\<lambda>a. Status a = StatusOnline) (List_agents ord (ds_store d))"

record PeerKey =
  pr_ID :: string
  pr_Type :: string
  pr_Key :: string
  pr_Purpose :: string

text \<open>\<open>AddPeer\<close> skips the keys whose base64 text does not decode.\<close>

definition add_peer_key :: "(string \<Rightarrow> bytes option) \<Rightarrow> PeerKey \<Rightarrow> Agent \<Rightarrow> Agent" where
  "add_peer_key decodeKey k a =
     (let keyType = (if pr_Type k = ''X25519'' then KeyTypeX25519 else KeyTypeEd25519)
      in case decodeKey (pr_Key k) of
           None \<Rightarrow> a
         | Some b \<Rightarrow> AddPublicKey (pr_ID k) keyType (Some b) (pr_Purpose k) a)"

definition AddPeer ::
  "(string \<Rightarrow> bytes option) \<Rightarrow> uuid \<Rightarrow> time \<Rightarrow> did \<Rightarrow> string \<Rightarrow> PeerKey list \<Rightarrow> 'e Discovery \<Rightarrow> 'e Discovery" where
  "AddPeer decodeKey i now d displayName keys ds =
     ds\<lparr>ds_store := Put (fold (add_peer_key decodeKey) keys (SetOnline now (NewAgent i now d displayName)))
        (ds_store ds)\<rparr>"

section \<open>Consistency of the two indexes\<close>

text \<open>
  A store is consistent when every agent is filed under its own ID, every non-empty DID is
  indexed to its agent, and every index entry leads to an agent with that DID.
\<close>

abbreviation index_ok :: "(uuid \<rightharpoonup> Agent) \<Rightarrow> (did \<rightharpoonup> uuid) \<Rightarrow> bool" where
  "index_ok \<equiv> secondary_index agent_ID DID (\<lambda>d. d \<noteq> '''')"

definition store_ok :: "AgentStore \<Rightarrow> bool" where
  "store_ok s \<longleftrightarrow> distinct (mkeys (agents s)) \<and> distinct (mkeys (byDID s))
     \<and> index_ok (map_of (agents s)) (map_of (byDID s))"

text \<open>A registration that does not move an ID to another DID nor a DID to another ID.\<close>

definition same_identity :: "Agent \<Rightarrow> AgentStore \<Rightarrow> bool" where
  "same_identity a s \<longleftrightarrow>
     (case map_of (agents s) (agent_ID a) of None \<Rightarrow> True | Some b \<Rightarrow> DID b = DID a)
     \<and> (case map_of (byDID s) (DID a) of None \<Rightarrow> True | Some i \<Rightarrow> i = agent_ID a)"

lemma store_ok_New [simp]: "store_ok NewAgentStore"
  by (simp add: store_ok_def NewAgentStore_def)

lemmas index_okD = secondary_indexD [where key = agent_ID and nm = DID and indexed = "\<lambda>d. d \<noteq> ''''"]

lemma Put_lookup:
  "map_of (agents (Put a s)) = (map_of (agents s))(agent_ID a \<mapsto> a)"
  "map_of (byDID (Put a s)) =
     (if DID a \<noteq> '''' then (map_of (byDID s))(DID a \<mapsto> agent_ID a) else map_of (byDID s))"
  by (simp_all add: Put_def Let_def map_of_simps)

lemma Put_distinct:
  "distinct (mkeys (agents s)) \<Longrightarrow> distinct (mkeys (agents (Put a s)))"
  "distinct (mkeys (byDID s)) \<Longrightarrow> distinct (mkeys (byDID (Put a s)))"
  by (simp_all add: Put_def Let_def distinct_update)

lemma store_ok_Put:
  assumes "store_ok s" and "same_identity a s"
  shows "store_ok (Put a s)"
proof -
  have "\<forall>b. map_of (agents s) (agent_ID a) = Some b \<longrightarrow> DID b = DID a"
    "\<forall>i. map_of (byDID s) (DID a) = Some i \<longrightarrow> i = agent_ID a"
    using assms(2) by (auto simp only: same_identity_def option.case)
  with assms(1) show ?thesis
    unfolding store_ok_def Put_lookup by (intro conjI Put_distinct secondary_index_put) simp_all
qed

lemma Delete_lookup:
  assumes "Delete i s = Inr s'"
  obtains a where "map_of (agents s) i = Some a" "map_of (agents s') = (map_of (agents s))(i := None)"
    "map_of (byDID s') = (if DID a \<noteq> '''' then (map_of (byDID s))(DID a := None) else map_of (byDID s))"
  using assms by (auto simp: Delete_def Let_def map_of_simps split: option.splits)

lemma store_ok_Delete:
  assumes "store_ok s" and "Delete i s = Inr s'"
  shows "store_ok s'"
proof -
  obtain a where a: "map_of (agents s) i = Some a" "map_of (agents s') = (map_of (agents s))(i := None)"
    "map_of (byDID s') = (if DID a \<noteq> '''' then (map_of (byDID s))(DID a := None) else map_of (byDID s))"
    using assms(2) by (rule Delete_lookup)
  have "distinct (mkeys (agents s')) \<and> distinct (mkeys (byDID s'))"
    using assms by (auto simp: Delete_def store_ok_def Let_def distinct_delete split: option.splits)
  with secondary_index_delete [where m = "map_of (agents s)" and k = i and v = a] a(1) assms(1) show ?thesis
    unfolding store_ok_def a(2,3) by blast
qed

section \<open>The store contract\<close>

datatype directory_op = PutAgent Agent | DeleteAgent uuid

fun touches :: "uuid \<Rightarrow> directory_op \<Rightarrow> bool" where
  "touches i (PutAgent b) \<longleftrightarrow> agent_ID b = i"
| "touches i (DeleteAgent j) \<longleftrightarrow> i = j"

text \<open>A run all of whose operations are admissible where they are executed.\<close>

fun admissible_run :: "('c \<Rightarrow> 's \<Rightarrow> 's) \<Rightarrow> ('c \<Rightarrow> 's \<Rightarrow> bool) \<Rightarrow> 'c list \<Rightarrow> 's \<Rightarrow> bool" where
  "admissible_run exec adm [] s \<longleftrightarrow> True"
| "admissible_run exec adm (c # cs) s \<longleftrightarrow> adm c s \<and> admissible_run exec adm cs (exec c s)"

lemma admissible_run_append:
  "admissible_run exec adm (cs @ ds) s \<longleftrightarrow>
     admissible_run exec adm cs s \<and> admissible_run exec adm ds (fold exec cs s)"
  by (induction cs arbitrary: s) auto

text \<open>
  What clients of \<open>registry.Store\<close> rely on: \<open>view\<close> is the directory the store represents, and
  within the invariant a lookup by DID finds exactly the stored agent with that DID. An
  operation is admissible when it respects the identities already stored.
\<close>

locale agent_directory =
  fixes exec :: "directory_op \<Rightarrow> 's \<Rightarrow> 's" and view :: "'s \<Rightarrow> uuid \<rightharpoonup> Agent"
    and by_did :: "did \<Rightarrow> 's \<Rightarrow> registry_error + Agent option"
    and inv :: "'s \<Rightarrow> bool" and admissible :: "directory_op \<Rightarrow> 's \<Rightarrow> bool"
  assumes exec_inv: "inv s \<Longrightarrow> admissible c s \<Longrightarrow> inv (exec c s)"
    and exec_put: "view (exec (PutAgent a) s) = (view s)(agent_ID a \<mapsto> a)"
    and exec_delete: "view (exec (DeleteAgent i) s) = (view s)(i := None)"
    and by_did_complete: "inv s \<Longrightarrow> view s i = Some a \<Longrightarrow> DID a \<noteq> '''' \<Longrightarrow> by_did (DID a) s = Inr (Some a)"
    and by_did_sound: "inv s \<Longrightarrow> by_did d s = Inr r \<Longrightarrow> \<exists>a. r = Some a \<and> DID a = d \<and> view s (agent_ID a) = Some a"
begin

lemma run_inv: "inv s \<Longrightarrow> admissible_run exec admissible cs s \<Longrightarrow> inv (fold exec cs s)"
  by (induction cs arbitrary: s) (auto intro: exec_inv)

text \<open>After a put, the agent is found under its DID until another operation touches its ID.\<close>

lemma view_untouched:
  assumes "\<forall>c \<in> set cs. \<not> touches i c"
  shows "view (fold exec cs s) i = view s i"
  using assms
proof (induction cs arbitrary: s)
  case (Cons c cs)
  then show ?case by (cases c) (auto simp: exec_put exec_delete)
qed simp

lemma found_after_put:
  assumes "inv s" and "admissible (PutAgent a) s" and "admissible_run exec admissible cs (exec (PutAgent a) s)"
    and "\<forall>c \<in> set cs. \<not> touches (agent_ID a) c" and "DID a \<noteq> ''''"
  shows "by_did (DID a) (fold exec (PutAgent a # cs) s) = Inr (Some a)"
proof -
  have "view (fold exec cs (exec (PutAgent a) s)) (agent_ID a) = Some a"
    using view_untouched [OF assms(4)] by (simp add: exec_put)
  then show ?thesis
    using by_did_complete run_inv exec_inv assms by simp
qed

lemma gone_after_delete:
  assumes "inv s" and "admissible (DeleteAgent i) s" and "view s i = Some a" and "DID a \<noteq> ''''"
  shows "\<nexists>b. by_did (DID a) (exec (DeleteAgent i) s) = Inr (Some b) \<and> agent_ID b = i"
  using by_did_sound [OF exec_inv [OF assms(1,2)], of "DID a"]
  by (auto simp: exec_delete)

end

fun store_exec :: "directory_op \<Rightarrow> AgentStore \<Rightarrow> AgentStore" where
  "store_exec (PutAgent a) s = Put a s"
| "store_exec (DeleteAgent i) s = (case Delete i s of Inl _ \<Rightarrow> s | Inr s' \<Rightarrow> s')"

fun store_admissible :: "directory_op \<Rightarrow> AgentStore \<Rightarrow> bool" where
  "store_admissible (PutAgent a) s = same_identity a s"
| "store_admissible (DeleteAgent i) s = True"

lemma store_exec_ok: "store_ok s \<Longrightarrow> store_admissible c s \<Longrightarrow> store_ok (store_exec c s)"
  by (cases c) (auto intro: store_ok_Put store_ok_Delete split: sum.splits)

lemma store_exec_view:
  "map_of (agents (store_exec (PutAgent a) s)) = (map_of (agents s))(agent_ID a \<mapsto> a)"
  "map_of (agents (store_exec (DeleteAgent i) s)) = (map_of (agents s))(i := None)"
  by (auto simp: Put_lookup Delete_def map_of_simps Let_def fun_upd_idem split: sum.splits option.splits)

lemma GetByDID_complete:
  assumes "store_ok s" and "map_of (agents s) i = Some a" and "DID a \<noteq> ''''"
  shows "GetByDID (DID a) s = Inr (Some a)"
proof -
  have "index_ok (map_of (agents s)) (map_of (byDID s))" using assms(1) by (simp add: store_ok_def)
  from index_okD(2) [OF this assms(2,3)] assms(2) show ?thesis by (simp add: GetByDID_def)
qed

lemma GetByDID_sound:
  assumes "store_ok s" and "GetByDID d s = Inr r"
  shows "\<exists>a. r = Some a \<and> DID a = d \<and> map_of (agents s) (agent_ID a) = Some a"
proof -
  have ok: "index_ok (map_of (agents s)) (map_of (byDID s))" using assms(1) by (simp add: store_ok_def)
  obtain i where i: "map_of (byDID s) d = Some i" "r = map_of (agents s) i"
    using assms(2) by (auto simp: GetByDID_def split: option.splits)
  from index_okD(3) [OF ok i(1)] obtain a where a: "map_of (agents s) i = Some a" "DID a = d" by blast
  from index_okD(1) [OF ok a(1)] a i(2) show ?thesis by auto
qed

interpretation regstore: agent_directory store_exec "\<lambda>s. map_of (agents s)" GetByDID store_ok store_admissible
proof
  show "store_ok s \<Longrightarrow> store_admissible c s \<Longrightarrow> store_ok (store_exec c s)" for s c
    by (rule store_exec_ok)
  show "store_ok s \<Longrightarrow> map_of (agents s) i = Some a \<Longrightarrow> DID a \<noteq> '''' \<Longrightarrow> GetByDID (DID a) s = Inr (Some a)"
    for s i a by (rule GetByDID_complete)
  show "store_ok s \<Longrightarrow> GetByDID d s = Inr r \<Longrightarrow> \<exists>a. r = Some a \<and> DID a = d \<and> map_of (agents s) (agent_ID a) = Some a"
    for s d r by (rule GetByDID_sound)
qed (simp_all only: store_exec_view)

fun file_exec :: "agents_codec \<Rightarrow> agent_order \<Rightarrow> write_outcome \<Rightarrow> directory_op \<Rightarrow> FileStore \<Rightarrow> FileStore" where
  "file_exec cd ord w (PutAgent a) s = snd (FilePut cd ord w a s)"
| "file_exec cd ord w (DeleteAgent i) s = snd (FileDelete cd ord w i s)"

lemma mem_save [simp]: "mem (snd (save cd ord w s)) = mem s"
  by (auto simp: save_def split: option.splits write_outcome.splits)

lemma mem_file_exec: "mem (file_exec cd ord w c s) = store_exec c (mem s)"
  by (cases c) (auto simp: FilePut_def FileDelete_def split: sum.splits)

interpretation filestore: agent_directory "file_exec cd ord w" "\<lambda>s. map_of (agents (mem s))"
    "\<lambda>d s. GetByDID d (mem s)" "\<lambda>s. store_ok (mem s)" "\<lambda>c s. store_admissible c (mem s)"
  for cd ord w
proof
  show "store_ok (mem s) \<Longrightarrow> store_admissible c (mem s) \<Longrightarrow> store_ok (mem (file_exec cd ord w c s))" for s c
    by (simp add: mem_file_exec store_exec_ok)
  show "store_ok (mem s) \<Longrightarrow> map_of (agents (mem s)) i = Some a \<Longrightarrow> DID a \<noteq> '''' \<Longrightarrow>
      GetByDID (DID a) (mem s) = Inr (Some a)" for s i a by (rule GetByDID_complete)
  show "store_ok (mem s) \<Longrightarrow> GetByDID d (mem s) = Inr r \<Longrightarrow>
      \<exists>a. r = Some a \<and> DID a = d \<and> map_of (agents (mem s)) (agent_ID a) = Some a"
    for s d r by (rule GetByDID_sound)
qed (simp_all only: mem_file_exec store_exec_view)

section \<open>Properties of the stores\<close>

definition sample_agent :: "uuid \<Rightarrow> did \<Rightarrow> Agent" where
  "sample_agent i d = NewAgent i 0 d ''agent''"

text \<open>
  Property C18. The registry is a directory. After any history of puts and deletes in which no
  ID moves to another DID and no DID to another ID, an agent that was put is found under its
  DID and its ID until its ID is put or deleted again; a lookup by DID never returns an agent
  with another DID and never the nil agent without an error.
\<close>

theorem registry_directory:
  assumes run: "admissible_run store_exec store_admissible (pre @ PutAgent a # post) NewAgentStore"
    and post: "\<forall>c \<in> set post. \<not> touches (agent_ID a) c" and did: "DID a \<noteq> ''''"
    and s: "s = fold store_exec (pre @ PutAgent a # post) NewAgentStore"
  shows "GetByDID (DID a) s = Inr (Some a) \<and> Get (agent_ID a) s = Inr a
    \<and> (\<forall>d r. GetByDID d s = Inr r \<longrightarrow> (\<exists>b. r = Some b \<and> DID b = d))"
proof -
  let ?s1 = "fold store_exec pre NewAgentStore"
  have pre: "admissible_run store_exec store_admissible pre NewAgentStore"
    and adm: "store_admissible (PutAgent a) ?s1"
    and rest: "admissible_run store_exec store_admissible post (store_exec (PutAgent a) ?s1)"
    using run by (simp_all add: admissible_run_append)
  have ok1: "store_ok ?s1"
    using regstore.run_inv [OF store_ok_New pre] .
  have found: "GetByDID (DID a) s = Inr (Some a)"
    using regstore.found_after_put [OF ok1 adm rest post did] s by simp
  have ok: "store_ok s"
    using regstore.run_inv [OF store_ok_New run] s by simp
  have "map_of (agents s) (agent_ID a) = Some a"
    using GetByDID_sound [OF ok found] by simp
  with found GetByDID_sound [OF ok] show ?thesis
    by (auto simp: Get_def)
qed

theorem registry_directory_witness:
  "GetByDID ''did:b'' (fold store_exec ([PutAgent (sample_agent 1 ''did:a'')] @ PutAgent (sample_agent 2 ''did:b'')
      # [DeleteAgent 1]) NewAgentStore) = Inr (Some (sample_agent 2 ''did:b''))
   \<and> GetByDID ''did:a'' (fold store_exec ([PutAgent (sample_agent 1 ''did:a'')] @ PutAgent (sample_agent 2 ''did:b'')
      # [DeleteAgent 1]) NewAgentStore) = Inl ErrAgentNotFound"
proof -
  have fields: "agent_ID (sample_agent i d) = i" "DID (sample_agent i d) = d" for i d
    by (simp_all add: sample_agent_def NewAgent_def)
  have run: "admissible_run store_exec store_admissible
      ([PutAgent (sample_agent 1 ''did:a'')] @ PutAgent (sample_agent 2 ''did:b'') # [DeleteAgent 1]) NewAgentStore"
    by (simp add: fields same_identity_def NewAgentStore_def Put_def Let_def)
  have gone: "GetByDID ''did:a'' (fold store_exec ([PutAgent (sample_agent 1 ''did:a'')]
      @ PutAgent (sample_agent 2 ''did:b'') # [DeleteAgent 1]) NewAgentStore) = Inl ErrAgentNotFound"
    by (simp add: fields NewAgentStore_def Put_def Let_def Delete_def GetByDID_def)
  show ?thesis
    using registry_directory [OF run _ _ refl] gone by (simp add: fields)
qed

text \<open>
  An agent ID is trusted as given. When an agent with a non-empty DID is put under
  the ID of an agent with another DID, a lookup of the other DID returns the new agent; and
  when that ID is deleted the lookup of the other DID returns the nil agent without an error.
\<close>

theorem Put_takes_over_DID:
  assumes "store_ok s" and "map_of (agents s) (agent_ID a) = Some b" and "DID b \<noteq> DID a"
    and "DID a \<noteq> ''''" and "DID b \<noteq> ''''"
  shows "GetByDID (DID b) (Put a s) = Inr (Some a)
    \<and> (\<exists>s'. Delete (agent_ID a) (Put a s) = Inr s' \<and> GetByDID (DID b) s' = Inr None)"
proof -
  have "index_ok (map_of (agents s)) (map_of (byDID s))" using assms(1) by (simp add: store_ok_def)
  from index_okD(2) [OF this assms(2,5)] have ix: "map_of (byDID s) (DID b) = Some (agent_ID a)" .
  then have "GetByDID (DID b) (Put a s) = Inr (Some a)"
    using assms by (simp add: GetByDID_def Put_lookup)
  moreover obtain s' where del: "Delete (agent_ID a) (Put a s) = Inr s'"
    by (simp add: Delete_def Put_lookup Let_def)
  moreover from del have "map_of (agents s') (agent_ID a) = None" "map_of (byDID s') (DID b) = Some (agent_ID a)"
    using ix assms by (auto simp: Delete_def Put_lookup Let_def map_of_simps)
  ultimately show ?thesis by (auto simp: GetByDID_def)
qed

theorem Put_takes_over_DID_witness:
  "GetByDID ''did:victim'' (Put (sample_agent 7 ''did:other'') (Put (sample_agent 7 ''did:victim'') NewAgentStore))
   = Inr (Some (sample_agent 7 ''did:other''))"
proof -
  have fields: "agent_ID (sample_agent i d) = i" "DID (sample_agent i d) = d" for i d
    by (simp_all add: sample_agent_def NewAgent_def)
  have "store_ok (Put (sample_agent 7 ''did:victim'') NewAgentStore)"
    by (rule store_ok_Put [OF store_ok_New]) (simp add: same_identity_def NewAgentStore_def fields)
  then show ?thesis
    using Put_takes_over_DID [of "Put (sample_agent 7 ''did:victim'') NewAgentStore"
        "sample_agent 7 ''did:other''" "sample_agent 7 ''did:victim''"]
    by (simp add: fields Put_lookup)
qed

section \<open>Reloading the file\<close>

lemma load_body: "(\<lambda>a m. let m1 = m\<lparr>agents := mput (agent_ID a) a (agents m)\<rparr>
    in if DID a \<noteq> '''' then m1\<lparr>byDID := mput (DID a) (agent_ID a) (byDID m1)\<rparr> else m1) = Put"
  by (simp add: fun_eq_iff Put_def)

lemma load_alt:
  "load cd s = (case contents s of
      None \<Rightarrow> Inl ErrFile
    | Some data \<Rightarrow> (case decode_agents cd data of
        None \<Rightarrow> Inl ErrJSON
      | Some as \<Rightarrow> Inr (s\<lparr>mem := fold Put as (mem s)\<rparr>)))"
  unfolding load_def load_body ..

text \<open>Putting back, one by one, agents of a consistent directory never breaks an identity.\<close>

lemma same_identity_sub:
  assumes "index_ok ag ix" and "ag (agent_ID a) = Some a" and "store_ok t" and "map_of (agents t) \<subseteq>\<^sub>m ag"
  shows "same_identity a t"
proof -
  have ok: "index_ok (map_of (agents t)) (map_of (byDID t))" using assms(3) by (simp add: store_ok_def)
  have sub: "map_of (agents t) i = Some b \<Longrightarrow> ag i = Some b" for i b
    using assms(4) by (metis domI map_le_def)
  have "b = a" if "map_of (agents t) (agent_ID a) = Some b" for b
    using sub [OF that] assms(2) by simp
  moreover have "i = agent_ID a" if i: "map_of (byDID t) (DID a) = Some i" for i
  proof -
    obtain b where b: "map_of (agents t) i = Some b" "DID b = DID a"
      using index_okD(3) [OF ok i] by blast
    have "ix (DID a) = Some i" "ix (DID a) = Some (agent_ID a)"
      using index_okD(2) [OF assms(1) sub [OF b(1)]] b(2) index_okD(4) [OF ok i]
        index_okD(2) [OF assms(1,2)] by simp_all
    then show ?thesis by simp
  qed
  ultimately show ?thesis by (auto simp: same_identity_def split: option.splits)
qed

lemma restore_agents:
  assumes "index_ok ag ix" and "\<forall>a \<in> set as. ag (agent_ID a) = Some a" and "store_ok t"
    and "map_of (agents t) \<subseteq>\<^sub>m ag"
  shows "store_ok (fold Put as t) \<and> map_of (agents (fold Put as t)) \<subseteq>\<^sub>m ag
    \<and> dom (map_of (agents (fold Put as t))) = dom (map_of (agents t)) \<union> agent_ID ` set as"
  using assms(2-)
proof (induction as arbitrary: t)
  case (Cons a as)
  have "store_ok (Put a t)"
    using store_ok_Put same_identity_sub [OF assms(1)] Cons.prems by simp
  moreover have "map_of (agents (Put a t)) \<subseteq>\<^sub>m ag"
    using Cons.prems by (auto simp: Put_lookup map_le_def)
  moreover have "dom (map_of (agents (Put a t))) = insert (agent_ID a) (dom (map_of (agents t)))"
    by (simp add: Put_lookup)
  ultimately show ?case
    using Cons.IH [of "Put a t"] Cons.prems(1) by simp
qed simp

lemma map_le_same_dom: "f \<subseteq>\<^sub>m g \<Longrightarrow> dom f = dom g \<Longrightarrow> f = g"
  by (metis map_le_antisym map_le_def)

lemma List_agents_ids:
  assumes "store_ok s" and "range_order ord"
  shows "\<forall>a \<in> set (List_agents ord s). map_of (agents s) (agent_ID a) = Some a"
    and "agent_ID ` set (List_agents ord s) = dom (map_of (agents s))"
proof -
  have ok: "index_ok (map_of (agents s)) (map_of (byDID s))" and d: "distinct (mkeys (agents s))"
    using assms(1) by (simp_all add: store_ok_def)
  have mem: "a \<in> set (List_agents ord s) \<longleftrightarrow> (\<exists>i. map_of (agents s) i = Some a)" for a
    unfolding List_agents_def set_map range_order_set [OF assms(2)] map_of_eq_Some_iff [OF d]
    by (force simp: image_iff)
  show first: "\<forall>a \<in> set (List_agents ord s). map_of (agents s) (agent_ID a) = Some a"
  proof
    fix a assume "a \<in> set (List_agents ord s)"
    then obtain i where "map_of (agents s) i = Some a" unfolding mem by blast
    with index_okD(1) [OF ok this] show "map_of (agents s) (agent_ID a) = Some a" by simp
  qed
  show "agent_ID ` set (List_agents ord s) = dom (map_of (agents s))"
  proof (intro equalityI subsetI)
    fix i assume "i \<in> dom (map_of (agents s))"
    then obtain a where a: "map_of (agents s) i = Some a" by blast
    then have "a \<in> set (List_agents ord s)" unfolding mem by blast
    with index_okD(1) [OF ok a] show "i \<in> agent_ID ` set (List_agents ord s)" by blast
  qed (use first in blast)
qed

definition codec_ok :: "agents_codec \<Rightarrow> bool" where
  "codec_ok cd \<longleftrightarrow> (\<forall>as data. encode_agents cd as = Some data \<longrightarrow> decode_agents cd data = Some as)"

lemma load_saved:
  assumes "store_ok (mem s)" and "codec_ok cd" and "range_order ord" and "save cd ord Written s = (None, s')"
  shows "\<exists>r. NewFileStore cd (contents s') = Inr r \<and> store_ok (mem r)
    \<and> map_of (agents (mem r)) = map_of (agents (mem s)) \<and> map_of (byDID (mem r)) = map_of (byDID (mem s))"
proof -
  let ?as = "List_agents ord (mem s)" and ?r = "fold Put (List_agents ord (mem s)) NewAgentStore"
  have ok: "index_ok (map_of (agents (mem s))) (map_of (byDID (mem s)))"
    using assms(1) by (simp add: store_ok_def)
  have new: "map_of (agents NewAgentStore) = Map.empty" by (simp add: NewAgentStore_def)
  note ids = List_agents_ids [OF assms(1,3)]
  have res: "store_ok ?r \<and> map_of (agents ?r) \<subseteq>\<^sub>m map_of (agents (mem s))
      \<and> dom (map_of (agents ?r)) = dom (map_of (agents (mem s)))"
    using restore_agents [OF ok ids(1) store_ok_New] new ids(2) by simp
  then have ag: "map_of (agents ?r) = map_of (agents (mem s))"
    by (blast intro: map_le_same_dom)
  have "map_of (byDID ?r) = map_of (byDID (mem s))"
    using secondary_index_unique [OF _ ok] res ag by (simp add: store_ok_def)
  moreover have "NewFileStore cd (contents s') = Inr \<lparr>mem = ?r, contents = contents s'\<rparr>"
    using assms(2,4)
    by (auto simp: save_def NewFileStore_def load_alt codec_ok_def Let_def
        split: option.splits)
  ultimately show ?thesis using res ag by simp
qed

text \<open>
  Property C27. The file-backed registry survives a restart. When a put, or a delete, on a
  consistent file store reports success, a store opened on the resulting file gives the same
  answer to every lookup by ID and by DID as the store that wrote it. The JSON codec is any
  pair of functions that decodes what it has encoded.
\<close>

theorem FileStore_restart:
  assumes "store_ok (mem s)" and "same_identity a (mem s)" and "codec_ok cd" and "range_order ord"
    and "FilePut cd ord w a s = (None, s1) \<or> FileDelete cd ord w i s = (None, s1)"
  shows "\<exists>r. NewFileStore cd (contents s1) = Inr r
    \<and> (\<forall>j. Get j (mem r) = Get j (mem s1)) \<and> (\<forall>d. GetByDID d (mem r) = GetByDID d (mem s1))"
proof -
  obtain t where t: "store_ok (mem t)" "save cd ord w t = (None, s1)"
  proof (cases "FilePut cd ord w a s = (None, s1)")
    case True
    with that [of "s\<lparr>mem := Put a (mem s)\<rparr>"] store_ok_Put [OF assms(1,2)] show ?thesis
      by (simp add: FilePut_def)
  next
    case False
    then obtain m where "Delete i (mem s) = Inr m" "save cd ord w (s\<lparr>mem := m\<rparr>) = (None, s1)"
      using assms(5) by (auto simp: FileDelete_def split: sum.splits)
    with that [of "s\<lparr>mem := m\<rparr>"] store_ok_Delete [OF assms(1)] show ?thesis by simp
  qed
  moreover from t have w: "w = Written"
    by (auto simp: save_def split: option.splits write_outcome.splits)
  moreover have "mem s1 = mem t"
    using mem_save [of cd ord w t] t(2) by simp
  ultimately show ?thesis
    using load_saved [OF t(1) assms(3,4)] by (auto simp: Get_def GetByDID_def split: option.split)
qed

definition toy_codec :: agents_codec where
  "toy_codec = \<lparr>encode_agents = (\<lambda>as. if as = [sample_agent 1 ''did:a''] then Some [1] else None),
     decode_agents = (\<lambda>data. if data = [1] then Some [sample_agent 1 ''did:a''] else None)\<rparr>"

theorem FileStore_restart_witness:
  "\<exists>s1 r. FilePut toy_codec (\<lambda>m. m) Written (sample_agent 1 ''did:a'') \<lparr>mem = NewAgentStore, contents = None\<rparr> = (None, s1)
   \<and> NewFileStore toy_codec (contents s1) = Inr r \<and> GetByDID ''did:a'' (mem r) = Inr (Some (sample_agent 1 ''did:a''))"
proof -
  let ?s = "\<lparr>mem = NewAgentStore, contents = None\<rparr>" and ?a = "sample_agent 1 ''did:a''"
  have fields: "agent_ID ?a = 1" "DID ?a = ''did:a''"
    by (simp_all add: sample_agent_def NewAgent_def)
  let ?s1 = "\<lparr>mem = Put ?a NewAgentStore, contents = Some [1]\<rparr>"
  have list: "List_agents (\<lambda>m. m) (Put ?a NewAgentStore) = [?a]"
    by (simp add: List_agents_def Put_def NewAgentStore_def Let_def)
  have put: "FilePut toy_codec (\<lambda>m. m) Written ?a ?s = (None, ?s1)"
    by (simp add: FilePut_def save_def list) (simp add: toy_codec_def)
  have get: "GetByDID ''did:a'' (Put ?a NewAgentStore) = Inr (Some ?a)"
    by (simp add: GetByDID_def Put_lookup fields)
  have ok: "codec_ok toy_codec" "same_identity ?a (mem ?s)" "store_ok (mem ?s)"
    by (simp_all add: codec_ok_def toy_codec_def same_identity_def NewAgentStore_def store_ok_def secondary_index_def)
  from FileStore_restart [OF ok(3,2,1) range_order_id disjI1 [OF put]] put get show ?thesis
    by auto
qed

end
