(* ===== verification/Acl.thy ===== *)
theory Acl
  imports Agent_Registry
begin

text \<open>
  Access control of \<open>pkg/security/acl.go\<close>: rules are tried in order, the first rule that
  matches the principal and the action and has a known effect decides, and otherwise the
  policy's default does. \<open>None\<close> is the nil error (access granted).
\<close>

datatype acl_error = ErrAccessDenied | ErrInvalidPolicy | ErrNoPolicyDefined

abbreviation EffectAllow :: string where "EffectAllow \<equiv> ''allow''"
abbreviation EffectDeny :: string where "EffectDeny \<equiv> ''deny''"

definition matchesPrincipal :: "string \<Rightarrow> string \<Rightarrow> bool" where
  "matchesPrincipal pattern who =
     (if pattern = ''*'' then True
      else if HasSuffix pattern ''*'' then HasPrefix who (TrimSuffix pattern ''*'')
      else pattern = who)"

fun matchesAction :: "string list \<Rightarrow> string \<Rightarrow> bool" where
  "matchesAction [] action = False"
| "matchesAction (pattern # patterns) action =
     (if pattern = ''*'' then True
      else if HasSuffix pattern ''*'' \<and> HasPrefix action (TrimSuffix pattern ''*'') then True
      else if pattern = action then True
      else matchesAction patterns action)"

text \<open>The loop over the rules: \<open>None\<close> when no rule decides.\<close>

fun eval_rules :: "ACLRule list \<Rightarrow> string \<Rightarrow> string \<Rightarrow> acl_error option option" where
  "eval_rules [] principalDID action = None"
| "eval_rules (rule # rules) principalDID action =
     (if matchesPrincipal (Principal rule) principalDID \<and> matchesAction (Actions rule) action then
        if Effect rule = EffectDeny then Some (Some ErrAccessDenied)
        else if Effect rule = EffectAllow then Some None
        else eval_rules rules principalDID action
      else eval_rules rules principalDID action)"

definition CheckAccess :: "Agent \<Rightarrow> string \<Rightarrow> string \<Rightarrow> acl_error option" where
  "CheckAccess agent principalDID action =
     (case ACL agent of
        None \<Rightarrow> None
      | Some acl \<Rightarrow>
          (case eval_rules (Rules acl) principalDID action of
             Some res \<Rightarrow> res
           | None \<Rightarrow> if DefaultAllow acl then None else Some ErrAccessDenied))"

section \<open>Policy builder\<close>

definition NewPolicyBuilder :: ACLPolicy where
  "NewPolicyBuilder = \<lparr>DefaultAllow = False, Rules = []\<rparr>"

definition SetDefaultAllow :: "bool \<Rightarrow> ACLPolicy \<Rightarrow> ACLPolicy" where
  "SetDefaultAllow allow b = b\<lparr>DefaultAllow := allow\<rparr>"

definition PolicyAllow :: "string \<Rightarrow> string list \<Rightarrow> ACLPolicy \<Rightarrow> ACLPolicy" where
  "PolicyAllow p acts b = b\<lparr>Rules := Rules b @
     [\<lparr>Principal = p, Actions = acts, Effect = EffectAllow, Conditions = []\<rparr>]\<rparr>"

definition PolicyDeny :: "string \<Rightarrow> string list \<Rightarrow> ACLPolicy \<Rightarrow> ACLPolicy" where
  "PolicyDeny p acts b = b\<lparr>Rules := Rules b @
     [\<lparr>Principal = p, Actions = acts, Effect = EffectDeny, Conditions = []\<rparr>]\<rparr>"

definition DefaultOpenPolicy :: ACLPolicy where
  "DefaultOpenPolicy = SetDefaultAllow True NewPolicyBuilder"

definition DefaultClosedPolicy :: ACLPolicy where
  "DefaultClosedPolicy = SetDefaultAllow False NewPolicyBuilder"

definition TrustedAgentsPolicy :: "string list \<Rightarrow> ACLPolicy" where
  "TrustedAgentsPolicy trustedDIDs =
     fold (\<lambda>d b. PolicyAllow d [''*''] b) trustedDIDs (SetDefaultAllow False NewPolicyBuilder)"

section \<open>What a pattern matches\<close>

text \<open>A pattern matches itself and, when it ends in a star, everything that starts with the
  text before the star.\<close>

definition covers :: "string \<Rightarrow> string \<Rightarrow> bool" where
  "covers pattern s \<longleftrightarrow> pattern = s \<or> (\<exists>pre t. pattern = pre @ ''*'' \<and> s = pre @ t)"

lemma star_cases:
  obtains pre where "pattern = pre @ ''*''" | "\<not> HasSuffix pattern ''*''"
  by (auto simp: HasSuffix_iff)

lemma covers_star [simp]: "covers (pre @ ''*'') s \<longleftrightarrow> HasPrefix s pre"
  by (auto simp: covers_def HasPrefix_iff)

lemma covers_plain: "\<not> HasSuffix pattern ''*'' \<Longrightarrow> covers pattern s \<longleftrightarrow> pattern = s"
  by (auto simp: covers_def HasSuffix_iff)

lemma HasSuffix_star [simp]: "HasSuffix (pre @ ''*'') ''*''"
  by (auto simp: HasSuffix_iff)

lemma matchesPrincipal_covers: "matchesPrincipal pattern s \<longleftrightarrow> covers pattern s"
proof (cases pattern rule: star_cases)
  case (1 pre)
  show ?thesis unfolding 1 matchesPrincipal_def
    by (auto simp: HasPrefix_iff)
next
  case 2
  then show ?thesis by (auto simp: matchesPrincipal_def covers_plain HasSuffix_iff)
qed

lemma matchesAction_covers: "matchesAction patterns s \<longleftrightarrow> (\<exists>p \<in> set patterns. covers p s)"
proof (induction patterns)
  case (Cons p ps)
  have "matchesAction (p # ps) s \<longleftrightarrow> covers p s \<or> matchesAction ps s"
  proof (cases p rule: star_cases)
    case (1 pre)
    show ?thesis unfolding 1
      by (auto simp: HasPrefix_iff)
  next
    case 2
    then show ?thesis by (auto simp: covers_plain HasSuffix_iff)
  qed
  with Cons show ?case by simp
qed simp

definition decides :: "string \<Rightarrow> string \<Rightarrow> ACLRule \<Rightarrow> bool" where
  "decides who action r \<longleftrightarrow> covers (Principal r) who \<and> (\<exists>a \<in> set (Actions r). covers a action)
     \<and> Effect r \<in> {EffectAllow, EffectDeny}"

lemma eval_rules_find:
  "eval_rules rules p a =
     (case find (decides p a) rules of
        None \<Rightarrow> None
      | Some r \<Rightarrow> Some (if Effect r = EffectDeny then Some ErrAccessDenied else None))"
  by (induction rules) (auto simp: decides_def matchesPrincipal_covers matchesAction_covers)

text \<open>
  Property C28. Access decisions. An agent without a policy grants everything. With a policy, the
  first rule whose principal pattern covers the caller, one of whose action patterns covers the
  action, and whose effect is \<open>allow\<close> or \<open>deny\<close> decides; without such a rule the default does.
  A pattern covers itself and, when it ends in a star, everything that begins with what comes
  before the star.
\<close>

theorem CheckAccess_first_match:
  "CheckAccess agent who action =
     (case ACL agent of
        None \<Rightarrow> None
      | Some acl \<Rightarrow>
          (case find (decides who action) (Rules acl) of
             Some r \<Rightarrow> if Effect r = EffectDeny then Some ErrAccessDenied else None
           | None \<Rightarrow> if DefaultAllow acl then None else Some ErrAccessDenied))"
  by (auto simp: CheckAccess_def eval_rules_find split: option.splits)

lemma TrustedAgentsPolicy_rules:
  "Rules (TrustedAgentsPolicy ds) =
     map (\<lambda>d. \<lparr>Principal = d, Actions = [''*''], Effect = EffectAllow, Conditions = []\<rparr>) ds
   \<and> \<not> DefaultAllow (TrustedAgentsPolicy ds)"
proof -
  have "Rules (fold (\<lambda>d b. PolicyAllow d [''*''] b) ds b) = Rules b @
      map (\<lambda>d. \<lparr>Principal = d, Actions = [''*''], Effect = EffectAllow, Conditions = []\<rparr>) ds
    \<and> DefaultAllow (fold (\<lambda>d b. PolicyAllow d [''*''] b) ds b) = DefaultAllow b" for b
    by (induction ds arbitrary: b) (simp_all add: PolicyAllow_def)
  then show ?thesis
    by (simp add: TrustedAgentsPolicy_def SetDefaultAllow_def NewPolicyBuilder_def)
qed

lemma covers_any: "covers ''*'' s"
  using covers_star [of "[]" s] by (simp add: HasPrefix_iff)

lemma trusted_access:
  "CheckAccess (a\<lparr>ACL := Some (TrustedAgentsPolicy ds)\<rparr>) p act = None \<longleftrightarrow> (\<exists>d \<in> set ds. covers d p)"
proof -
  have "find (decides p act) (Rules (TrustedAgentsPolicy ds)) = None \<longleftrightarrow> \<not> (\<exists>d \<in> set ds. covers d p)"
    by (auto simp: find_None_iff TrustedAgentsPolicy_rules decides_def covers_any)
  moreover have "Effect r \<noteq> EffectDeny"
    if "find (decides p act) (Rules (TrustedAgentsPolicy ds)) = Some r" for r
    using that by (auto simp: find_Some_iff TrustedAgentsPolicy_rules)
  ultimately show ?thesis
    using TrustedAgentsPolicy_rules [of ds]
    by (auto simp: CheckAccess_def eval_rules_find split: option.splits)
qed

text \<open>
  The trusted-agents policy. For a list of DIDs none of which ends in a star, the
  policy grants an action exactly to the listed agents; an entry that ends in a star grants it
  to every DID with that prefix.
\<close>

theorem TrustedAgentsPolicy_exact:
  assumes "\<forall>d \<in> set ds. \<not> HasSuffix d ''*''"
  shows "(CheckAccess (a\<lparr>ACL := Some (TrustedAgentsPolicy ds)\<rparr>) p act = None \<longleftrightarrow> p \<in> set ds)
    \<and> CheckAccess (a\<lparr>ACL := Some (TrustedAgentsPolicy ((pre @ ''*'') # ds))\<rparr>) (pre @ t) act = None"
  using assms by (auto simp: trusted_access covers_plain HasPrefix_iff)

theorem TrustedAgentsPolicy_exact_witness:
  "CheckAccess ((NewAgent 1 0 ''did:me'' ''me'')\<lparr>ACL := Some (TrustedAgentsPolicy [''did:a'', ''did:b''])\<rparr>)
     ''did:b'' ''chat'' = None
   \<and> CheckAccess ((NewAgent 1 0 ''did:me'' ''me'')\<lparr>ACL := Some (TrustedAgentsPolicy [''did:a'', ''did:b''])\<rparr>)
     ''did:bb'' ''chat'' \<noteq> None"
proof -
  have "\<forall>d \<in> set [''did:a'', ''did:b'']. \<not> HasSuffix d ''*''"
    by (simp add: HasSuffix_def)
  from TrustedAgentsPolicy_exact [OF this, of "NewAgent 1 0 ''did:me'' ''me''"] show ?thesis
    by simp
qed

end
