(* ===== verification/Channels.thy ===== *)
theory Channels
  imports Go_Prelude
begin

text \<open>
  Group channels of \<open>pkg/registry/channel.go\<close>: channels with their members and sender keys, and
  the in-memory channel store. The store copies the channel and its member slice on the way in
  and out, and sender keys are only ever replaced, so channels are values in the model.
\<close>

section \<open>Channels\<close>

datatype channel_error = ErrChannelNotFound | ErrChannelExists | ErrNotChannelMember | ErrNotChannelOwner
  | ErrMemberAlreadyAdded

type_synonym ChannelType = string
type_synonym ChannelRole = string

abbreviation ChannelGroup :: ChannelType where "ChannelGroup \<equiv> ''group''"
abbreviation ChannelBroadcast :: ChannelType where "ChannelBroadcast \<equiv> ''broadcast''"
abbreviation ChannelTopic :: ChannelType where "ChannelTopic \<equiv> ''topic''"
abbreviation RoleOwner :: ChannelRole where "RoleOwner \<equiv> ''owner''"
abbreviation RoleAdmin :: ChannelRole where "RoleAdmin \<equiv> ''admin''"
abbreviation RoleMember :: ChannelRole where "RoleMember \<equiv> ''member''"

record SenderKey =
  ChainKey :: slice
  SignatureKey :: slice
  Iteration :: "32 word"

record ChannelMember =
  member_DID :: did
  JoinedAt :: time
  member_Role :: ChannelRole
  member_SenderKey :: "SenderKey option"

record Channel =
  channel_ID :: uuid
  channel_Name :: string
  channel_Type :: ChannelType
  OwnerDID :: did
  channel_Description :: string
  Members :: "ChannelMember list"
  CreatedAt :: time
  UpdatedAt :: time
  channel_Metadata :: "(string, json) gomap"

definition NewChannel :: "uuid \<Rightarrow> time \<Rightarrow> string \<Rightarrow> ChannelType \<Rightarrow> did \<Rightarrow> Channel" where
  "NewChannel i now n ty owner =
     \<lparr>channel_ID = i, channel_Name = n, channel_Type = ty, OwnerDID = owner, channel_Description = '''',
      Members = [\<lparr>member_DID = owner, JoinedAt = now, member_Role = RoleOwner, member_SenderKey = None\<rparr>],
      CreatedAt = now, UpdatedAt = now, channel_Metadata = []\<rparr>"

definition IsMember :: "did \<Rightarrow> Channel \<Rightarrow> bool" where
  "IsMember d c \<longleftrightarrow> list_ex (\<lambda>m. member_DID m = d) (Members c)"

definition AddMember :: "time \<Rightarrow> did \<Rightarrow> ChannelRole \<Rightarrow> Channel \<Rightarrow> channel_error + Channel" where
  "AddMember now d r c =
     (if IsMember d c then Inl ErrMemberAlreadyAdded
      else Inr (c\<lparr>Members := Members c @
             [\<lparr>member_DID = d, JoinedAt = now, member_Role = r, member_SenderKey = None\<rparr>],
           UpdatedAt := now\<rparr>))"

definition RemoveMember :: "time \<Rightarrow> did \<Rightarrow> Channel \<Rightarrow> bool \<times> Channel" where
  "RemoveMember now d c =
     (case find_index (\<lambda>m. member_DID m = d) (Members c) of
        Some i \<Rightarrow> (True, c\<lparr>Members := delete_at i (Members c), UpdatedAt := now\<rparr>)
      | None \<Rightarrow> (False, c))"

definition IsOwner :: "did \<Rightarrow> Channel \<Rightarrow> bool" where
  "IsOwner d c \<longleftrightarrow> OwnerDID c = d"

definition IsAdmin :: "did \<Rightarrow> Channel \<Rightarrow> bool" where
  "IsAdmin d c \<longleftrightarrow> IsOwner d c \<or> list_ex (\<lambda>m. member_DID m = d \<and> member_Role m = RoleAdmin) (Members c)"

definition CanSend :: "did \<Rightarrow> Channel \<Rightarrow> bool" where
  "CanSend d c =
     (if \<not> IsMember d c then False
      else if channel_Type c = ChannelBroadcast then IsOwner d c
      else True)"

definition GetMember :: "did \<Rightarrow> Channel \<Rightarrow> ChannelMember option" where
  "GetMember d c = find (\<lambda>m. member_DID m = d) (Members c)"

definition MemberDIDs :: "Channel \<Rightarrow> did list" where
  "MemberDIDs c = map member_DID (Members c)"

definition SetSenderKey :: "time \<Rightarrow> did \<Rightarrow> SenderKey option \<Rightarrow> Channel \<Rightarrow> bool \<times> Channel" where
  "SetSenderKey now d k c =
     (case find_index (\<lambda>m. member_DID m = d) (Members c) of
        Some i \<Rightarrow> (True, c\<lparr>Members := (Members c)[i := (Members c ! i)\<lparr>member_SenderKey := k\<rparr>], UpdatedAt := now\<rparr>)
      | None \<Rightarrow> (False, c))"

definition GetSenderKey :: "did \<Rightarrow> Channel \<Rightarrow> SenderKey option" where
  "GetSenderKey d c = (case GetMember d c of Some m \<Rightarrow> member_SenderKey m | None \<Rightarrow> None)"

section \<open>The in-memory channel store\<close>

record MemoryChannelStore =
  channels :: "(uuid, Channel) gomap"
  byName :: "(string, uuid) gomap"

definition NewMemoryChannelStore :: MemoryChannelStore where
  "NewMemoryChannelStore = \<lparr>channels = [], byName = []\<rparr>"

definition CreateChannel :: "Channel \<Rightarrow> MemoryChannelStore \<Rightarrow> channel_error + MemoryChannelStore" where
  "CreateChannel c s =
     (case map_of (byName s) (channel_Name c) of
        Some _ \<Rightarrow> Inl ErrChannelExists
      | None \<Rightarrow> Inr (s\<lparr>channels := mput (channel_ID c) c (channels s),
                       byName := mput (channel_Name c) (channel_ID c) (byName s)\<rparr>))"

definition GetChannel :: "uuid \<Rightarrow> MemoryChannelStore \<Rightarrow> channel_error + Channel" where
  "GetChannel i s = (case map_of (channels s) i of None \<Rightarrow> Inl ErrChannelNotFound | Some c \<Rightarrow> Inr c)"

definition GetChannelByName :: "string \<Rightarrow> MemoryChannelStore \<Rightarrow> channel_error + Channel" where
  "GetChannelByName n s =
     (case map_of (byName s) n of None \<Rightarrow> Inl ErrChannelNotFound | Some i \<Rightarrow> GetChannel i s)"

definition UpdateChannel :: "Channel \<Rightarrow> MemoryChannelStore \<Rightarrow> channel_error + MemoryChannelStore" where
  "UpdateChannel c s =
     (case map_of (channels s) (channel_ID c) of
        None \<Rightarrow> Inl ErrChannelNotFound
      | Some _ \<Rightarrow> Inr (s\<lparr>channels := mput (channel_ID c) c (channels s)\<rparr>))"

definition DeleteChannel :: "uuid \<Rightarrow> MemoryChannelStore \<Rightarrow> channel_error + MemoryChannelStore" where
  "DeleteChannel i s =
     (case map_of (channels s) i of
        None \<Rightarrow> Inl ErrChannelNotFound
      | Some c \<Rightarrow> Inr (s\<lparr>byName := mdel (channel_Name c) (byName s), channels := mdel i (channels s)\<rparr>))"

type_synonym channel_order = "(uuid, Channel) gomap \<Rightarrow> (uuid, Channel) gomap"

definition ListChannels :: "channel_order \<Rightarrow> did \<Rightarrow> MemoryChannelStore \<Rightarrow> Channel list" where
  "ListChannels ord d s = filter (IsMember d) (map snd (ord (channels s)))"

definition ListAllChannels :: "channel_order \<Rightarrow> MemoryChannelStore \<Rightarrow> Channel list" where
  "ListAllChannels ord s = map snd (ord (channels s))"

section \<open>Well-formed channels\<close>

text \<open>A channel has its owner among its members and no member twice.\<close>

definition channel_ok :: "Channel \<Rightarrow> bool" where
  "channel_ok c \<longleftrightarrow> distinct (MemberDIDs c) \<and> OwnerDID c \<in> set (MemberDIDs c)"

lemma IsMember_iff: "IsMember d c \<longleftrightarrow> d \<in> set (MemberDIDs c)"
  by (auto simp: IsMember_def MemberDIDs_def list_ex_iff)

lemma CanSend_iff:
  "CanSend d c \<longleftrightarrow> d \<in> set (MemberDIDs c) \<and> (channel_Type c = ChannelBroadcast \<longrightarrow> d = OwnerDID c)"
  by (auto simp: CanSend_def IsMember_iff IsOwner_def)

lemma NewChannel_ok [simp]: "channel_ok (NewChannel i now n ty owner)"
  by (simp add: channel_ok_def NewChannel_def MemberDIDs_def)

lemma AddMember_Inr:
  assumes "AddMember now d r c = Inr c'"
  shows "MemberDIDs c' = MemberDIDs c @ [d]" "d \<notin> set (MemberDIDs c)" "OwnerDID c' = OwnerDID c"
    "channel_ID c' = channel_ID c" "channel_Name c' = channel_Name c" "channel_Type c' = channel_Type c"
  using assms by (auto simp: AddMember_def MemberDIDs_def IsMember_iff split: if_splits)

lemma AddMember_ok: "channel_ok c \<Longrightarrow> AddMember now d r c = Inr c' \<Longrightarrow> channel_ok c'"
  using AddMember_Inr [of now d r c c'] by (simp add: channel_ok_def)

lemma map_delete_at: "map f (delete_at i xs) = delete_at i (map f xs)"
  by (simp add: delete_at_def take_map drop_map)

lemma delete_at_distinct:
  assumes "distinct xs" and "i < length xs"
  shows "distinct (delete_at i xs) \<and> set (delete_at i xs) = set xs - {xs ! i}"
proof -
  have "xs = take i xs @ xs ! i # drop (Suc i) xs"
    using assms(2) by (simp add: id_take_nth_drop)
  then have "distinct (take i xs @ xs ! i # drop (Suc i) xs)"
    "set xs = set (take i xs @ xs ! i # drop (Suc i) xs)"
    using assms(1) by simp_all
  then show ?thesis
    by (auto simp: delete_at_def)
qed

lemma RemoveMember_members:
  assumes "channel_ok c" and "RemoveMember now d c = (True, c')"
  shows "distinct (MemberDIDs c')" "set (MemberDIDs c') = set (MemberDIDs c) - {d}" "d \<in> set (MemberDIDs c)"
    "OwnerDID c' = OwnerDID c" "channel_ID c' = channel_ID c" "channel_Name c' = channel_Name c"
proof -
  obtain i where i: "find_index (\<lambda>m. member_DID m = d) (Members c) = Some i"
    and c': "c' = c\<lparr>Members := delete_at i (Members c), UpdatedAt := now\<rparr>"
    using assms(2) by (auto simp: RemoveMember_def split: option.splits)
  have lt: "i < length (Members c)" "member_DID (Members c ! i) = d"
    using find_index_Some [OF i] by auto
  have "MemberDIDs c' = delete_at i (MemberDIDs c)"
    by (simp add: c' MemberDIDs_def map_delete_at)
  moreover have "i < length (MemberDIDs c)" "MemberDIDs c ! i = d"
    using lt by (simp_all add: MemberDIDs_def)
  ultimately show "distinct (MemberDIDs c')" "set (MemberDIDs c') = set (MemberDIDs c) - {d}"
    "d \<in> set (MemberDIDs c)"
    using assms(1) delete_at_distinct [of "MemberDIDs c" i] nth_mem [of i "MemberDIDs c"]
    by (auto simp: channel_ok_def)
  show "OwnerDID c' = OwnerDID c" "channel_ID c' = channel_ID c" "channel_Name c' = channel_Name c"
    by (simp_all add: c')
qed

lemma RemoveMember_ok:
  "channel_ok c \<Longrightarrow> RemoveMember now d c = (True, c') \<Longrightarrow> d \<noteq> OwnerDID c \<Longrightarrow> channel_ok c'"
  using RemoveMember_members [of c now d c'] by (auto simp: channel_ok_def)

lemma SetSenderKey_members:
  "MemberDIDs (snd (SetSenderKey now d k c)) = MemberDIDs c"
  "OwnerDID (snd (SetSenderKey now d k c)) = OwnerDID c"
  "channel_ID (snd (SetSenderKey now d k c)) = channel_ID c"
  "channel_Name (snd (SetSenderKey now d k c)) = channel_Name c"
  by (auto simp: SetSenderKey_def MemberDIDs_def map_update intro!: list_update_same_conv [THEN iffD2]
      dest!: find_index_Some split: option.splits)

lemma SetSenderKey_ok: "channel_ok c \<Longrightarrow> channel_ok (snd (SetSenderKey now d k c))"
  by (simp add: channel_ok_def SetSenderKey_members)

section \<open>The store contract\<close>

text \<open>
  What the channel handlers rely on: \<open>view\<close> is the set of channels by ID, names identify
  channels, and the operations change exactly the channel they are given.
\<close>

locale channel_directory =
  fixes view :: "'s \<Rightarrow> uuid \<rightharpoonup> Channel" and by_name :: "string \<Rightarrow> 's \<Rightarrow> channel_error + Channel"
    and create :: "Channel \<Rightarrow> 's \<Rightarrow> channel_error + 's" and upd :: "Channel \<Rightarrow> 's \<Rightarrow> channel_error + 's"
    and del :: "uuid \<Rightarrow> 's \<Rightarrow> channel_error + 's" and inv :: "'s \<Rightarrow> bool"
  assumes view_ok: "inv s \<Longrightarrow> view s i = Some c \<Longrightarrow> channel_ID c = i \<and> channel_ok c"
    and by_name_iff: "inv s \<Longrightarrow> by_name n s = Inr c \<longleftrightarrow> (\<exists>i. view s i = Some c \<and> channel_Name c = n)"
    and create_inv: "inv s \<Longrightarrow> create c s = Inr s' \<Longrightarrow> channel_ok c \<Longrightarrow> view s (channel_ID c) = None \<Longrightarrow>
      inv s' \<and> view s' = (view s)(channel_ID c \<mapsto> c)"
    and create_exists: "inv s \<Longrightarrow> create c s = Inl e \<longleftrightarrow>
      e = ErrChannelExists \<and> (\<exists>i d. view s i = Some d \<and> channel_Name d = channel_Name c)"
    and upd_inv: "inv s \<Longrightarrow> view s (channel_ID c) = Some d \<Longrightarrow> channel_Name d = channel_Name c \<Longrightarrow> channel_ok c \<Longrightarrow>
      \<exists>s'. upd c s = Inr s' \<and> inv s' \<and> view s' = (view s)(channel_ID c \<mapsto> c)"
    and del_inv: "inv s \<Longrightarrow> view s i = Some c \<Longrightarrow>
      \<exists>s'. del i s = Inr s' \<and> inv s' \<and> view s' = (view s)(i := None)"
begin

lemma name_identifies:
  assumes "inv s" "view s i = Some c" "view s j = Some d" "channel_Name c = channel_Name d"
  shows "i = j \<and> c = d"
proof -
  have "by_name (channel_Name c) s = Inr c" "by_name (channel_Name c) s = Inr d"
    using assms by (auto simp: by_name_iff)
  then have "c = d" by simp
  with view_ok [OF assms(1,2)] view_ok [OF assms(1,3)] show ?thesis by simp
qed

text \<open>Storing a changed copy of a channel under its name.\<close>

lemma updated_by_name:
  assumes "inv s" and "by_name n s = Inr c" and "channel_ID c' = channel_ID c"
    and "channel_Name c' = n" and "channel_ok c'"
  shows "\<exists>s'. upd c' s = Inr s' \<and> inv s' \<and> by_name n s' = Inr c'
    \<and> (\<forall>m d. m \<noteq> n \<longrightarrow> (by_name m s' = Inr d \<longleftrightarrow> by_name m s = Inr d))"
proof -
  obtain i where i: "view s i = Some c" "channel_Name c = n"
    using assms(1,2) by (auto simp: by_name_iff)
  have id: "channel_ID c = i" using view_ok [OF assms(1) i(1)] by simp
  have v: "view s (channel_ID c') = Some c" using i id assms(3) by simp
  then obtain s' where s': "upd c' s = Inr s'" "inv s'" "view s' = (view s)(channel_ID c' \<mapsto> c')"
    using upd_inv [OF assms(1) v _ assms(5)] i assms(4) by auto
  have "by_name m s' = Inr d \<longleftrightarrow> by_name m s = Inr d" if "m \<noteq> n" for m d
  proof -
    have "view s' j = Some d \<and> channel_Name d = m \<longleftrightarrow> view s j = Some d \<and> channel_Name d = m" for j
      using that s'(3) assms(3,4) v i by auto
    then show ?thesis using s'(2) assms(1) by (simp add: by_name_iff)
  qed
  moreover have "by_name n s' = Inr c'"
    using s'(2,3) assms(4) by (auto simp: by_name_iff)
  ultimately show ?thesis using s' by blast
qed

lemma join_visible:
  assumes "inv s" and "by_name n s = Inr c" and "AddMember now d r c = Inr c'"
  shows "\<exists>s'. upd c' s = Inr s' \<and> inv s' \<and> by_name n s' = Inr c'
    \<and> (\<forall>m e. m \<noteq> n \<longrightarrow> (by_name m s' = Inr e \<longleftrightarrow> by_name m s = Inr e))"
proof -
  obtain i where i: "view s i = Some c" "channel_Name c = n"
    using assms(1,2) by (auto simp: by_name_iff)
  then have "channel_ok c" using view_ok [OF assms(1)] by blast
  from AddMember_ok [OF this assms(3)] AddMember_Inr [OF assms(3)] i(2) show ?thesis
    using updated_by_name [OF assms(1,2), of c'] by simp
qed

lemma leave_visible:
  assumes "inv s" and "by_name n s = Inr c" and "RemoveMember now d c = (True, c')" and "d \<noteq> OwnerDID c"
  shows "\<exists>s'. upd c' s = Inr s' \<and> inv s' \<and> by_name n s' = Inr c'
    \<and> (\<forall>m e. m \<noteq> n \<longrightarrow> (by_name m s' = Inr e \<longleftrightarrow> by_name m s = Inr e))"
proof -
  obtain i where i: "view s i = Some c" "channel_Name c = n"
    using assms(1,2) by (auto simp: by_name_iff)
  then have ok: "channel_ok c" using view_ok [OF assms(1)] by blast
  from RemoveMember_ok [OF ok assms(3,4)] RemoveMember_members [OF ok assms(3)] i(2) show ?thesis
    using updated_by_name [OF assms(1,2), of c'] by simp
qed

end

definition channels_ok :: "MemoryChannelStore \<Rightarrow> bool" where
  "channels_ok s \<longleftrightarrow> distinct (mkeys (channels s)) \<and> distinct (mkeys (byName s))
     \<and> secondary_index channel_ID channel_Name (\<lambda>_. True) (map_of (channels s)) (map_of (byName s))
     \<and> (\<forall>i c. map_of (channels s) i = Some c \<longrightarrow> channel_ok c)"

lemmas name_index = secondary_indexD [where key = channel_ID and nm = channel_Name and indexed = "\<lambda>_. True"]

lemma channels_ok_New [simp]: "channels_ok NewMemoryChannelStore"
  by (simp add: channels_ok_def NewMemoryChannelStore_def)

lemma channels_okD:
  assumes "channels_ok s"
  shows "secondary_index channel_ID channel_Name (\<lambda>_. True) (map_of (channels s)) (map_of (byName s))"
    and "map_of (channels s) i = Some c \<Longrightarrow> channel_ok c"
  using assms by (auto simp only: channels_ok_def)

lemma GetChannelByName_iff:
  assumes "channels_ok s"
  shows "GetChannelByName n s = Inr c \<longleftrightarrow> (\<exists>i. map_of (channels s) i = Some c \<and> channel_Name c = n)"
proof -
  note ix = channels_okD(1) [OF assms]
  have "GetChannelByName n s = Inr c \<longleftrightarrow> (\<exists>i. map_of (byName s) n = Some i \<and> map_of (channels s) i = Some c)"
    unfolding GetChannelByName_def GetChannel_def by (simp only: split: option.split) auto
  then show ?thesis
    using name_index(2,3) [OF ix] by (metis option.inject)
qed

lemma channels_ok_put:
  assumes "channels_ok s" and "channel_ok c" and "distinct (mkeys ix)"
    and "secondary_index channel_ID channel_Name (\<lambda>_. True) ((map_of (channels s))(channel_ID c \<mapsto> c)) (map_of ix)"
  shows "channels_ok (s\<lparr>channels := mput (channel_ID c) c (channels s), byName := ix\<rparr>)"
proof -
  have "distinct (mkeys (channels s))" using assms(1) by (simp add: channels_ok_def)
  moreover have "channel_ok d" if "((map_of (channels s))(channel_ID c \<mapsto> c)) i = Some d" for i d
    using that assms(2) channels_okD(2) [OF assms(1), of i d] by (cases "i = channel_ID c") simp_all
  ultimately show ?thesis
    unfolding channels_ok_def using assms(3,4) by (simp add: map_of_simps distinct_update)
qed

lemma CreateChannel_inv:
  assumes "channels_ok s" and "CreateChannel c s = Inr s'" and "channel_ok c"
    and "map_of (channels s) (channel_ID c) = None"
  shows "channels_ok s' \<and> map_of (channels s') = (map_of (channels s))(channel_ID c \<mapsto> c)"
proof -
  have fresh: "map_of (byName s) (channel_Name c) = None"
    and s': "s' = s\<lparr>channels := mput (channel_ID c) c (channels s),
      byName := mput (channel_Name c) (channel_ID c) (byName s)\<rparr>"
    using assms(2) by (auto simp only: CreateChannel_def split: option.splits)
  have "secondary_index channel_ID channel_Name (\<lambda>_. True)
      ((map_of (channels s))(channel_ID c \<mapsto> c)) ((map_of (byName s))(channel_Name c \<mapsto> channel_ID c))"
    using secondary_index_put [OF channels_okD(1) [OF assms(1)], of c] assms(4) fresh by simp
  then show ?thesis
    using channels_ok_put [OF assms(1,3), of "mput (channel_Name c) (channel_ID c) (byName s)"] assms(1)
    by (simp add: s' map_of_simps distinct_update channels_ok_def)
qed

lemma UpdateChannel_inv:
  assumes "channels_ok s" and "map_of (channels s) (channel_ID c) = Some d"
    and "channel_Name d = channel_Name c" and "channel_ok c"
  shows "\<exists>s'. UpdateChannel c s = Inr s' \<and> channels_ok s'
    \<and> map_of (channels s') = (map_of (channels s))(channel_ID c \<mapsto> c)"
proof -
  note ix = channels_okD(1) [OF assms(1)]
  have nm: "map_of (byName s) (channel_Name c) = Some (channel_ID c)"
    using name_index(2) [OF ix assms(2)] unfolding assms(3) by blast
  have same: "(map_of (byName s))(channel_Name c \<mapsto> channel_ID c) = map_of (byName s)"
    by (rule fun_upd_idem) (rule nm)
  have sx: "secondary_index channel_ID channel_Name (\<lambda>_. True)
      ((map_of (channels s))(channel_ID c \<mapsto> c)) (map_of (byName s))"
    by (rule secondary_index_put [OF ix, of c, unfolded if_True same])
       (simp_all only: assms(2,3) nm option.inject, simp_all add: assms(3))
  have "channels_ok (s\<lparr>channels := mput (channel_ID c) c (channels s), byName := byName s\<rparr>)"
    by (rule channels_ok_put [OF assms(1,4) _ sx]) (use assms(1) in \<open>simp add: channels_ok_def\<close>)
  moreover have "UpdateChannel c s = Inr (s\<lparr>channels := mput (channel_ID c) c (channels s), byName := byName s\<rparr>)"
    unfolding UpdateChannel_def assms(2) by simp
  ultimately show ?thesis by (simp add: map_of_simps)
qed

lemma DeleteChannel_inv:
  assumes "channels_ok s" and "map_of (channels s) i = Some c"
  shows "\<exists>s'. DeleteChannel i s = Inr s' \<and> channels_ok s' \<and> map_of (channels s') = (map_of (channels s))(i := None)"
proof -
  have "secondary_index channel_ID channel_Name (\<lambda>_. True)
      ((map_of (channels s))(i := None)) ((map_of (byName s))(channel_Name c := None))"
    using secondary_index_delete [OF channels_okD(1) [OF assms(1)] assms(2)] by simp
  moreover have "channel_ok d" if "((map_of (channels s))(i := None)) j = Some d" for j d
    using that channels_okD(2) [OF assms(1), of j d] by (cases "j = i") simp_all
  moreover have "distinct (mkeys (channels s))" "distinct (mkeys (byName s))"
    using assms(1) by (simp_all add: channels_ok_def)
  ultimately have "channels_ok (s\<lparr>byName := mdel (channel_Name c) (byName s), channels := mdel i (channels s)\<rparr>)"
    unfolding channels_ok_def by (simp add: map_of_simps distinct_delete)
  moreover have "DeleteChannel i s = Inr (s\<lparr>byName := mdel (channel_Name c) (byName s), channels := mdel i (channels s)\<rparr>)"
    unfolding DeleteChannel_def assms(2) by simp
  ultimately show ?thesis by (simp add: map_of_simps)
qed

lemma CreateChannel_exists:
  assumes "channels_ok s"
  shows "CreateChannel c s = Inl e \<longleftrightarrow>
    e = ErrChannelExists \<and> (\<exists>i d. map_of (channels s) i = Some d \<and> channel_Name d = channel_Name c)"
proof (cases "map_of (byName s) (channel_Name c)")
  case None
  have "channel_Name d \<noteq> channel_Name c" if "map_of (channels s) i = Some d" for i d
    using name_index(2) [OF channels_okD(1) [OF assms] that] None by auto
  then show ?thesis unfolding CreateChannel_def None by auto
next
  case (Some i)
  from name_index(3) [OF channels_okD(1) [OF assms] Some] show ?thesis
    unfolding CreateChannel_def Some option.case by blast
qed

lemma channel_view_ok:
  "channels_ok s \<Longrightarrow> map_of (channels s) i = Some c \<Longrightarrow> channel_ID c = i \<and> channel_ok c"
  by (rule conjI [OF name_index(1) [OF channels_okD(1)] channels_okD(2)])

interpretation chanstore: channel_directory "\<lambda>s. map_of (channels s)" GetChannelByName CreateChannel
    UpdateChannel DeleteChannel channels_ok
  by (unfold_locales; (rule channel_view_ok GetChannelByName_iff CreateChannel_inv CreateChannel_exists
        UpdateChannel_inv DeleteChannel_inv; assumption)?)

section \<open>Concurrent membership changes\<close>

text \<open>
  The join handler reads a copy of the channel, adds the member and stores the copy; the three
  steps are not protected by a common lock.
\<close>

definition sample_channel :: Channel where
  "sample_channel = NewChannel 1 0 ''channel:x:y'' ChannelGroup ''did:o''"

definition sample_channels :: MemoryChannelStore where
  "sample_channels = \<lparr>channels = [(1, sample_channel)], byName = [(''channel:x:y'', 1)]\<rparr>"

lemma sample_channels_ok: "channels_ok sample_channels"
proof -
  have "CreateChannel sample_channel NewMemoryChannelStore = Inr sample_channels"
    by (simp add: CreateChannel_def sample_channel_def sample_channels_def NewMemoryChannelStore_def NewChannel_def)
  from CreateChannel_inv [OF channels_ok_New this] show ?thesis
    by (simp add: sample_channel_def NewMemoryChannelStore_def)
qed

text \<open>
  Property C40. A join can be lost. When two agents join the same channel at the same time, so
  that both handlers read the channel before either stores it, both joins report success and
  the channel ends with the second agent as a member and without the first.
\<close>

theorem join_lost_update:
  assumes ok: "channels_ok s" and c: "GetChannelByName n s = Inr c" and ne: "d \<noteq> e"
    and d: "AddMember t d RoleMember c = Inr c1" and e: "AddMember u e RoleMember c = Inr c2"
  shows "\<exists>s1 s2 c'. UpdateChannel c1 s = Inr s1 \<and> UpdateChannel c2 s1 = Inr s2
    \<and> GetChannelByName n s2 = Inr c' \<and> IsMember e c' \<and> \<not> IsMember d c'"
proof -
  obtain s1 where s1: "UpdateChannel c1 s = Inr s1" "channels_ok s1" "GetChannelByName n s1 = Inr c1"
    using chanstore.join_visible [OF ok c d] by blast
  have nm: "channel_Name c = n" and okc: "channel_ok c"
    using c ok channel_view_ok by (auto simp only: GetChannelByName_iff)
  have "channel_ID c2 = channel_ID c1" "channel_Name c2 = n" "channel_ok c2"
    using AddMember_Inr [OF d] AddMember_Inr [OF e] AddMember_ok [OF okc e] nm by simp_all
  then obtain s2 where s2: "UpdateChannel c2 s1 = Inr s2" "GetChannelByName n s2 = Inr c2"
    using chanstore.updated_by_name [OF s1(2,3), of c2] by blast
  have "IsMember e c2" "\<not> IsMember d c2"
    using AddMember_Inr [OF d] AddMember_Inr [OF e] ne by (auto simp: IsMember_iff)
  with s1 s2 show ?thesis by blast
qed

theorem join_lost_update_witness:
  "\<exists>c1 c2 s1 s2 c'. AddMember 5 ''did:a'' RoleMember sample_channel = Inr c1
     \<and> AddMember 6 ''did:b'' RoleMember sample_channel = Inr c2
     \<and> UpdateChannel c1 sample_channels = Inr s1 \<and> UpdateChannel c2 s1 = Inr s2
     \<and> GetChannelByName ''channel:x:y'' s2 = Inr c' \<and> IsMember ''did:b'' c' \<and> \<not> IsMember ''did:a'' c'"
proof -
  have get: "GetChannelByName ''channel:x:y'' sample_channels = Inr sample_channel"
    by (simp add: GetChannelByName_def GetChannel_def sample_channels_def)
  obtain c1 c2 where c: "AddMember 5 ''did:a'' RoleMember sample_channel = Inr c1"
      "AddMember 6 ''did:b'' RoleMember sample_channel = Inr c2"
    by (simp add: AddMember_def IsMember_def sample_channel_def NewChannel_def)
  show ?thesis
    using join_lost_update [OF sample_channels_ok get _ c] c by auto
qed

end
