(* ===== verification/Offline_Queue.thy ===== *)
theory Offline_Queue
  imports Go_Prelude
begin

text \<open>
  The offline message queue of \<open>pkg/queue\<close>: the configuration and message types of
  \<open>queue.go\<close> and the in-memory store of \<open>memory.go\<close>, one definition per method. The store's
  mutex makes each method atomic, so a method is a function from the state to a result and
  the next state; \<open>time.Now()\<close> is read once per call and passed as \<open>now\<close>. The locale
  \<open>message_store\<close> states the contract of the \<open>Store\<close> interface, and is interpreted on the
  in-memory store.
\<close>

section \<open>Data\<close>

datatype queue_error = ErrQueueFull | ErrMessageTTL | ErrQueueClosed | ErrNotFound

record Config =
  MessageTTL :: duration
  MaxQueueSize :: int
  MaxTotalMessages :: int
  MaxDeliveryAttempts :: int
  AckTimeout :: duration
  EnableDLQ :: bool

definition DefaultConfig :: Config where
  "DefaultConfig = \<lparr>MessageTTL = 7 * 24 * 3600 * 1000000000, MaxQueueSize = 10000,
     MaxTotalMessages = 100000, MaxDeliveryAttempts = 3, AckTimeout = 30 * 1000000000,
     EnableDLQ = True\<rparr>"

record QueuedMessage =
  qm_ID :: uuid
  RecipientDID :: did
  Data :: bytes
  QueuedAt :: time
  ExpiresAt :: time
  DeliveryAttempts :: int
  LastAttempt :: "time option"
  SenderDID :: did

record DeadLetterMessage = QueuedMessage +
  FailReason :: string
  MovedAt :: time

definition IsExpired :: "time \<Rightarrow> 'a QueuedMessage_scheme \<Rightarrow> bool" where
  "IsExpired now m \<longleftrightarrow> now > ExpiresAt m"

record MemoryStore =
  config :: Config
  queues :: "(did, QueuedMessage list) gomap"
  dlq :: "(did, DeadLetterMessage list) gomap"
  totalCount :: int
  closed :: bool

type_synonym queue_order = "(did, QueuedMessage list) gomap \<Rightarrow> (did, QueuedMessage list) gomap"
type_synonym queue_sort = "QueuedMessage list \<Rightarrow> QueuedMessage list"

section \<open>Operations\<close>

definition NewMemoryStore :: "Config \<Rightarrow> MemoryStore" where
  "NewMemoryStore c = \<lparr>config = c, queues = [], dlq = [], totalCount = 0, closed = False\<rparr>"

text \<open>\<open>s.queues[did] = q\<close> followed by the removal of the entry when \<open>q\<close> is empty.\<close>

definition store_queue ::
  "did \<Rightarrow> QueuedMessage list \<Rightarrow> (did, QueuedMessage list) gomap \<Rightarrow> (did, QueuedMessage list) gomap"
  where
  "store_queue d q m = (if q = [] then mdel d m else mput d q m)"

text \<open>The deletion of one message by index, shared by eviction, \<open>Ack\<close> and \<open>Nack\<close>.\<close>

definition remove_message :: "did \<Rightarrow> nat \<Rightarrow> MemoryStore \<Rightarrow> MemoryStore" where
  "remove_message d i s =
     s\<lparr>queues := store_queue d (delete_at i (mlist (queues s) d)) (queues s),
       totalCount := totalCount s - 1\<rparr>"

fun scan_queue ::
  "did \<Rightarrow> nat \<Rightarrow> QueuedMessage list \<Rightarrow> (time \<times> did \<times> nat) option \<Rightarrow> (time \<times> did \<times> nat) option"
  where
  "scan_queue d i [] best = best"
| "scan_queue d i (m # ms) best =
     scan_queue d (Suc i) ms
       (case best of
          None \<Rightarrow> Some (QueuedAt m, d, i)
        | Some (t, _, _) \<Rightarrow> if QueuedAt m < t then Some (QueuedAt m, d, i) else best)"

fun scan_queues ::
  "(did, QueuedMessage list) gomap \<Rightarrow> (time \<times> did \<times> nat) option \<Rightarrow> (time \<times> did \<times> nat) option"
  where
  "scan_queues [] best = best"
| "scan_queues ((d, q) # m) best = scan_queues m (scan_queue d 0 q best)"

definition evictOldestLocked :: "queue_order \<Rightarrow> MemoryStore \<Rightarrow> MemoryStore" where
  "evictOldestLocked ord s =
     (case scan_queues (ord (queues s)) None of
        None \<Rightarrow> s
      | Some (_, d, i) \<Rightarrow> if d \<noteq> [] then remove_message d i s else s)"

definition append_message :: "QueuedMessage \<Rightarrow> MemoryStore \<Rightarrow> MemoryStore" where
  "append_message msg s =
     s\<lparr>queues := mput (RecipientDID msg) (mlist (queues s) (RecipientDID msg) @ [msg]) (queues s),
       totalCount := totalCount s + 1\<rparr>"

definition Enqueue :: "queue_order \<Rightarrow> QueuedMessage \<Rightarrow> MemoryStore \<Rightarrow> queue_error + MemoryStore"
  where
  "Enqueue ord msg s =
     (if closed s then Inl ErrQueueClosed
      else if MaxQueueSize (config s) > 0 \<and>
              int (length (mlist (queues s) (RecipientDID msg))) \<ge> MaxQueueSize (config s)
      then Inl ErrQueueFull
      else
        let s1 = (if MaxTotalMessages (config s) > 0 \<and> totalCount s \<ge> MaxTotalMessages (config s)
                  then evictOldestLocked ord s else s)
        in Inr (append_message msg s1))"

fun dequeue_loop ::
  "time \<Rightarrow> int \<Rightarrow> QueuedMessage list \<Rightarrow> QueuedMessage list \<Rightarrow> QueuedMessage list
   \<Rightarrow> QueuedMessage list \<times> QueuedMessage list" where
  "dequeue_loop now limit [] result remaining = (result, remaining)"
| "dequeue_loop now limit (m # ms) result remaining =
     (if IsExpired now m then dequeue_loop now limit ms result (remaining @ [m])
      else if limit > 0 \<and> int (length result) \<ge> limit
      then dequeue_loop now limit ms result (remaining @ [m])
      else dequeue_loop now limit ms (result @ [m]) remaining)"

definition Dequeue ::
  "queue_sort \<Rightarrow> time \<Rightarrow> did \<Rightarrow> int \<Rightarrow> MemoryStore
   \<Rightarrow> queue_error + QueuedMessage list \<times> MemoryStore" where
  "Dequeue srt now d limit s =
     (if closed s then Inl ErrQueueClosed
      else if mlist (queues s) d = [] then Inr ([], s)
      else
        let (result, remaining) = dequeue_loop now limit (srt (mlist (queues s) d)) [] []
        in Inr (result,
             s\<lparr>totalCount := totalCount s - int (length result),
               queues := store_queue d remaining (queues s)\<rparr>))"

fun peek_loop ::
  "time \<Rightarrow> int \<Rightarrow> QueuedMessage list \<Rightarrow> QueuedMessage list \<Rightarrow> QueuedMessage list" where
  "peek_loop now limit [] result = result"
| "peek_loop now limit (m # ms) result =
     (if IsExpired now m then peek_loop now limit ms result
      else if limit > 0 \<and> int (length result) \<ge> limit then result
      else peek_loop now limit ms (result @ [m]))"

definition Peek ::
  "queue_sort \<Rightarrow> time \<Rightarrow> did \<Rightarrow> int \<Rightarrow> MemoryStore \<Rightarrow> queue_error + QueuedMessage list" where
  "Peek srt now d limit s =
     (if closed s then Inl ErrQueueClosed
      else if mlist (queues s) d = [] then Inr []
      else Inr (peek_loop now limit (srt (mlist (queues s) d)) []))"

definition Ack :: "queue_order \<Rightarrow> uuid \<Rightarrow> MemoryStore \<Rightarrow> queue_error + MemoryStore" where
  "Ack ord mid s =
     (if closed s then Inl ErrQueueClosed
      else case find_entry (\<lambda>m. qm_ID m = mid) (ord (queues s)) of
        None \<Rightarrow> Inl ErrNotFound
      | Some (d, i) \<Rightarrow> Inr (remove_message d i s))"

definition Nack ::
  "queue_order \<Rightarrow> time \<Rightarrow> uuid \<Rightarrow> string \<Rightarrow> MemoryStore \<Rightarrow> queue_error + MemoryStore" where
  "Nack ord now mid reason s =
     (if closed s then Inl ErrQueueClosed
      else case find_entry (\<lambda>m. qm_ID m = mid) (ord (queues s)) of
        None \<Rightarrow> Inl ErrNotFound
      | Some (d, i) \<Rightarrow>
          let m = mlist (queues s) d ! i;
              m' = m\<lparr>DeliveryAttempts := DeliveryAttempts m + 1, LastAttempt := Some now\<rparr>;
              s1 = s\<lparr>queues := mput d ((mlist (queues s) d)[i := m']) (queues s)\<rparr>
          in if MaxDeliveryAttempts (config s) > 0 \<and>
                DeliveryAttempts m' \<ge> MaxDeliveryAttempts (config s)
             then
               let s2 = (if EnableDLQ (config s)
                         then s1\<lparr>dlq := mput d (mlist (dlq s1) d @
                                [QueuedMessage.extend m' (DeadLetterMessage.fields reason now)]) (dlq s1)\<rparr>
                         else s1)
               in Inr (remove_message d i s2)
             else Inr s1)"

fun count_loop :: "time \<Rightarrow> QueuedMessage list \<Rightarrow> int \<Rightarrow> int" where
  "count_loop now [] n = n"
| "count_loop now (m # ms) n = count_loop now ms (if \<not> IsExpired now m then n + 1 else n)"

definition GetQueueSize :: "time \<Rightarrow> did \<Rightarrow> MemoryStore \<Rightarrow> queue_error + int" where
  "GetQueueSize now d s =
     (if closed s then Inl ErrQueueClosed else Inr (count_loop now (mlist (queues s) d) 0))"

fun dlq_loop :: "int \<Rightarrow> DeadLetterMessage list \<Rightarrow> DeadLetterMessage list \<Rightarrow> DeadLetterMessage list"
  where
  "dlq_loop limit [] result = result"
| "dlq_loop limit (m # ms) result =
     (if limit > 0 \<and> int (length result) \<ge> limit then result
      else dlq_loop limit ms (result @ [m]))"

definition GetDLQ :: "did \<Rightarrow> int \<Rightarrow> MemoryStore \<Rightarrow> queue_error + DeadLetterMessage list" where
  "GetDLQ d limit s =
     (if closed s then Inl ErrQueueClosed
      else if mlist (dlq s) d = [] then Inr []
      else Inr (dlq_loop limit (mlist (dlq s) d) []))"

fun cleanup_queue ::
  "time \<Rightarrow> QueuedMessage list \<Rightarrow> QueuedMessage list \<Rightarrow> int \<Rightarrow> int \<Rightarrow> QueuedMessage list \<times> int \<times> int"
  where
  "cleanup_queue now [] remaining removed tc = (remaining, removed, tc)"
| "cleanup_queue now (m # ms) remaining removed tc =
     (if IsExpired now m then cleanup_queue now ms remaining (removed + 1) (tc - 1)
      else cleanup_queue now ms (remaining @ [m]) removed tc)"

fun cleanup_loop ::
  "time \<Rightarrow> (did, QueuedMessage list) gomap \<Rightarrow> int \<Rightarrow> MemoryStore \<Rightarrow> int \<times> MemoryStore" where
  "cleanup_loop now [] removed s = (removed, s)"
| "cleanup_loop now ((d, q) # m) removed s =
     (let (remaining, removed', tc) = cleanup_queue now q [] removed (totalCount s)
      in cleanup_loop now m removed'
           (s\<lparr>queues := store_queue d remaining (queues s), totalCount := tc\<rparr>))"

definition Cleanup :: "queue_order \<Rightarrow> time \<Rightarrow> MemoryStore \<Rightarrow> queue_error + int \<times> MemoryStore" where
  "Cleanup ord now s =
     (if closed s then Inl ErrQueueClosed else Inr (cleanup_loop now (ord (queues s)) 0 s))"

definition Close :: "MemoryStore \<Rightarrow> MemoryStore" where
  "Close s = s\<lparr>closed := True, queues := [], dlq := []\<rparr>"

section \<open>Invariant\<close>

text \<open>
  The messages a store holds, and its invariant: the map's keys are distinct, every entry is
  a non-empty queue of messages for its key that respects the per-recipient limit, and
  \<open>totalCount\<close> is the number of messages held. A closed store holds nothing.
\<close>

definition pending :: "MemoryStore \<Rightarrow> QueuedMessage multiset" where
  "pending s = mvals (queues s)"

definition dead :: "MemoryStore \<Rightarrow> DeadLetterMessage multiset" where
  "dead s = mvals (dlq s)"

definition queue_ok :: "Config \<Rightarrow> did \<Rightarrow> QueuedMessage list \<Rightarrow> bool" where
  "queue_ok c d q \<longleftrightarrow> (\<forall>m \<in> set q. RecipientDID m = d) \<and>
     (MaxQueueSize c > 0 \<longrightarrow> int (length q) \<le> MaxQueueSize c)"

definition queues_ok :: "Config \<Rightarrow> (did, QueuedMessage list) gomap \<Rightarrow> bool" where
  "queues_ok c m \<longleftrightarrow> distinct (mkeys m) \<and> (\<forall>(d, q) \<in> set m. q \<noteq> [] \<and> queue_ok c d q)"

definition store_inv :: "MemoryStore \<Rightarrow> bool" where
  "store_inv s \<longleftrightarrow> distinct (mkeys (dlq s)) \<and> queues_ok (config s) (queues s) \<and>
     (\<not> closed s \<longrightarrow> totalCount s = int (size (pending s)))"

named_theorems queue_simps \<open>how the store's helpers act on its contents\<close>

lemma queue_ok_mlist: "queues_ok c m \<Longrightarrow> queue_ok c d (mlist m d)"
  by (auto simp: queues_ok_def mlist_def queue_ok_def split: option.splits dest!: map_of_SomeD)

lemma queues_ok_store:
  "queues_ok c m \<Longrightarrow> queue_ok c d q \<Longrightarrow> queues_ok c (store_queue d q m)"
  by (auto simp: queues_ok_def store_queue_def gomap)

lemma queues_ok_mput:
  "queues_ok c m \<Longrightarrow> queue_ok c d q \<Longrightarrow> q \<noteq> [] \<Longrightarrow> queues_ok c (mput d q m)"
  by (auto simp: queues_ok_def gomap)

lemma queues_ok_distinct: "queues_ok c m \<Longrightarrow> distinct (mkeys m)"
  by (simp add: queues_ok_def)

lemma queue_ok_subset:
  "queue_ok c d q \<Longrightarrow> set q' \<subseteq> set q \<Longrightarrow> length q' \<le> length q \<Longrightarrow> queue_ok c d q'"
  unfolding queue_ok_def by (meson dual_order.trans of_nat_le_iff subsetD)

lemma mvals_store [queue_simps]:
  "distinct (mkeys m) \<Longrightarrow> mvals (store_queue d q m) = mset q + mvals (mdel d m)"
  by (simp add: store_queue_def mvals_mput)

lemma mlist_store [queue_simps]: "mlist (store_queue d q m) d' = (if d = d' then q else mlist m d')"
  by (simp add: store_queue_def gomap)

lemma pending_remove_message:
  assumes "distinct (mkeys (queues s))" and "i < length (mlist (queues s) d)"
  shows "pending s = add_mset (mlist (queues s) d ! i) (pending (remove_message d i s))"
  using assms
  by (simp add: pending_def remove_message_def queue_simps mvals_mdel [of _ d]
      mset_delete_at [OF assms(2)])

lemma remove_message_frame [simp]:
  "config (remove_message d i s) = config s" "dlq (remove_message d i s) = dlq s"
  "closed (remove_message d i s) = closed s" "totalCount (remove_message d i s) = totalCount s - 1"
  by (simp_all add: remove_message_def)

lemma store_inv_remove_message:
  assumes inv: "store_inv s" and i: "i < length (mlist (queues s) d)"
  shows "store_inv (remove_message d i s)"
proof -
  let ?q = "mlist (queues s) d"
  from inv have ok: "queues_ok (config s) (queues s)" by (simp add: store_inv_def)
  have "queue_ok (config s) d (delete_at i ?q)"
    by (rule queue_ok_subset [OF queue_ok_mlist [OF ok] set_delete_at]) (use i in simp)
  with ok have "queues_ok (config s) (queues (remove_message d i s))"
    by (simp add: remove_message_def queues_ok_store)
  moreover have "size (pending s) = Suc (size (pending (remove_message d i s)))"
    using pending_remove_message [OF queues_ok_distinct [OF ok] i] by simp
  ultimately show ?thesis using inv by (auto simp: store_inv_def)
qed

section \<open>Eviction\<close>

text \<open>
  The two nested loops visit the positions of all messages; the scan keeps the first
  position with the least \<open>QueuedAt\<close>.
\<close>

fun positions :: "did \<Rightarrow> nat \<Rightarrow> QueuedMessage list \<Rightarrow> (time \<times> did \<times> nat) list" where
  "positions d i [] = []"
| "positions d i (m # ms) = (QueuedAt m, d, i) # positions d (Suc i) ms"

definition earlier ::
  "time \<times> did \<times> nat \<Rightarrow> (time \<times> did \<times> nat) option \<Rightarrow> (time \<times> did \<times> nat) option" where
  "earlier c best = (case best of None \<Rightarrow> Some c | Some b \<Rightarrow> if fst c < fst b then Some c else best)"

lemma scan_queue_fold: "scan_queue d i q best = fold earlier (positions d i q) best"
  by (induction d i q best rule: scan_queue.induct) (auto simp: earlier_def split: option.splits)

lemma scan_queues_fold:
  "scan_queues m best = fold earlier (concat (map (\<lambda>(d, q). positions d 0 q) m)) best"
  by (induction m best rule: scan_queues.induct) (simp_all add: scan_queue_fold)

lemma fold_earlier_Some:
  "fold earlier cs (Some b) = Some c \<Longrightarrow>
     c \<in> insert b (set cs) \<and> (\<forall>x \<in> insert b (set cs). fst c \<le> fst x)"
  by (induction cs arbitrary: b) (fastforce simp: earlier_def split: if_splits)+

lemma fold_earlier_total: "\<exists>c. fold earlier cs (Some b) = Some c"
  by (induction cs arbitrary: b) (auto simp: earlier_def)

lemma fold_earlier_Cons: "fold earlier (b # cs) None = fold earlier cs (Some b)"
  by (simp add: earlier_def)

lemma fold_earlier_None: "fold earlier cs None = None \<longleftrightarrow> cs = []"
proof (cases cs)
  case (Cons b bs)
  then show ?thesis
    using fold_earlier_total [of bs b] by (simp only: fold_earlier_Cons) auto
qed simp

lemma fold_earlier_min:
  "fold earlier cs None = Some c \<Longrightarrow> c \<in> set cs \<and> (\<forall>x \<in> set cs. fst c \<le> fst x)"
proof (cases cs)
  case (Cons b bs)
  assume "fold earlier cs None = Some c"
  with Cons have "fold earlier bs (Some b) = Some c" by (simp only: fold_earlier_Cons)
  with Cons show ?thesis using fold_earlier_Some [of bs b c] by simp
qed simp

lemma set_positions:
  "set (positions d k q) = {(QueuedAt (q ! j), d, k + j) | j. j < length q}"
proof (induction q arbitrary: k)
  case Nil
  then show ?case by simp
next
  case (Cons m q)
  show ?case
    by (auto simp: Cons.IH less_Suc_eq_0_disj)
qed

lemma scan_queues_None:
  "range_order ord \<Longrightarrow> scan_queues (ord m) None = None \<longleftrightarrow> mvals m = {#}"
proof -
  assume ord: "range_order ord"
  have "positions d 0 q = [] \<longleftrightarrow> q = []" for d q by (cases q) simp_all
  then have "scan_queues (ord m) None = None \<longleftrightarrow> mvals (ord m) = {#}"
    by (auto simp: scan_queues_fold fold_earlier_None mvals_def)
  with ord show ?thesis by (simp add: mvals_order)
qed

lemma scan_queues_Some:
  assumes ord: "range_order ord" and dis: "distinct (mkeys m)"
    and scan: "scan_queues (ord m) None = Some (t, d, i)"
  shows "i < length (mlist m d)" and "QueuedAt (mlist m d ! i) = t"
    and "\<forall>x \<in># mvals m. t \<le> QueuedAt x"
proof -
  let ?cs = "concat (map (\<lambda>(d, q). positions d 0 q) (ord m))"
  have min: "(t, d, i) \<in> set ?cs" "\<forall>c \<in> set ?cs. t \<le> fst c"
    using fold_earlier_min [of ?cs] scan by (auto simp: scan_queues_fold)
  then obtain q where q: "(d, q) \<in> set m" "i < length q" "QueuedAt (q ! i) = t"
    using ord by (auto simp: set_positions range_order_set)
  then show "i < length (mlist m d)" and "QueuedAt (mlist m d ! i) = t"
    using dis by (simp_all add: mlist_in)
  show "\<forall>x \<in># mvals m. t \<le> QueuedAt x"
  proof
    fix x assume "x \<in># mvals m"
    then obtain k q j where "(k, q) \<in> set m" "j < length q" "x = q ! j"
      by (auto simp: in_mvals in_set_conv_nth)
    then have "(QueuedAt x, k, j) \<in> set ?cs"
      using ord by (force simp: set_positions range_order_set)
    with min(2) show "t \<le> QueuedAt x" by force
  qed
qed

lemma evictOldestLocked_frame [simp]:
  "config (evictOldestLocked ord s) = config s" "dlq (evictOldestLocked ord s) = dlq s"
  "closed (evictOldestLocked ord s) = closed s"
  by (auto simp: evictOldestLocked_def split: option.splits)

lemma evictOldestLocked_cases:
  assumes "range_order ord" and "store_inv s"
  obtains "evictOldestLocked ord s = s" and "pending s = {#} \<or> mlist (queues s) [] \<noteq> []"
  | d i where "d \<noteq> []" and "i < length (mlist (queues s) d)"
    and "evictOldestLocked ord s = remove_message d i s"
    and "\<forall>x \<in># pending s. QueuedAt (mlist (queues s) d ! i) \<le> QueuedAt x"
proof (cases "scan_queues (ord (queues s)) None")
  case None
  with assms(1) show ?thesis
    by (intro that(1)) (simp_all add: evictOldestLocked_def pending_def scan_queues_None [symmetric])
next
  case (Some c)
  then obtain t d i where c: "scan_queues (ord (queues s)) None = Some (t, d, i)"
    by (cases c) auto
  have "distinct (mkeys (queues s))"
    using assms(2) by (simp add: store_inv_def queues_ok_def)
  note pos = scan_queues_Some [OF assms(1) this c]
  show ?thesis
  proof (cases "d = []")
    case True
    with c pos show ?thesis by (intro that(1)) (auto simp: evictOldestLocked_def)
  next
    case False
    with c pos show ?thesis
      by (intro that(2) [of d i]) (simp_all add: evictOldestLocked_def pending_def)
  qed
qed

lemma store_inv_evict: "range_order ord \<Longrightarrow> store_inv s \<Longrightarrow> store_inv (evictOldestLocked ord s)"
  by (erule (1) evictOldestLocked_cases) (simp_all add: store_inv_remove_message)

lemma store_inv_distinct: "store_inv s \<Longrightarrow> distinct (mkeys (queues s))"
  by (simp add: store_inv_def queues_ok_def)

lemma mlist_evict:
  "range_order ord \<Longrightarrow> store_inv s \<Longrightarrow>
     length (mlist (queues (evictOldestLocked ord s)) d) \<le> length (mlist (queues s) d)"
  by (erule (1) evictOldestLocked_cases)
    (auto simp: remove_message_def queue_simps)

section \<open>Enqueue\<close>

lemma append_message_frame [simp]:
  "config (append_message msg s) = config s" "dlq (append_message msg s) = dlq s"
  "closed (append_message msg s) = closed s" "totalCount (append_message msg s) = totalCount s + 1"
  by (simp_all add: append_message_def)

lemma pending_append_message:
  "distinct (mkeys (queues s)) \<Longrightarrow> pending (append_message msg s) = add_mset msg (pending s)"
  by (simp add: append_message_def pending_def mvals_mput mvals_mdel [of _ "RecipientDID msg"])

lemma store_inv_append_message:
  assumes "store_inv s" and "\<not> closed s"
    and "MaxQueueSize (config s) > 0 \<longrightarrow>
           int (length (mlist (queues s) (RecipientDID msg))) < MaxQueueSize (config s)"
  shows "store_inv (append_message msg s)"
proof -
  from assms(1) have ok: "queues_ok (config s) (queues s)" by (simp add: store_inv_def)
  have "queue_ok (config s) (RecipientDID msg) (mlist (queues s) (RecipientDID msg) @ [msg])"
    using queue_ok_mlist [OF ok, of "RecipientDID msg"] assms(3) by (auto simp: queue_ok_def)
  with ok have "queues_ok (config s) (queues (append_message msg s))"
    by (simp add: append_message_def queues_ok_mput)
  with assms pending_append_message [OF queues_ok_distinct [OF ok]] show ?thesis
    by (simp add: store_inv_def)
qed

lemma Enqueue_cases:
  assumes "Enqueue ord msg s = Inr s'"
  obtains s1 where "s1 = s \<or> s1 = evictOldestLocked ord s" and "s' = append_message msg s1"
    and "\<not> closed s"
    and "MaxQueueSize (config s) > 0 \<longrightarrow>
           int (length (mlist (queues s) (RecipientDID msg))) < MaxQueueSize (config s)"
    and "MaxTotalMessages (config s) > 0 \<and> totalCount s \<ge> MaxTotalMessages (config s) \<longrightarrow>
           s1 = evictOldestLocked ord s"
    and "\<not> (MaxTotalMessages (config s) > 0 \<and> totalCount s \<ge> MaxTotalMessages (config s)) \<longrightarrow> s1 = s"
  using assms that [of "if MaxTotalMessages (config s) > 0 \<and> totalCount s \<ge> MaxTotalMessages (config s)
                  then evictOldestLocked ord s else s"]
  by (auto simp: Enqueue_def Let_def split: if_splits)

lemma Enqueue_inv:
  assumes ord: "range_order ord" and inv: "store_inv s" and enq: "Enqueue ord msg s = Inr s'"
  shows "store_inv s'"
proof -
  from enq obtain s1 where s1: "s1 = s \<or> s1 = evictOldestLocked ord s"
    and s': "s' = append_message msg s1" and "\<not> closed s"
    and len: "MaxQueueSize (config s) > 0 \<longrightarrow>
           int (length (mlist (queues s) (RecipientDID msg))) < MaxQueueSize (config s)"
    by (rule Enqueue_cases)
  from s1 ord inv have "store_inv s1" by (auto simp: store_inv_evict)
  moreover from s1 have "length (mlist (queues s1) (RecipientDID msg))
      \<le> length (mlist (queues s) (RecipientDID msg))"
    using mlist_evict [OF ord inv] by auto
  moreover from s1 have "config s1 = config s" "closed s1 = closed s" by auto
  ultimately show ?thesis
    unfolding s' using len \<open>\<not> closed s\<close> by (intro store_inv_append_message) auto
qed

text \<open>A successful \<open>Enqueue\<close> adds the message and drops at most one other, an oldest one.\<close>

lemma Enqueue_pending:
  assumes ord: "range_order ord" and inv: "store_inv s" and enq: "Enqueue ord msg s = Inr s'"
  shows "pending s' = add_mset msg (pending s) \<or>
    (\<exists>x. x \<in># pending s \<and> (\<forall>y \<in># pending s. QueuedAt x \<le> QueuedAt y) \<and>
       pending s' = add_mset msg (pending s - {#x#}))"
  using enq
proof (rule Enqueue_cases)
  fix s1 assume s1: "s1 = s \<or> s1 = evictOldestLocked ord s" and s': "s' = append_message msg s1"
  have dis: "distinct (mkeys (queues s))" "distinct (mkeys (queues s1))"
    using s1 inv ord by (auto simp: store_inv_distinct store_inv_evict)
  have p: "pending s' = add_mset msg (pending s1)"
    using dis(2) by (simp add: s' pending_append_message)
  from s1 show ?thesis
  proof
    assume "s1 = s" with p show ?thesis by simp
  next
    assume ev: "s1 = evictOldestLocked ord s"
    from ord inv show ?thesis
    proof (cases rule: evictOldestLocked_cases)
      case 1 with p ev show ?thesis by simp
    next
      case (2 d i)
      let ?x = "mlist (queues s) d ! i"
      have "pending s = add_mset ?x (pending s1)"
        using pending_remove_message [OF dis(1) 2(2)] 2(3) ev by simp
      with p 2(4) show ?thesis by (intro disjI2 exI [of _ ?x]) simp
    qed
  qed
qed

text \<open>The global limit holds after \<open>Enqueue\<close> as long as no message has the empty recipient.\<close>

definition within_total :: "MemoryStore \<Rightarrow> bool" where
  "within_total s \<longleftrightarrow> MaxTotalMessages (config s) > 0 \<longrightarrow> totalCount s \<le> MaxTotalMessages (config s)"

lemma Enqueue_within_total:
  assumes ord: "range_order ord" and inv: "store_inv s" and enq: "Enqueue ord msg s = Inr s'"
    and tot: "within_total s" and ne: "mlist (queues s) [] = []"
  shows "within_total s'"
  using enq
proof (rule Enqueue_cases)
  fix s1 assume s': "s' = append_message msg s1" and "\<not> closed s"
    and full: "MaxTotalMessages (config s) > 0 \<and> totalCount s \<ge> MaxTotalMessages (config s) \<longrightarrow>
           s1 = evictOldestLocked ord s"
    and room: "\<not> (MaxTotalMessages (config s) > 0 \<and> totalCount s \<ge> MaxTotalMessages (config s))
           \<longrightarrow> s1 = s"
  show ?thesis
  proof (cases "MaxTotalMessages (config s) > 0 \<and> totalCount s \<ge> MaxTotalMessages (config s)")
    case True
    with full have s1: "s1 = evictOldestLocked ord s" by simp
    have "pending s \<noteq> {#}" using True inv \<open>\<not> closed s\<close> by (auto simp: store_inv_def)
    with ord inv have "totalCount s1 = totalCount s - 1"
      unfolding s1 by (cases rule: evictOldestLocked_cases) (use ne in auto)
    with tot show ?thesis by (auto simp: within_total_def s' s1)
  next
    case False
    with room show ?thesis by (auto simp: within_total_def s')
  qed
qed

section \<open>Dequeue and Peek\<close>

abbreviation live :: "time \<Rightarrow> QueuedMessage list \<Rightarrow> QueuedMessage list" where
  "live now q \<equiv> filter (\<lambda>m. \<not> IsExpired now m) q"

definition take_limit :: "int \<Rightarrow> 'a list \<Rightarrow> 'a list" where
  "take_limit limit xs = (if limit > 0 then take (nat limit) xs else xs)"

definition drop_limit :: "int \<Rightarrow> 'a list \<Rightarrow> 'a list" where
  "drop_limit limit xs = (if limit > 0 then drop (nat limit) xs else [])"

lemma take_drop_limit: "take_limit limit xs @ drop_limit limit xs = xs"
  by (simp add: take_limit_def drop_limit_def)

lemma mset_take_drop_limit: "mset (take_limit limit xs) + mset (drop_limit limit xs) = mset xs"
  by (metis mset_append take_drop_limit)

lemma dequeue_loop_full:
  "limit > 0 \<Longrightarrow> int (length res) \<ge> limit \<Longrightarrow> dequeue_loop now limit q res rem = (res, rem @ q)"
  by (induction q arbitrary: rem) auto

lemma dequeue_loop_result:
  "limit > 0 \<Longrightarrow> int (length res) \<le> limit \<Longrightarrow>
     fst (dequeue_loop now limit q res rem) = res @ take (nat limit - length res) (live now q)"
proof (induction q arbitrary: res rem)
  case (Cons m q)
  show ?case
  proof (cases "int (length res) \<ge> limit")
    case True
    with Cons.prems show ?thesis
      by (simp add: dequeue_loop_full del: dequeue_loop.simps)
  next
    case False
    then have "nat limit - length res = Suc (nat limit - Suc (length res))"
      using Cons.prems by simp
    with False Cons show ?thesis by simp
  qed
qed simp

lemma dequeue_loop_nolimit:
  "\<not> limit > 0 \<Longrightarrow> fst (dequeue_loop now limit q res rem) = res @ live now q"
  by (induction q arbitrary: res rem) auto

lemma dequeue_loop_mset:
  "dequeue_loop now limit q res rem = (r, rm) \<Longrightarrow> mset r + mset rm = mset q + mset res + mset rem"
  by (induction q arbitrary: res rem) (auto split: if_splits)

lemma dequeue_loop_spec:
  assumes "dequeue_loop now limit q [] [] = (r, rm)"
  shows "r = take_limit limit (live now q)" and "mset r + mset rm = mset q"
    and "mset rm = mset (filter (IsExpired now) q) + mset (drop_limit limit (live now q))"
proof -
  show r: "r = take_limit limit (live now q)"
    using assms dequeue_loop_result [of limit "[]" now q "[]"]
      dequeue_loop_nolimit [of limit now q "[]" "[]"]
    by (cases "limit > 0") (auto simp: take_limit_def)
  show all: "mset r + mset rm = mset q"
    using dequeue_loop_mset [OF assms] by simp
  have "mset q = mset (filter (IsExpired now) q) + mset (live now q)"
    by (metis add.commute mset_filter_parts)
  also have "mset (live now q) = mset r + mset (drop_limit limit (live now q))"
    by (simp only: r mset_take_drop_limit)
  finally show "mset rm = mset (filter (IsExpired now) q) + mset (drop_limit limit (live now q))"
    using all by (metis add.left_commute add_left_cancel)
qed

lemma Dequeue_cases:
  assumes "Dequeue srt now d limit s = Inr (r, s')"
  obtains "r = []" and "s' = s" and "mlist (queues s) d = []" and "\<not> closed s"
  | rm where "\<not> closed s" and "dequeue_loop now limit (srt (mlist (queues s) d)) [] [] = (r, rm)"
    and "s' = s\<lparr>totalCount := totalCount s - int (length r),
               queues := store_queue d rm (queues s)\<rparr>"
  using assms by (auto simp: Dequeue_def split: if_splits prod.splits)

lemma Dequeue_conserves:
  assumes srt: "sort_func QueuedAt srt" and inv: "store_inv s"
    and deq: "Dequeue srt now d limit s = Inr (r, s')"
  shows "store_inv s'" and "pending s = mset r + pending s'"
proof -
  from deq show "pending s = mset r + pending s'"
  proof (cases rule: Dequeue_cases)
    case (2 rm)
    have "pending s = mset (mlist (queues s) d) + mvals (mdel d (queues s))"
      unfolding pending_def by (rule mvals_mdel) (rule store_inv_distinct [OF inv])
    also have "mset (mlist (queues s) d) = mset r + mset rm"
      using dequeue_loop_spec(2) [OF 2(2)] sort_func_mset [OF srt] by simp
    finally show ?thesis
      using 2(3) store_inv_distinct [OF inv] by (simp add: pending_def queue_simps)
  qed simp
  then have size: "int (size (pending s)) = int (length r) + int (size (pending s'))" by simp
  from deq show "store_inv s'"
  proof (cases rule: Dequeue_cases)
    case (2 rm)
    have ok: "queues_ok (config s) (queues s)" using inv by (simp add: store_inv_def)
    have ms: "mset r + mset rm = mset (mlist (queues s) d)"
      using dequeue_loop_spec(2) [OF 2(2)] sort_func_mset [OF srt] by simp
    then have "set rm \<subseteq> set (mlist (queues s) d)"
      by (metis set_mset_mono mset_subset_eq_add_right set_mset_mset)
    moreover have "length rm \<le> length (mlist (queues s) d)"
      using arg_cong [OF ms, of size] by simp
    ultimately have "queue_ok (config s) d rm" by (rule queue_ok_subset [OF queue_ok_mlist [OF ok]])
    with inv ok size 2 show ?thesis
      by (simp add: store_inv_def queues_ok_store)
  qed (use inv in simp)
qed

text \<open>
  The result is the \<open>limit\<close> oldest live messages for the recipient, oldest first; the live
  messages left behind are none of them older.
\<close>

lemma Dequeue_oldest:
  assumes srt: "sort_func QueuedAt srt" and deq: "Dequeue srt now d limit s = Inr (r, s')"
  shows "r = take_limit limit (live now (srt (mlist (queues s) d)))"
    and "sorted (map QueuedAt r)"
    and "\<forall>m \<in> set r. \<not> IsExpired now m"
    and "\<forall>m \<in> set r. \<forall>m' \<in> set (mlist (queues s') d). IsExpired now m' \<or> QueuedAt m \<le> QueuedAt m'"
proof -
  let ?l = "live now (srt (mlist (queues s) d))"
  have sorted: "sorted (map QueuedAt ?l)"
    using sort_func_sorted [OF srt] by (rule sorted_filter)
  from deq show r: "r = take_limit limit ?l"
  proof (cases rule: Dequeue_cases)
    case 1
    then have "srt (mlist (queues s) d) = []"
      using sort_func_length [OF srt, of "mlist (queues s) d"] by simp
    with 1 show ?thesis by (simp add: take_limit_def)
  next
    case (2 rm)
    show ?thesis by (rule dequeue_loop_spec(1) [OF 2(2)])
  qed
  with sorted show "sorted (map QueuedAt r)"
    by (simp add: take_limit_def take_map [symmetric])
  show "\<forall>m \<in> set r. \<not> IsExpired now m"
    using r by (auto simp: take_limit_def dest: in_set_takeD split: if_splits)
  have order: "QueuedAt m \<le> QueuedAt m'" if "m \<in> set r" "m' \<in> set (drop_limit limit ?l)" for m m'
  proof -
    have "sorted (map QueuedAt (r @ drop_limit limit ?l))"
      using sorted by (simp only: r take_drop_limit)
    then show ?thesis using that by (auto simp: sorted_append)
  qed
  from deq show "\<forall>m \<in> set r. \<forall>m' \<in> set (mlist (queues s') d).
      IsExpired now m' \<or> QueuedAt m \<le> QueuedAt m'"
  proof (cases rule: Dequeue_cases)
    case (2 rm)
    have "set rm \<subseteq> {m. IsExpired now m} \<union> set (drop_limit limit ?l)"
      using dequeue_loop_spec(3) [OF 2(2), THEN arg_cong, of set_mset] by auto
    with 2(3) order show ?thesis by (auto simp: queue_simps)
  qed simp
qed

lemma peek_loop_result:
  "limit > 0 \<Longrightarrow> int (length res) \<le> limit \<Longrightarrow>
     peek_loop now limit q res = res @ take (nat limit - length res) (live now q)"
proof (induction q arbitrary: res)
  case (Cons m q)
  show ?case
  proof (cases "int (length res) \<ge> limit")
    case True
    with Cons.prems Cons.IH [of res] show ?thesis by simp
  next
    case False
    then have "nat limit - length res = Suc (nat limit - Suc (length res))"
      using Cons.prems by simp
    with False Cons show ?thesis by simp
  qed
qed simp

lemma peek_loop_nolimit: "\<not> limit > 0 \<Longrightarrow> peek_loop now limit q res = res @ live now q"
  by (induction q arbitrary: res) auto

lemma Peek_Dequeue:
  assumes "sort_func QueuedAt srt" and deq: "Dequeue srt now d limit s = Inr (r, s')"
  shows "Peek srt now d limit s = Inr r"
proof -
  have "peek_loop now limit q [] = take_limit limit (live now q)" for q
    using peek_loop_result [of limit "[]" now q] peek_loop_nolimit [of limit now q "[]"]
    by (cases "limit > 0") (auto simp: take_limit_def)
  with Dequeue_oldest(1) [OF assms] deq show ?thesis
    by (auto simp: Peek_def Dequeue_def split: if_splits)
qed

section \<open>Ack and Nack\<close>

lemma Ack_not_found:
  "range_order ord \<Longrightarrow> \<not> closed s \<Longrightarrow>
     Ack ord mid s = Inl ErrNotFound \<longleftrightarrow> (\<forall>m \<in># pending s. qm_ID m \<noteq> mid)"
  by (auto simp: Ack_def pending_def find_entry_order_None [symmetric] split: option.splits)

lemma find_message:
  assumes "range_order ord" and "store_inv s"
    and "find_entry (\<lambda>m. qm_ID m = mid) (ord (queues s)) = Some (d, i)"
  shows "i < length (mlist (queues s) d)" and "qm_ID (mlist (queues s) d ! i) = mid"
    and "mlist (queues s) d ! i \<in># pending s"
proof -
  note * = find_entry_order [OF assms(1) store_inv_distinct [OF assms(2)] assms(3)]
  show "i < length (mlist (queues s) d)" "qm_ID (mlist (queues s) d ! i) = mid"
    using *(2,3) by simp_all
  then show "mlist (queues s) d ! i \<in># pending s"
    unfolding pending_def using set_mlist_mvals [OF store_inv_distinct [OF assms(2)], of d]
    by (meson nth_mem subsetD)
qed

lemma Ack_removes:
  assumes ord: "range_order ord" and inv: "store_inv s" and ack: "Ack ord mid s = Inr s'"
  shows "store_inv s'" and "\<exists>m. qm_ID m = mid \<and> pending s = add_mset m (pending s')"
    and "dead s' = dead s"
proof -
  obtain d i where fe: "find_entry (\<lambda>m. qm_ID m = mid) (ord (queues s)) = Some (d, i)"
    and s': "s' = remove_message d i s"
    using ack by (auto simp: Ack_def split: if_splits option.splits)
  note fm = find_message [OF ord inv fe]
  show "store_inv s'" unfolding s' using inv fm(1) by (rule store_inv_remove_message)
  show "\<exists>m. qm_ID m = mid \<and> pending s = add_mset m (pending s')"
    using pending_remove_message [OF store_inv_distinct [OF inv] fm(1)] fm(2) s' by blast
  show "dead s' = dead s" by (simp add: s' dead_def)
qed

text \<open>One failed delivery: the attempt is counted and its time noted.\<close>

definition attempted :: "time \<Rightarrow> QueuedMessage \<Rightarrow> QueuedMessage" where
  "attempted now m = m\<lparr>DeliveryAttempts := DeliveryAttempts m + 1, LastAttempt := Some now\<rparr>"

definition exhausted :: "Config \<Rightarrow> QueuedMessage \<Rightarrow> bool" where
  "exhausted c m \<longleftrightarrow> MaxDeliveryAttempts c > 0 \<and> DeliveryAttempts m \<ge> MaxDeliveryAttempts c"

definition retry_in_place :: "time \<Rightarrow> did \<Rightarrow> nat \<Rightarrow> MemoryStore \<Rightarrow> MemoryStore" where
  "retry_in_place now d i s =
     s\<lparr>queues := mput d ((mlist (queues s) d)[i := attempted now (mlist (queues s) d ! i)]) (queues s)\<rparr>"

definition bury :: "time \<Rightarrow> string \<Rightarrow> did \<Rightarrow> QueuedMessage \<Rightarrow> MemoryStore \<Rightarrow> MemoryStore" where
  "bury now reason d m s =
     (if EnableDLQ (config s)
      then s\<lparr>dlq := mput d (mlist (dlq s) d @
             [QueuedMessage.extend m (DeadLetterMessage.fields reason now)]) (dlq s)\<rparr>
      else s)"

lemma Nack_cases:
  assumes "Nack ord now mid reason s = Inr s'"
  obtains d i where "\<not> closed s"
    and "find_entry (\<lambda>m. qm_ID m = mid) (ord (queues s)) = Some (d, i)"
    and "s' = (let m' = attempted now (mlist (queues s) d ! i); s1 = retry_in_place now d i s
           in if exhausted (config s) m' then remove_message d i (bury now reason d m' s1) else s1)"
  using assms
  by (auto simp: Nack_def Let_def attempted_def exhausted_def retry_in_place_def bury_def
      split: if_splits option.splits)

lemma retry_in_place_frame [simp]:
  "config (retry_in_place now d i s) = config s" "dlq (retry_in_place now d i s) = dlq s"
  "closed (retry_in_place now d i s) = closed s" "totalCount (retry_in_place now d i s) = totalCount s"
  by (simp_all add: retry_in_place_def)

lemma mlist_retry_in_place:
  "mlist (queues (retry_in_place now d i s)) d =
     (mlist (queues s) d)[i := attempted now (mlist (queues s) d ! i)]"
  by (simp add: retry_in_place_def gomap)

lemma pending_retry_in_place:
  assumes dis: "distinct (mkeys (queues s))" and i: "i < length (mlist (queues s) d)"
  shows "pending (retry_in_place now d i s) =
    add_mset (attempted now (mlist (queues s) d ! i)) (pending s - {#mlist (queues s) d ! i#})"
proof -
  let ?q = "mlist (queues s) d"
  have "mset (?q[i := attempted now (?q ! i)]) = add_mset (attempted now (?q ! i)) (mset ?q - {#?q ! i#})"
    using i by (rule mset_update)
  moreover have "?q ! i \<in># mset ?q" using i by simp
  ultimately show ?thesis
    using dis
    by (simp add: pending_def retry_in_place_def mvals_mput mvals_mdel [of "queues s" d])
qed

lemma store_inv_retry_in_place:
  assumes inv: "store_inv s" and i: "i < length (mlist (queues s) d)"
  shows "store_inv (retry_in_place now d i s)"
proof -
  let ?q = "mlist (queues s) d"
  have ok: "queues_ok (config s) (queues s)" using inv by (simp add: store_inv_def)
  have q: "queue_ok (config s) d ?q" by (rule queue_ok_mlist [OF ok])
  then have "RecipientDID (?q ! i) = d" using i by (simp add: queue_ok_def)
  then have "RecipientDID (attempted now (?q ! i)) = d" by (simp add: attempted_def)
  then have "queue_ok (config s) d (?q[i := attempted now (?q ! i)])"
    using q by (auto simp: queue_ok_def dest!: set_update_subset_insert [THEN subsetD])
  then have "queues_ok (config s) (queues (retry_in_place now d i s))"
    unfolding retry_in_place_def using ok i by (auto intro!: queues_ok_mput)
  moreover have "mlist (queues s) d ! i \<in># pending s"
    unfolding pending_def using set_mlist_mvals [OF store_inv_distinct [OF inv], of d] i
    by (meson nth_mem subsetD)
  then have "size (pending (retry_in_place now d i s)) = size (pending s)"
    using pending_retry_in_place [OF store_inv_distinct [OF inv] i] by (simp add: size_Suc_Diff1)
  ultimately show ?thesis using inv by (simp add: store_inv_def)
qed

lemma bury_frame [simp]:
  "config (bury now reason d m s) = config s" "queues (bury now reason d m s) = queues s"
  "closed (bury now reason d m s) = closed s" "totalCount (bury now reason d m s) = totalCount s"
  by (simp_all add: bury_def)

lemma pending_bury [simp]: "pending (bury now reason d m s) = pending s"
  by (simp add: pending_def)

lemma store_inv_bury: "store_inv s \<Longrightarrow> store_inv (bury now reason d m s)"
  by (simp add: store_inv_def) (simp add: bury_def gomap)

lemma dead_bury:
  "store_inv s \<Longrightarrow> dead (bury now reason d m s) =
     (if EnableDLQ (config s)
      then add_mset (QueuedMessage.extend m (DeadLetterMessage.fields reason now)) (dead s) else dead s)"
  by (simp add: dead_def bury_def store_inv_def mvals_mput mvals_mdel [of _ d])

lemma Nack_spec:
  assumes ord: "range_order ord" and inv: "store_inv s" and nack: "Nack ord now mid reason s = Inr s'"
  shows "store_inv s'"
    and "\<exists>m. m \<in># pending s \<and> qm_ID m = mid \<and>
      (if exhausted (config s) (attempted now m)
       then pending s' = pending s - {#m#} \<and>
         dead s' = (if EnableDLQ (config s)
           then add_mset (QueuedMessage.extend (attempted now m) (DeadLetterMessage.fields reason now)) (dead s)
           else dead s)
       else pending s' = add_mset (attempted now m) (pending s - {#m#}) \<and> dead s' = dead s)"
proof -
  from nack obtain d i where fe: "find_entry (\<lambda>m. qm_ID m = mid) (ord (queues s)) = Some (d, i)"
    and s': "s' = (let m' = attempted now (mlist (queues s) d ! i); s1 = retry_in_place now d i s
           in if exhausted (config s) m' then remove_message d i (bury now reason d m' s1) else s1)"
    by (rule Nack_cases)
  let ?m = "mlist (queues s) d ! i"
  let ?m' = "attempted now ?m"
  let ?s1 = "retry_in_place now d i s"
  let ?s2 = "bury now reason d ?m' ?s1"
  note fm = find_message [OF ord inv fe]
  have inv1: "store_inv ?s1" using inv fm(1) by (rule store_inv_retry_in_place)
  then have inv2: "store_inv ?s2" by (rule store_inv_bury)
  have i2: "i < length (mlist (queues ?s2) d)" using fm(1) by (simp add: mlist_retry_in_place)
  have p1: "pending ?s1 = add_mset ?m' (pending s - {#?m#})"
    using store_inv_distinct [OF inv] fm(1) by (rule pending_retry_in_place)
  have "mlist (queues ?s2) d ! i = ?m'" using fm(1) by (simp add: mlist_retry_in_place)
  then have p2: "pending (remove_message d i ?s2) = pending s - {#?m#}"
    using pending_remove_message [OF store_inv_distinct [OF inv2] i2] p1 by simp
  show "store_inv s'"
    using inv1 store_inv_remove_message [OF inv2 i2] by (auto simp: s' Let_def)
  show "\<exists>m. m \<in># pending s \<and> qm_ID m = mid \<and>
      (if exhausted (config s) (attempted now m)
       then pending s' = pending s - {#m#} \<and>
         dead s' = (if EnableDLQ (config s)
           then add_mset (QueuedMessage.extend (attempted now m) (DeadLetterMessage.fields reason now)) (dead s)
           else dead s)
       else pending s' = add_mset (attempted now m) (pending s - {#m#}) \<and> dead s' = dead s)"
    using fm p1 p2 dead_bury [OF inv1, of now reason d ?m']
    by (intro exI [of _ ?m]) (simp add: s' Let_def dead_def)
qed

section \<open>Counting and cleaning\<close>

lemma count_loop_eq: "count_loop now q n = n + int (length (live now q))"
  by (induction q arbitrary: n) auto

lemma cleanup_queue_eq:
  "cleanup_queue now q rem k tc =
     (rem @ live now q, k + int (length (filter (IsExpired now) q)),
      tc - int (length (filter (IsExpired now) q)))"
  by (induction q arbitrary: rem k tc) auto

lemma queue_ok_live: "queue_ok c d q \<Longrightarrow> queue_ok c d (live now q)"
  by (erule queue_ok_subset) auto

lemma cleanup_loop_spec:
  assumes "cleanup_loop now es k s = (k', s')" and "store_inv s" and "\<not> closed s"
    and "distinct (mkeys es)" and "\<forall>(d, q) \<in> set es. map_of (queues s) d = Some q"
  shows "store_inv s' \<and> pending s = pending s' + filter_mset (IsExpired now) (mvals es) \<and>
     k' = k + int (size (filter_mset (IsExpired now) (mvals es))) \<and>
     dead s' = dead s \<and> config s' = config s \<and> closed s' = closed s"
  using assms
proof (induction es arbitrary: k s)
  case Nil
  then show ?case by simp
next
  case (Cons e es)
  obtain d q where e: "e = (d, q)" by (cases e)
  let ?n = "length (filter (IsExpired now) q)"
  let ?s1 = "s\<lparr>queues := store_queue d (live now q) (queues s), totalCount := totalCount s - int ?n\<rparr>"
  have q: "mlist (queues s) d = q" using Cons.prems(5) by (simp add: e mlist_def)
  have ok: "queues_ok (config s) (queues s)" using Cons.prems(2) by (simp add: store_inv_def)
  have part: "mset q = mset (live now q) + mset (filter (IsExpired now) q)"
    by (simp only: mset_filter_parts)
  have "pending s = mset q + mvals (mdel d (queues s))"
    using mvals_mdel [OF queues_ok_distinct [OF ok], of d] q by (simp add: pending_def)
  moreover have "pending ?s1 = mset (live now q) + mvals (mdel d (queues s))"
    using queues_ok_distinct [OF ok] by (simp add: pending_def queue_simps)
  ultimately have p1: "pending s = pending ?s1 + mset (filter (IsExpired now) q)"
    by (simp only: part ac_simps)
  have "queue_ok (config s) d (live now q)"
    using queue_ok_mlist [OF ok, of d] q by (simp add: queue_ok_live)
  then have "queues_ok (config s) (queues ?s1)" using ok by (simp add: queues_ok_store)
  moreover have n: "int ?n = int (size (filter_mset (IsExpired now) (mset q)))"
    by (metis mset_filter size_mset)
  ultimately have inv1: "store_inv ?s1"
    using Cons.prems(2,3) arg_cong [OF p1, of size] by (simp add: store_inv_def)
  have rest: "\<forall>(d', q') \<in> set es. map_of (queues ?s1) d' = Some q'"
  proof clarify
    fix d' q' assume dq: "(d', q') \<in> set es"
    then have "d' \<noteq> d" using Cons.prems(4) by (force simp: e)
    with dq Cons.prems(5) show "map_of (queues ?s1) d' = Some q'"
      by (auto simp: store_queue_def gomap)
  qed
  have "cleanup_loop now es (k + int ?n) ?s1 = (k', s')"
    using Cons.prems(1) by (simp add: e cleanup_queue_eq)
  from Cons.IH [OF this inv1 _ _ rest] Cons.prems(3,4) p1 n
  show ?case by (simp add: e dead_def)
qed

lemma Cleanup_spec:
  assumes ord: "range_order ord" and inv: "store_inv s" and cl: "Cleanup ord now s = Inr (n, s')"
  shows "store_inv s'" and "pending s' = filter_mset (\<lambda>m. \<not> IsExpired now m) (pending s)"
    and "n = int (size (filter_mset (IsExpired now) (pending s)))" and "dead s' = dead s"
proof -
  have "\<not> closed s" and loop: "cleanup_loop now (ord (queues s)) 0 s = (n, s')"
    using cl by (auto simp: Cleanup_def split: if_splits)
  moreover have dis: "distinct (mkeys (ord (queues s)))"
    using ord store_inv_distinct [OF inv] by (simp add: range_order_distinct)
  moreover have "\<forall>(d, q) \<in> set (ord (queues s)). map_of (queues s) d = Some q"
    using ord store_inv_distinct [OF inv] by (auto simp: range_order_set)
  ultimately have "store_inv s' \<and> pending s = pending s' + filter_mset (IsExpired now) (mvals (ord (queues s))) \<and>
     n = 0 + int (size (filter_mset (IsExpired now) (mvals (ord (queues s))))) \<and>
     dead s' = dead s \<and> config s' = config s \<and> closed s' = closed s"
    using inv by (intro cleanup_loop_spec) auto
  then have *: "store_inv s'" "pending s = pending s' + filter_mset (IsExpired now) (pending s)"
     "n = int (size (filter_mset (IsExpired now) (pending s)))" "dead s' = dead s"
    using ord by (auto simp: mvals_order pending_def)
  then show "store_inv s'" "n = int (size (filter_mset (IsExpired now) (pending s)))" "dead s' = dead s"
    by simp_all
  have "pending s = filter_mset (\<lambda>m. \<not> IsExpired now m) (pending s) + filter_mset (IsExpired now) (pending s)"
    by (metis add.commute multiset_partition)
  with *(2) show "pending s' = filter_mset (\<lambda>m. \<not> IsExpired now m) (pending s)"
    by (metis add_right_cancel)
qed

lemma Close_inv: "store_inv s \<Longrightarrow> store_inv (Close s)"
  by (simp add: store_inv_def Close_def queues_ok_def)

section \<open>The Store interface\<close>

text \<open>
  A call of one of the interface's state-changing methods. \<open>run_calls\<close> is a client that
  makes a sequence of calls, each in its own environment, and collects the messages the
  store hands out; the caller sees errors, the store's state does not change on them.
\<close>

datatype queue_call =
    CallEnqueue QueuedMessage
  | CallDequeue did int
  | CallAck uuid
  | CallNack uuid string
  | CallCleanup
  | CallClose

fun run_calls :: "('e \<Rightarrow> 'c \<Rightarrow> 's \<Rightarrow> 'o list \<times> 's) \<Rightarrow> ('e \<times> 'c) list \<Rightarrow> 's \<Rightarrow> 'o list \<times> 's" where
  "run_calls call [] s = ([], s)"
| "run_calls call ((e, c) # cs) s =
     (let (out, s1) = call e c s; (outs, s2) = run_calls call cs s1 in (out @ outs, s2))"

fun offered :: "('e \<times> queue_call) list \<Rightarrow> uuid multiset" where
  "offered [] = {#}"
| "offered ((e, CallEnqueue m) # cs) = add_mset (qm_ID m) (offered cs)"
| "offered (_ # cs) = offered cs"

locale message_store =
  fixes call :: "'e \<Rightarrow> queue_call \<Rightarrow> 's \<Rightarrow> QueuedMessage list \<times> 's"
    and held :: "'s \<Rightarrow> QueuedMessage multiset"
    and buried :: "'s \<Rightarrow> uuid multiset"
    and inv :: "'s \<Rightarrow> bool"
    and env_ok :: "'e \<Rightarrow> bool"
  assumes call_inv: "env_ok e \<Longrightarrow> inv s \<Longrightarrow> inv (snd (call e c s))"
    and enqueue_law: "env_ok e \<Longrightarrow> inv s \<Longrightarrow> call e (CallEnqueue m) s = (out, s') \<Longrightarrow>
      out = [] \<and> held s' \<subseteq># add_mset m (held s) \<and> buried s' = buried s"
    and dequeue_law: "env_ok e \<Longrightarrow> inv s \<Longrightarrow> call e (CallDequeue d l) s = (out, s') \<Longrightarrow>
      held s = mset out + held s' \<and> buried s' = buried s"
    and ack_law: "env_ok e \<Longrightarrow> inv s \<Longrightarrow> call e (CallAck i) s = (out, s') \<Longrightarrow>
      out = [] \<and> held s' \<subseteq># held s \<and> buried s' = buried s"
    and nack_law: "env_ok e \<Longrightarrow> inv s \<Longrightarrow> call e (CallNack i r) s = (out, s') \<Longrightarrow>
      out = [] \<and> image_mset qm_ID (held s') + buried s' \<subseteq># image_mset qm_ID (held s) + buried s"
    and cleanup_law: "env_ok e \<Longrightarrow> inv s \<Longrightarrow> call e CallCleanup s = (out, s') \<Longrightarrow>
      out = [] \<and> held s' \<subseteq># held s \<and> buried s' = buried s"
    and close_law: "env_ok e \<Longrightarrow> inv s \<Longrightarrow> call e CallClose s = (out, s') \<Longrightarrow>
      out = [] \<and> held s' = {#} \<and> buried s' \<subseteq># buried s"
begin

abbreviation ids :: "QueuedMessage multiset \<Rightarrow> uuid multiset" where
  "ids M \<equiv> image_mset qm_ID M"

lemma call_ids:
  assumes "env_ok e" and "inv s" and "call e c s = (out, s')"
  shows "ids (mset out) + ids (held s') + buried s' \<subseteq># offered [(e, c)] + ids (held s) + buried s"
proof (cases c)
  case (CallEnqueue m)
  with assms enqueue_law [of e s m] have "out = []" "held s' \<subseteq># add_mset m (held s)" "buried s' = buried s"
    by auto
  with CallEnqueue show ?thesis
    using image_mset_subseteq_mono [of "held s'" "add_mset m (held s)" qm_ID] by simp
next
  case (CallDequeue d l)
  with assms dequeue_law [of e s d l] show ?thesis by (auto simp: image_mset_union)
next
  case (CallAck i)
  with assms ack_law [of e s i] show ?thesis by (auto intro: image_mset_subseteq_mono)
next
  case (CallNack i r)
  with assms nack_law [of e s i r] show ?thesis by (auto simp: ac_simps)
next
  case CallCleanup
  with assms cleanup_law [of e s] show ?thesis by (auto intro: image_mset_subseteq_mono)
next
  case CallClose
  with assms close_law [of e s] show ?thesis by (auto intro: subset_mset.add_increasing)
qed

lemma offered_Cons: "offered (x # cs) = offered [x] + offered cs"
  by (cases x; cases "snd x") auto

lemma run_calls_ids:
  assumes "\<forall>(e, c) \<in> set cs. env_ok e" and "inv s" and "run_calls call cs s = (outs, s')"
  shows "inv s' \<and> ids (mset outs) + ids (held s') + buried s' \<subseteq># offered cs + ids (held s) + buried s"
  using assms
proof (induction cs arbitrary: s outs)
  case Nil
  then show ?case by simp
next
  case (Cons x cs)
  obtain e c where x: "x = (e, c)" by (cases x)
  obtain out s1 where c1: "call e c s = (out, s1)" by (cases "call e c s")
  obtain outs' where c2: "run_calls call cs s1 = (outs', s')" and outs: "outs = out @ outs'"
    using Cons.prems(3) by (auto simp: x c1 split: prod.splits)
  have "inv s1" using call_inv [of e s c] Cons.prems(1,2) by (simp add: x c1)
  with Cons.IH [OF _ _ c2] Cons.prems(1)
  have IH: "inv s'" "ids (mset outs') + ids (held s') + buried s' \<subseteq># offered cs + ids (held s1) + buried s1"
    by auto
  have "ids (mset out) + ids (held s1) + buried s1 \<subseteq># offered [x] + ids (held s) + buried s"
    using call_ids [OF _ Cons.prems(2) c1] Cons.prems(1) by (simp add: x)
  from subset_mset.add_mono [OF this IH(2)]
  have "(ids (held s1) + buried s1) + (ids (mset outs) + ids (held s') + buried s')
      \<subseteq># (ids (held s1) + buried s1) + (offered (x # cs) + ids (held s) + buried s)"
    by (simp add: outs offered_Cons [of x cs] image_mset_union ac_simps)
  with IH(1) show ?case by (simp only: mset_subset_eq_mono_add_left_cancel)
qed

end

section \<open>The in-memory store implements the interface\<close>

record queue_env =
  env_order :: queue_order
  env_sort :: queue_sort
  env_now :: time

definition queue_env_ok :: "queue_env \<Rightarrow> bool" where
  "queue_env_ok e \<longleftrightarrow> range_order (env_order e) \<and> sort_func QueuedAt (env_sort e)"

fun memory_call :: "queue_env \<Rightarrow> queue_call \<Rightarrow> MemoryStore \<Rightarrow> QueuedMessage list \<times> MemoryStore" where
  "memory_call e (CallEnqueue m) s =
     (case Enqueue (env_order e) m s of Inl _ \<Rightarrow> ([], s) | Inr s' \<Rightarrow> ([], s'))"
| "memory_call e (CallDequeue d l) s =
     (case Dequeue (env_sort e) (env_now e) d l s of Inl _ \<Rightarrow> ([], s) | Inr r \<Rightarrow> r)"
| "memory_call e (CallAck i) s =
     (case Ack (env_order e) i s of Inl _ \<Rightarrow> ([], s) | Inr s' \<Rightarrow> ([], s'))"
| "memory_call e (CallNack i r) s =
     (case Nack (env_order e) (env_now e) i r s of Inl _ \<Rightarrow> ([], s) | Inr s' \<Rightarrow> ([], s'))"
| "memory_call e CallCleanup s =
     (case Cleanup (env_order e) (env_now e) s of Inl _ \<Rightarrow> ([], s) | Inr (_, s') \<Rightarrow> ([], s'))"
| "memory_call e CallClose s = ([], Close s)"

definition dead_ids :: "MemoryStore \<Rightarrow> uuid multiset" where
  "dead_ids s = image_mset qm_ID (dead s)"

lemma Dequeue_dead: "Dequeue srt now d l s = Inr (r, s') \<Longrightarrow> dead s' = dead s"
  by (erule Dequeue_cases) (auto simp: dead_def)

lemma Enqueue_dead: "Enqueue ord m s = Inr s' \<Longrightarrow> dead s' = dead s"
  by (erule Enqueue_cases) (auto simp: dead_def)

lemma Enqueue_subset:
  assumes "range_order ord" and "store_inv s" and "Enqueue ord m s = Inr s'"
  shows "pending s' \<subseteq># add_mset m (pending s)"
  using Enqueue_pending [OF assms] by auto

lemma Nack_ids:
  assumes "range_order ord" and "store_inv s" and "Nack ord now i r s = Inr s'"
  shows "image_mset qm_ID (pending s') + dead_ids s' \<subseteq># image_mset qm_ID (pending s) + dead_ids s"
proof -
  from Nack_spec(2) [OF assms] obtain m where m: "m \<in># pending s" "qm_ID m = i"
    and upd: "if exhausted (config s) (attempted now m)
       then pending s' = pending s - {#m#} \<and>
         dead s' = (if EnableDLQ (config s)
           then add_mset (QueuedMessage.extend (attempted now m) (DeadLetterMessage.fields r now)) (dead s)
           else dead s)
       else pending s' = add_mset (attempted now m) (pending s - {#m#}) \<and> dead s' = dead s"
    by blast
  define P where "P = pending s - {#m#}"
  have P: "pending s = add_mset m P" using m(1) by (simp add: P_def)
  have "qm_ID (QueuedMessage.extend (attempted now m) (DeadLetterMessage.fields r now)) = qm_ID m"
    by (simp add: QueuedMessage.defs attempted_def)
  moreover have "qm_ID (attempted now m) = qm_ID m" by (simp add: attempted_def)
  ultimately show ?thesis
    using upd unfolding P_def [symmetric] dead_ids_def P
    by (auto split: if_splits)
qed

lemma memory_call_inv:
  assumes "queue_env_ok e" and "store_inv s"
  shows "store_inv (snd (memory_call e c s))"
  using assms
  by (cases c) (auto simp: queue_env_ok_def Close_inv split: sum.splits
      intro: Enqueue_inv Dequeue_conserves(1) Ack_removes(1) Nack_spec(1) Cleanup_spec(1))

interpretation memq: message_store memory_call pending dead_ids store_inv queue_env_ok
proof (unfold_locales, goal_cases)
  case (1 e s c)
  then show ?case by (rule memory_call_inv)
next
  case (2 e s m out s')
  then show ?case
    by (auto simp: queue_env_ok_def dead_ids_def Enqueue_dead split: sum.splits dest: Enqueue_subset)
next
  case (3 e s d l out s')
  then show ?case
    using Dequeue_conserves(2) [of "env_sort e" s "env_now e" d l out s']
    by (auto simp: queue_env_ok_def dead_ids_def Dequeue_dead split: sum.splits)
next
  case (4 e s i out s')
  then show ?case
    using Ack_removes(2,3) [of "env_order e" s i s']
    by (auto simp: queue_env_ok_def dead_ids_def split: sum.splits)
next
  case (5 e s i r out s')
  then show ?case
    using Nack_ids [of "env_order e" s "env_now e" i r s']
    by (auto simp: queue_env_ok_def split: sum.splits)
next
  case (6 e s out s')
  then show ?case
    using Cleanup_spec(2,4) [of "env_order e" s "env_now e" _ s']
    by (auto simp: queue_env_ok_def dead_ids_def split: sum.splits)
next
  case (7 e s out s')
  then show ?case by (auto simp: Close_def pending_def dead_ids_def dead_def)
qed

section \<open>Properties\<close>

text \<open>Concrete values for the witnesses.\<close>

definition sample_message :: "uuid \<Rightarrow> did \<Rightarrow> time \<Rightarrow> time \<Rightarrow> QueuedMessage" where
  "sample_message i d t e = \<lparr>qm_ID = i, RecipientDID = d, Data = [], QueuedAt = t, ExpiresAt = e,
     DeliveryAttempts = 0, LastAttempt = None, SenderDID = ''did:wba:a''\<rparr>"

definition sample_env :: queue_env where
  "sample_env = \<lparr>env_order = rev, env_sort = sort_key QueuedAt, env_now = 50\<rparr>"

definition sample_config :: Config where
  "sample_config = DefaultConfig\<lparr>MaxTotalMessages := 2, MaxDeliveryAttempts := 1\<rparr>"

definition sample_store :: MemoryStore where
  "sample_store = (NewMemoryStore sample_config)
     \<lparr>queues := [(''bob'', [sample_message 1 ''bob'' 7 100]),
                  (''eve'', [sample_message 2 ''eve'' 3 40])], totalCount := 2\<rparr>"

lemma sample_env_ok: "queue_env_ok sample_env"
  by (simp add: queue_env_ok_def sample_env_def range_order_rev sort_func_sort_key)

lemma sample_store_inv: "store_inv sample_store"
  by (simp add: store_inv_def sample_store_def NewMemoryStore_def queues_ok_def queue_ok_def
      sample_message_def pending_def sample_config_def DefaultConfig_def)

lemma NewMemoryStore_inv: "store_inv (NewMemoryStore c)"
  by (simp add: store_inv_def NewMemoryStore_def queues_ok_def pending_def)

text \<open>
  Property C13. No sequence of calls makes the in-memory store invent or duplicate a message:
  counted by message ID, the messages handed out by \<open>Dequeue\<close>, those still queued and those
  in the dead letter queue together are among the messages offered to \<open>Enqueue\<close>. This holds
  for every order in which Go ranges over the map, every sorting of equal timestamps and
  every clock.
\<close>

theorem queue_no_duplication:
  assumes "\<forall>(e, c) \<in> set cs. queue_env_ok e"
    and "run_calls memory_call cs (NewMemoryStore cfg) = (outs, s)"
  shows "store_inv s \<and>
    image_mset qm_ID (mset outs) + image_mset qm_ID (pending s) + dead_ids s \<subseteq># offered cs"
  using memq.run_calls_ids [OF assms(1) NewMemoryStore_inv assms(2)]
  by (simp add: NewMemoryStore_def pending_def dead_ids_def dead_def)

theorem queue_no_duplication_witness:
  "image_mset qm_ID (mset [sample_message 1 ''bob'' 7 100]) +
     image_mset qm_ID (pending (NewMemoryStore sample_config)) + dead_ids (NewMemoryStore sample_config)
   \<subseteq># offered [(sample_env, CallEnqueue (sample_message 1 ''bob'' 7 100)),
                 (sample_env, CallDequeue ''bob'' 10)]"
proof -
  let ?cs = "[(sample_env, CallEnqueue (sample_message 1 ''bob'' 7 100)),
              (sample_env, CallDequeue ''bob'' 10)]"
  have env: "\<forall>(e, c) \<in> set ?cs. queue_env_ok e" using sample_env_ok by simp
  have run: "run_calls memory_call ?cs (NewMemoryStore sample_config) =
      ([sample_message 1 ''bob'' 7 100], NewMemoryStore sample_config)"
    by (simp add: NewMemoryStore_def Enqueue_def Dequeue_def append_message_def mlist_def
        sample_message_def sample_env_def sample_config_def DefaultConfig_def IsExpired_def store_queue_def)
  show ?thesis using queue_no_duplication [OF env run] by (rule conjunct2)
qed

text \<open>
  Property C14. A successful \<open>Enqueue\<close> keeps the store's invariant (distinct recipients,
  per-recipient limit, \<open>totalCount\<close> equal to the number of messages), adds exactly the
  given message, and drops at most one other message, which is one of the oldest; as long
  as nothing is queued for the empty recipient the global limit holds afterwards.
\<close>

theorem Enqueue_contract:
  assumes "range_order ord" and "store_inv s" and "Enqueue ord msg s = Inr s'"
  shows "store_inv s' \<and>
    (pending s' = add_mset msg (pending s) \<or>
      (\<exists>x. x \<in># pending s \<and> (\<forall>y \<in># pending s. QueuedAt x \<le> QueuedAt y) \<and>
         pending s' = add_mset msg (pending s - {#x#}))) \<and>
    (within_total s \<and> mlist (queues s) [] = [] \<longrightarrow> within_total s')"
  using Enqueue_inv [OF assms] Enqueue_pending [OF assms] Enqueue_within_total [OF assms]
  by auto

theorem Enqueue_contract_witness:
  "(\<exists>s'. Enqueue rev (sample_message 3 ''bob'' 9 100) sample_store = Inr s' \<and> store_inv s' \<and>
     within_total s' \<and>
     (pending s' = add_mset (sample_message 3 ''bob'' 9 100) (pending sample_store) \<or>
      (\<exists>x. x \<in># pending sample_store \<and> (\<forall>y \<in># pending sample_store. QueuedAt x \<le> QueuedAt y) \<and>
         pending s' = add_mset (sample_message 3 ''bob'' 9 100) (pending sample_store - {#x#}))))"
proof -
  obtain s' where s': "Enqueue rev (sample_message 3 ''bob'' 9 100) sample_store = Inr s'"
    by (simp add: Enqueue_def sample_store_def NewMemoryStore_def sample_config_def DefaultConfig_def
        mlist_def sample_message_def Let_def)
  have "within_total sample_store" "mlist (queues sample_store) [] = []"
    by (simp_all add: within_total_def sample_store_def NewMemoryStore_def sample_config_def
        DefaultConfig_def mlist_def)
  with Enqueue_contract [OF range_order_rev sample_store_inv s'] s' show ?thesis by blast
qed

text \<open>
  Eviction does not bound the store when messages are queued for the empty
  recipient: with such a message the oldest one, \<open>evictOldestLocked\<close> removes nothing, and
  \<open>Enqueue\<close> takes the store beyond \<open>MaxTotalMessages\<close>.
\<close>

theorem Enqueue_empty_recipient_unbounded:
  assumes "range_order ord" and "store_inv s" and "\<not> closed s"
    and "MaxTotalMessages (config s) > 0" and "totalCount s \<ge> MaxTotalMessages (config s)"
    and "MaxQueueSize (config s) \<le> 0 \<or>
      int (length (mlist (queues s) (RecipientDID msg))) < MaxQueueSize (config s)"
    and "\<forall>x \<in># pending s. RecipientDID x \<noteq> [] \<longrightarrow> (\<exists>y \<in># pending s. QueuedAt y < QueuedAt x)"
  shows "\<exists>s'. Enqueue ord msg s = Inr s' \<and> totalCount s' > MaxTotalMessages (config s')"
proof -
  have "evictOldestLocked ord s = s"
    using assms(1,2)
  proof (cases rule: evictOldestLocked_cases)
    case (2 d i)
    let ?x = "mlist (queues s) d ! i"
    have "queue_ok (config s) d (mlist (queues s) d)"
      using assms(2) by (intro queue_ok_mlist) (simp add: store_inv_def)
    then have "RecipientDID ?x = d" using 2(2) by (simp add: queue_ok_def)
    moreover have "?x \<in># pending s"
      unfolding pending_def using set_mlist_mvals [OF store_inv_distinct [OF assms(2)], of d] 2(2)
      by (meson nth_mem subsetD)
    ultimately show ?thesis using assms(7) 2(1,4) by (metis not_le)
  qed simp
  with assms(3-6) show ?thesis
    by (auto simp: Enqueue_def Let_def)
qed

theorem Enqueue_empty_recipient_unbounded_witness:
  "\<exists>s'. Enqueue rev (sample_message 3 ''bob'' 9 100)
       (sample_store\<lparr>queues := [([], [sample_message 1 [] 1 100]), (''bob'', [sample_message 2 ''bob'' 2 100])]\<rparr>)
     = Inr s' \<and> totalCount s' > MaxTotalMessages (config s')"
  by (rule Enqueue_empty_recipient_unbounded [OF range_order_rev])
    (simp_all add: store_inv_def sample_store_def NewMemoryStore_def queues_ok_def queue_ok_def
      sample_message_def pending_def sample_config_def DefaultConfig_def mlist_def)

text \<open>
  Property C19. \<open>Dequeue\<close> hands out the oldest live messages of the recipient, oldest first
  and at most \<open>limit\<close> of them when \<open>limit\<close> is positive; each is live, every live message it
  leaves behind is at least as recent, expired messages stay for \<open>Cleanup\<close>, and no message is
  lost: what was held is what is handed out plus what is still held. \<open>Peek\<close> returns the same
  messages.
\<close>

theorem Dequeue_contract:
  assumes srt: "sort_func QueuedAt srt" and inv: "store_inv s"
    and deq: "Dequeue srt now d limit s = Inr (r, s')"
  shows "store_inv s' \<and> pending s = mset r + pending s' \<and>
    r = take_limit limit (live now (srt (mlist (queues s) d))) \<and>
    sorted (map QueuedAt r) \<and> (\<forall>m \<in> set r. RecipientDID m = d \<and> \<not> IsExpired now m) \<and>
    (\<forall>m \<in> set r. \<forall>m' \<in> set (mlist (queues s') d). IsExpired now m' \<or> QueuedAt m \<le> QueuedAt m') \<and>
    Peek srt now d limit s = Inr r"
proof -
  have "set r \<subseteq> set (mlist (queues s) d)"
    using Dequeue_oldest(1) [OF srt deq] sort_func_set [OF srt, of "mlist (queues s) d"]
    by (auto simp: take_limit_def dest: in_set_takeD split: if_splits)
  moreover have "queue_ok (config s) d (mlist (queues s) d)"
    using inv by (intro queue_ok_mlist) (simp add: store_inv_def)
  ultimately have "\<forall>m \<in> set r. RecipientDID m = d" by (auto simp: queue_ok_def)
  with Dequeue_conserves [OF srt inv deq] Dequeue_oldest [OF srt deq] Peek_Dequeue [OF srt deq]
  show ?thesis by blast
qed

theorem Dequeue_contract_witness:
  "\<exists>s'. Dequeue (sort_key QueuedAt) 50 ''bob'' 10 sample_store = Inr ([sample_message 1 ''bob'' 7 100], s') \<and>
     store_inv s' \<and> pending sample_store = mset [sample_message 1 ''bob'' 7 100] + pending s'"
proof -
  obtain s' where deq: "Dequeue (sort_key QueuedAt) 50 ''bob'' 10 sample_store =
      Inr ([sample_message 1 ''bob'' 7 100], s')"
    by (simp add: Dequeue_def sample_store_def NewMemoryStore_def mlist_def sample_message_def
        IsExpired_def)
  from Dequeue_contract [OF sort_func_sort_key sample_store_inv deq] deq show ?thesis by blast
qed

text \<open>
  \<open>Nack\<close> counts one more delivery attempt of a queued message with the given
  ID. While attempts remain the message stays queued; the attempt that reaches
  \<open>MaxDeliveryAttempts\<close> removes it and, when the dead letter queue is enabled, moves it there
  with the reason and the time. The invariant is kept.
\<close>

theorem Nack_contract:
  assumes "range_order ord" and "store_inv s" and "Nack ord now mid reason s = Inr s'"
  shows "store_inv s' \<and>
    (\<exists>m. m \<in># pending s \<and> qm_ID m = mid \<and>
      (if exhausted (config s) (attempted now m)
       then pending s' = pending s - {#m#} \<and>
         dead s' = (if EnableDLQ (config s)
           then add_mset (QueuedMessage.extend (attempted now m) (DeadLetterMessage.fields reason now)) (dead s)
           else dead s)
       else pending s' = add_mset (attempted now m) (pending s - {#m#}) \<and> dead s' = dead s))"
  using Nack_spec [OF assms] by blast

theorem Nack_contract_witness:
  "\<exists>s' m. Nack rev 60 2 ''timeout'' sample_store = Inr s' \<and> store_inv s' \<and>
     m \<in># pending sample_store \<and> qm_ID m = 2"
proof -
  obtain s' where nack: "Nack rev 60 2 ''timeout'' sample_store = Inr s'"
    by (simp add: Nack_def sample_store_def NewMemoryStore_def mlist_def sample_message_def Let_def
        sample_config_def DefaultConfig_def)
  from Nack_contract [OF range_order_rev sample_store_inv nack] nack show ?thesis by blast
qed

text \<open>
  \<open>Cleanup\<close> removes exactly the expired messages and reports how many it
  removed; every live message and the dead letter queue are untouched.
\<close>

theorem Cleanup_contract:
  assumes "range_order ord" and "store_inv s" and "Cleanup ord now s = Inr (n, s')"
  shows "store_inv s' \<and> pending s' = filter_mset (\<lambda>m. \<not> IsExpired now m) (pending s) \<and>
    n = int (size (filter_mset (IsExpired now) (pending s))) \<and> dead s' = dead s"
  using Cleanup_spec [OF assms] by blast

theorem Cleanup_contract_witness:
  "\<exists>s'. Cleanup rev 50 sample_store = Inr (1, s') \<and> store_inv s' \<and>
     pending s' = filter_mset (\<lambda>m. \<not> IsExpired 50 m) (pending sample_store)"
proof -
  obtain s' where cl: "Cleanup rev 50 sample_store = Inr (1, s')"
    by (simp add: Cleanup_def sample_store_def NewMemoryStore_def sample_message_def IsExpired_def)
  from Cleanup_contract [OF range_order_rev sample_store_inv cl] cl show ?thesis by blast
qed

end
