(* ===== verification/Billing_Tenants.thy ===== *)
theory Billing_Tenants
  imports Reliability
begin

text \<open>
  Tenants and their plan quotas (\<open>pkg/billing/tenant.go\<close>) and the per-tenant rate limiter pool
  (\<open>pkg/billing/limiter.go\<close>). The overrides read from the quota file and the tenant lookup of the
  billing store are arguments.
\<close>

section \<open>Plans and tenants\<close>

type_synonym Plan = string

abbreviation PlanFree :: Plan where "PlanFree \<equiv> ''free''"
abbreviation PlanStarter :: Plan where "PlanStarter \<equiv> ''starter''"
abbreviation PlanTeam :: Plan where "PlanTeam \<equiv> ''team''"
abbreviation PlanEnterprise :: Plan where "PlanEnterprise \<equiv> ''enterprise''"

record QuotaConfig =
  MaxAgentDIDs :: int
  MaxMessagesPerMonth :: int
  MaxToolCallsPerMonth :: int
  RateLimitMsgPerSec :: rat
  RateLimitBurstSize :: rat

definition hardcodedQuota :: "Plan \<Rightarrow> QuotaConfig" where
  "hardcodedQuota p =
     (if p = PlanStarter then
        \<lparr>MaxAgentDIDs = 5, MaxMessagesPerMonth = 10000, MaxToolCallsPerMonth = 50000,
         RateLimitMsgPerSec = 10, RateLimitBurstSize = 50\<rparr>
      else if p = PlanTeam then
        \<lparr>MaxAgentDIDs = 50, MaxMessagesPerMonth = 200000, MaxToolCallsPerMonth = 1000000,
         RateLimitMsgPerSec = 100, RateLimitBurstSize = 500\<rparr>
      else if p = PlanEnterprise then
        \<lparr>MaxAgentDIDs = 100000, MaxMessagesPerMonth = 1000000000, MaxToolCallsPerMonth = 1000000000,
         RateLimitMsgPerSec = 10000, RateLimitBurstSize = 50000\<rparr>
      else
        \<lparr>MaxAgentDIDs = 3, MaxMessagesPerMonth = 1000, MaxToolCallsPerMonth = 5000,
         RateLimitMsgPerSec = 5, RateLimitBurstSize = 20\<rparr>)"

definition DefaultQuota :: "(string, QuotaConfig) gomap \<Rightarrow> Plan \<Rightarrow> QuotaConfig" where
  "DefaultQuota overrides p =
     (let q = hardcodedQuota p
      in case map_of overrides p of
           None \<Rightarrow> q
         | Some ov \<Rightarrow>
             let q1 = (if MaxAgentDIDs ov > 0 then q\<lparr>MaxAgentDIDs := MaxAgentDIDs ov\<rparr> else q);
                 q2 = (if MaxMessagesPerMonth ov > 0 then q1\<lparr>MaxMessagesPerMonth := MaxMessagesPerMonth ov\<rparr> else q1);
                 q3 = (if MaxToolCallsPerMonth ov > 0 then q2\<lparr>MaxToolCallsPerMonth := MaxToolCallsPerMonth ov\<rparr> else q2);
                 q4 = (if RateLimitMsgPerSec ov > 0 then q3\<lparr>RateLimitMsgPerSec := RateLimitMsgPerSec ov\<rparr> else q3)
             in if RateLimitBurstSize ov > 0 then q4\<lparr>RateLimitBurstSize := RateLimitBurstSize ov\<rparr> else q4)"

type_synonym TenantStatus = string

abbreviation TenantStatusActive :: TenantStatus where "TenantStatusActive \<equiv> ''active''"
abbreviation TenantStatusSuspended :: TenantStatus where "TenantStatusSuspended \<equiv> ''suspended''"
abbreviation TenantStatusDeleted :: TenantStatus where "TenantStatusDeleted \<equiv> ''deleted''"

record Tenant =
  tn_ID :: string
  tn_Name :: string
  Email :: string
  tn_Plan :: Plan
  tn_Status :: TenantStatus
  Quota :: QuotaConfig
  tn_CreatedAt :: time
  tn_UpdatedAt :: time
  StripeCustomerID :: string
  StripeSubscriptionID :: string
  CurrentPeriodEnd :: "time option"
  BillingStatus :: string
  DIDSeed :: slice
  EmailVerifiedAt :: "time option"

text \<open>The random source is an argument: \<open>None\<close> when it fails.\<close>

definition NewTenant ::
  "(string, QuotaConfig) gomap \<Rightarrow> string \<Rightarrow> bytes option \<Rightarrow> time \<Rightarrow> string \<Rightarrow> string \<Rightarrow> Plan \<Rightarrow> Tenant option" where
  "NewTenant overrides i seed now n email plan =
     (case seed of
        None \<Rightarrow> None
      | Some s \<Rightarrow> Some \<lparr>tn_ID = i, tn_Name = n, Email = email, tn_Plan = plan, tn_Status = TenantStatusActive,
          Quota = DefaultQuota overrides plan, tn_CreatedAt = now, tn_UpdatedAt = now,
          StripeCustomerID = '''', StripeSubscriptionID = '''', CurrentPeriodEnd = None,
          BillingStatus = ''active'', DIDSeed = Some s, EmailVerifiedAt = None\<rparr>)"

definition IsActive :: "Tenant \<Rightarrow> bool" where
  "IsActive t \<longleftrightarrow> tn_Status t = TenantStatusActive"

lemma DefaultQuota_positive:
  "0 < MaxAgentDIDs (DefaultQuota ov p) \<and> 0 < MaxMessagesPerMonth (DefaultQuota ov p)
   \<and> 0 < MaxToolCallsPerMonth (DefaultQuota ov p) \<and> 0 < RateLimitMsgPerSec (DefaultQuota ov p)
   \<and> 1 \<le> RateLimitBurstSize (hardcodedQuota p)"
proof -
  have "0 < MaxAgentDIDs (hardcodedQuota p) \<and> 0 < MaxMessagesPerMonth (hardcodedQuota p)
     \<and> 0 < MaxToolCallsPerMonth (hardcodedQuota p) \<and> 0 < RateLimitMsgPerSec (hardcodedQuota p)
     \<and> 1 \<le> RateLimitBurstSize (hardcodedQuota p)"
    by (simp add: hardcodedQuota_def)
  then show ?thesis
    by (simp add: DefaultQuota_def Let_def split: option.split)
qed

section \<open>The limiter pool\<close>

record tenantBucket =
  tb_rate :: rat
  tb_bucketSize :: rat
  tb_tokens :: rat
  tb_lastUpdate :: time

definition newTenantBucket :: "time \<Rightarrow> rat \<Rightarrow> rat \<Rightarrow> tenantBucket" where
  "newTenantBucket now ratePerSec burst =
     \<lparr>tb_rate = ratePerSec, tb_bucketSize = burst, tb_tokens = burst, tb_lastUpdate = now\<rparr>"

definition BucketAllow :: "time \<Rightarrow> tenantBucket \<Rightarrow> bool \<times> tenantBucket" where
  "BucketAllow now b =
     (let elapsed = seconds (now - tb_lastUpdate b);
          b1 = b\<lparr>tb_lastUpdate := now, tb_tokens := tb_tokens b + elapsed * tb_rate b\<rparr>;
          b2 = (if tb_tokens b1 > tb_bucketSize b1 then b1\<lparr>tb_tokens := tb_bucketSize b1\<rparr> else b1)
      in if tb_tokens b2 < 1 then (False, b2) else (True, b2\<lparr>tb_tokens := tb_tokens b2 - 1\<rparr>))"

type_synonym TenantRateLimiterPool = "(string, tenantBucket) gomap"

definition NewTenantRateLimiterPool :: TenantRateLimiterPool where
  "NewTenantRateLimiterPool = []"

definition PoolAllow ::
  "(string \<Rightarrow> Tenant option) \<Rightarrow> time \<Rightarrow> string \<Rightarrow> TenantRateLimiterPool \<Rightarrow> bool \<times> TenantRateLimiterPool" where
  "PoolAllow getTenant now tenantID p =
     (let b = (case map_of p tenantID of
           Some b \<Rightarrow> b
         | None \<Rightarrow>
             (case getTenant tenantID of
                Some t \<Rightarrow> newTenantBucket now (RateLimitMsgPerSec (Quota t)) (RateLimitBurstSize (Quota t))
              | None \<Rightarrow> newTenantBucket now 5 20));
          (ok, b') = BucketAllow now b
      in (ok, mput tenantID b' p))"

definition Evict :: "string \<Rightarrow> TenantRateLimiterPool \<Rightarrow> TenantRateLimiterPool" where
  "Evict tenantID p = mdel tenantID p"

interpretation tb: token_bucket BucketAllow tb_tokens tb_lastUpdate tb_rate tb_bucketSize
  by unfold_locales (auto simp: BucketAllow_def Let_def min_def)

text \<open>The answers of the pool to a sequence of calls, each labelled with its tenant.\<close>

fun pool_run ::
  "(string \<Rightarrow> Tenant option) \<Rightarrow> (time \<times> string) list \<Rightarrow> TenantRateLimiterPool
   \<Rightarrow> (string \<times> bool) list \<times> TenantRateLimiterPool" where
  "pool_run g [] p = ([], p)"
| "pool_run g ((now, t) # cs) p =
     (let (ok, p1) = PoolAllow g now t p; (rs, p2) = pool_run g cs p1 in ((t, ok) # rs, p2))"

definition answers :: "string \<Rightarrow> (string \<times> bool) list \<Rightarrow> bool list" where
  "answers t rs = map snd (filter (\<lambda>r. fst r = t) rs)"

definition times_of :: "string \<Rightarrow> (time \<times> string) list \<Rightarrow> time list" where
  "times_of t cs = map fst (filter (\<lambda>c. snd c = t) cs)"

text \<open>The bucket a tenant has, or gets at its first call.\<close>

definition bucket_at :: "(string \<Rightarrow> Tenant option) \<Rightarrow> string \<Rightarrow> time \<Rightarrow> TenantRateLimiterPool \<Rightarrow> tenantBucket" where
  "bucket_at g t now p =
     (case map_of p t of
        Some b \<Rightarrow> b
      | None \<Rightarrow>
          (case g t of
             Some tn \<Rightarrow> newTenantBucket now (RateLimitMsgPerSec (Quota tn)) (RateLimitBurstSize (Quota tn))
           | None \<Rightarrow> newTenantBucket now 5 20))"

lemma PoolAllow_bucket:
  "PoolAllow g now t p = (fst (BucketAllow now (bucket_at g t now p)),
     mput t (snd (BucketAllow now (bucket_at g t now p))) p)"
  by (simp add: PoolAllow_def bucket_at_def Let_def split_beta)

lemma pool_isolated_known:
  assumes "map_of p t = Some b"
  shows "answers t (fst (pool_run g cs p)) = fst (poll_all BucketAllow (times_of t cs) b)"
  using assms
proof (induction cs arbitrary: p b)
  case (Cons c cs)
  obtain now u where c: "c = (now, u)" by force
  show ?case
  proof (cases "u = t")
    case True
    then show ?thesis
      using Cons.IH [of "mput t (snd (BucketAllow now b)) p" "snd (BucketAllow now b)"] Cons.prems
      by (simp add: c PoolAllow_bucket bucket_at_def answers_def times_of_def split_beta Let_def map_of_simps)
  next
    case False
    then show ?thesis
      using Cons.IH [of "snd (PoolAllow g now u p)" b] Cons.prems
      by (simp add: c PoolAllow_bucket answers_def times_of_def split_beta Let_def map_of_simps)
  qed
qed (simp add: answers_def times_of_def)

lemma pool_isolated:
  assumes "times_of t cs = now # ts"
  shows "answers t (fst (pool_run g cs p)) = fst (poll_all BucketAllow (now # ts) (bucket_at g t now p))"
  using assms
proof (induction cs arbitrary: p)
  case (Cons c cs)
  obtain u v where c: "c = (u, v)" by force
  show ?case
  proof (cases "v = t")
    case True
    then have "u = now" "times_of t cs = ts" using Cons.prems by (auto simp: c times_of_def)
    then show ?thesis
      using True pool_isolated_known [of "snd (PoolAllow g now t p)" t "snd (BucketAllow now (bucket_at g t now p))" g cs]
      by (simp add: c PoolAllow_bucket answers_def split_beta Let_def map_of_simps)
  next
    case False
    then have "times_of t cs = now # ts" using Cons.prems by (auto simp: c times_of_def)
    moreover have "bucket_at g t now (snd (PoolAllow g u v p)) = bucket_at g t now p"
      using False by (simp add: bucket_at_def PoolAllow_bucket map_of_simps)
    ultimately show ?thesis
      using False Cons.IH [of "snd (PoolAllow g u v p)"]
      by (simp add: c answers_def split_beta Let_def)
  qed
qed (simp add: times_of_def)

text \<open>
  Per-tenant rate limits are independent and bounded. Whatever calls of other
  tenants are interleaved, the answers a tenant gets from the pool are those of its own token
  bucket, created from its plan's quota at its first call; so of its calls, with a clock that
  does not run backwards, at most \<open>RateLimitBurstSize + RateLimitMsgPerSec * (elapsed seconds)\<close>
  are admitted.
\<close>

theorem tenant_pool_bound:
  assumes calls: "times_of t cs = now # ts" and mono: "sorted (now # ts)" and tn: "g t = Some tn"
    and nonneg: "0 \<le> RateLimitMsgPerSec (Quota tn)" "0 \<le> RateLimitBurstSize (Quota tn)"
  shows "answers t (fst (pool_run g cs NewTenantRateLimiterPool)) =
      fst (poll_all BucketAllow (now # ts)
        (newTenantBucket now (RateLimitMsgPerSec (Quota tn)) (RateLimitBurstSize (Quota tn))))
    \<and> of_nat (count_list (answers t (fst (pool_run g cs NewTenantRateLimiterPool))) True)
      \<le> RateLimitBurstSize (Quota tn) + seconds (last (now # ts) - now) * RateLimitMsgPerSec (Quota tn)"
proof -
  let ?b = "newTenantBucket now (RateLimitMsgPerSec (Quota tn)) (RateLimitBurstSize (Quota tn))"
  have b: "bucket_at g t now NewTenantRateLimiterPool = ?b"
    by (simp add: bucket_at_def NewTenantRateLimiterPool_def tn)
  have fields: "tb_tokens ?b = RateLimitBurstSize (Quota tn)" "tb_rate ?b = RateLimitMsgPerSec (Quota tn)"
      "tb_bucketSize ?b = RateLimitBurstSize (Quota tn)" "tb_lastUpdate ?b = now"
    by (simp_all add: newTenantBucket_def)
  have "sorted (tb_lastUpdate ?b # now # ts)" using mono fields by simp
  from tb.window_bound [of ?b, OF _ _ _ this] nonneg fields
  have "of_nat (count_list (fst (poll_all BucketAllow (now # ts) ?b)) True)
      \<le> RateLimitBurstSize (Quota tn) + seconds (last (now # ts) - now) * RateLimitMsgPerSec (Quota tn)"
    by simp
  then show ?thesis
    unfolding pool_isolated [OF calls] b by blast
qed

definition sample_tenant :: "string \<Rightarrow> rat \<Rightarrow> rat \<Rightarrow> Tenant" where
  "sample_tenant i r b = the (NewTenant [(''custom'', \<lparr>MaxAgentDIDs = 1, MaxMessagesPerMonth = 1,
     MaxToolCallsPerMonth = 1, RateLimitMsgPerSec = r, RateLimitBurstSize = b\<rparr>)] i (Some []) 0 ''n'' ''e'' ''custom'')"

theorem tenant_pool_bound_witness:
  "answers ''a'' (fst (pool_run (\<lambda>t. Some (sample_tenant t 1 2))
      [(0, ''a''), (0, ''b''), (0, ''a''), (0, ''b''), (0, ''a'')] NewTenantRateLimiterPool)) = [True, True, False]"
proof -
  have q: "RateLimitMsgPerSec (Quota (sample_tenant t 1 2)) = 1" "RateLimitBurstSize (Quota (sample_tenant t 1 2)) = 2" for t
    by (simp_all add: sample_tenant_def NewTenant_def DefaultQuota_def hardcodedQuota_def)
  from tenant_pool_bound [of "''a''" "[(0, ''a''), (0, ''b''), (0, ''a''), (0, ''b''), (0, ''a'')]" 0 "[0, 0]"
      "\<lambda>t. Some (sample_tenant t 1 2)" "sample_tenant ''a'' 1 2"] show ?thesis
    by (simp add: times_of_def q newTenantBucket_def BucketAllow_def seconds_def Let_def)
qed

end
