(* ===== verification/Jsonrpc.thy ===== *)
theory Jsonrpc
  imports Go_Prelude
begin

text \<open>
  The JSON-RPC envelope of \<open>pkg/protocol/jsonrpc.go\<close>. The functions of \<open>encoding/json\<close> are
  arguments: \<open>marshal\<close> of a value (\<open>None\<close> is an error) and \<open>unmarshal\<close> of bytes. An ID is a JSON
  value, \<open>JNull\<close> when it is absent.
\<close>

datatype rpc_error = ErrInvalidRequest | ErrMethodNotFound | ErrInvalidParams | ErrInternalError
  | ErrParseError | ErrMarshal

abbreviation CodeParseError :: int where "CodeParseError \<equiv> - 32700"
abbreviation CodeInvalidRequest :: int where "CodeInvalidRequest \<equiv> - 32600"
abbreviation CodeMethodNotFound :: int where "CodeMethodNotFound \<equiv> - 32601"
abbreviation CodeInvalidParams :: int where "CodeInvalidParams \<equiv> - 32602"
abbreviation CodeInternalError :: int where "CodeInternalError \<equiv> - 32603"
abbreviation CodeAccessDenied :: int where "CodeAccessDenied \<equiv> - 32001"
abbreviation CodeRoutingError :: int where "CodeRoutingError \<equiv> - 32002"
abbreviation CodeSignatureInvalid :: int where "CodeSignatureInvalid \<equiv> - 32003"
abbreviation CodeDecryptionFailed :: int where "CodeDecryptionFailed \<equiv> - 32004"
abbreviation CodeSenderNotRegistered :: int where "CodeSenderNotRegistered \<equiv> - 32005"
abbreviation CodeSenderMismatch :: int where "CodeSenderMismatch \<equiv> - 32006"
abbreviation CodeRateLimited :: int where "CodeRateLimited \<equiv> - 32007"
abbreviation CodeQuotaExceeded :: int where "CodeQuotaExceeded \<equiv> - 32008"
abbreviation CodeDelegationInvalid :: int where "CodeDelegationInvalid \<equiv> - 32009"

record JSONRPCRequest =
  rq_JSONRPC :: string
  rq_ID :: json
  rq_Method :: string
  rq_Params :: slice

record JSONRPCError =
  er_Code :: int
  er_Message :: string
  er_Data :: json

record JSONRPCResponse =
  rs_JSONRPC :: string
  rs_ID :: json
  rs_Result :: slice
  rs_Error :: "JSONRPCError option"

record JSONRPCNotification =
  nt_JSONRPC :: string
  nt_Method :: string
  nt_Params :: slice

text \<open>The parameters and results are marshalled unless they are nil.\<close>

definition marshal_field :: "('v \<Rightarrow> bytes option) \<Rightarrow> 'v option \<Rightarrow> rpc_error + slice" where
  "marshal_field marshal v =
     (case v of
        None \<Rightarrow> Inr None
      | Some x \<Rightarrow> (case marshal x of None \<Rightarrow> Inl ErrMarshal | Some d \<Rightarrow> Inr (Some d)))"

definition NewRPCRequest ::
  "('v \<Rightarrow> bytes option) \<Rightarrow> json \<Rightarrow> string \<Rightarrow> 'v option \<Rightarrow> rpc_error + JSONRPCRequest" where
  "NewRPCRequest marshal i m params =
     (case marshal_field marshal params of
        Inl e \<Rightarrow> Inl e
      | Inr p \<Rightarrow> Inr \<lparr>rq_JSONRPC = ''2.0'', rq_ID = i, rq_Method = m, rq_Params = p\<rparr>)"

definition NewRPCNotification ::
  "('v \<Rightarrow> bytes option) \<Rightarrow> string \<Rightarrow> 'v option \<Rightarrow> rpc_error + JSONRPCNotification" where
  "NewRPCNotification marshal m params =
     (case marshal_field marshal params of
        Inl e \<Rightarrow> Inl e
      | Inr p \<Rightarrow> Inr \<lparr>nt_JSONRPC = ''2.0'', nt_Method = m, nt_Params = p\<rparr>)"

definition NewRPCResponse ::
  "('v \<Rightarrow> bytes option) \<Rightarrow> json \<Rightarrow> 'v option \<Rightarrow> rpc_error + JSONRPCResponse" where
  "NewRPCResponse marshal i result =
     (case marshal_field marshal result of
        Inl e \<Rightarrow> Inl e
      | Inr r \<Rightarrow> Inr \<lparr>rs_JSONRPC = ''2.0'', rs_ID = i, rs_Result = r, rs_Error = None\<rparr>)"

definition NewRPCErrorResponse :: "json \<Rightarrow> int \<Rightarrow> string \<Rightarrow> json \<Rightarrow> JSONRPCResponse" where
  "NewRPCErrorResponse i code txt data =
     \<lparr>rs_JSONRPC = ''2.0'', rs_ID = i, rs_Result = None,
      rs_Error = Some \<lparr>er_Code = code, er_Message = txt, er_Data = data\<rparr>\<rparr>"

definition Encode :: "('v \<Rightarrow> bytes option) \<Rightarrow> 'v \<Rightarrow> bytes option" where
  "Encode marshal v = marshal v"

definition DecodeRequest :: "(bytes \<Rightarrow> JSONRPCRequest option) \<Rightarrow> bytes \<Rightarrow> rpc_error + JSONRPCRequest" where
  "DecodeRequest unmarshal data =
     (case unmarshal data of
        None \<Rightarrow> Inl ErrParseError
      | Some req \<Rightarrow>
          if rq_JSONRPC req \<noteq> ''2.0'' then Inl ErrInvalidRequest
          else if rq_Method req = '''' then Inl ErrInvalidRequest
          else Inr req)"

definition DecodeResponse :: "(bytes \<Rightarrow> JSONRPCResponse option) \<Rightarrow> bytes \<Rightarrow> rpc_error + JSONRPCResponse" where
  "DecodeResponse unmarshal data =
     (case unmarshal data of
        None \<Rightarrow> Inl ErrParseError
      | Some resp \<Rightarrow> if rs_JSONRPC resp \<noteq> ''2.0'' then Inl ErrInvalidRequest else Inr resp)"

text \<open>Without parameters the target keeps its zero value and there is no error.\<close>

definition ParseParams :: "(bytes \<Rightarrow> 'v option) \<Rightarrow> 'v \<Rightarrow> JSONRPCRequest \<Rightarrow> 'v option" where
  "ParseParams unmarshal zero r = (case rq_Params r of None \<Rightarrow> Some zero | Some p \<Rightarrow> unmarshal p)"

definition ParseResult :: "(bytes \<Rightarrow> 'v option) \<Rightarrow> 'v \<Rightarrow> JSONRPCResponse \<Rightarrow> 'v option" where
  "ParseResult unmarshal zero r = (case rs_Result r of None \<Rightarrow> Some zero | Some p \<Rightarrow> unmarshal p)"

definition IsErrorResponse :: "JSONRPCResponse \<Rightarrow> bool" where
  "IsErrorResponse r \<longleftrightarrow> rs_Error r \<noteq> None"

definition EncodeBatch :: "(JSONRPCRequest list \<Rightarrow> bytes option) \<Rightarrow> JSONRPCRequest list \<Rightarrow> bytes option" where
  "EncodeBatch marshal rs = marshal rs"

definition DecodeBatch :: "(bytes \<Rightarrow> JSONRPCRequest list option) \<Rightarrow> bytes \<Rightarrow> rpc_error + JSONRPCRequest list" where
  "DecodeBatch unmarshal data = (case unmarshal data of None \<Rightarrow> Inl ErrParseError | Some rs \<Rightarrow> Inr rs)"

section \<open>Round trip of a request\<close>

lemma DecodeRequest_Inr:
  "DecodeRequest unmarshal data = Inr req \<longleftrightarrow>
     unmarshal data = Some req \<and> rq_JSONRPC req = ''2.0'' \<and> rq_Method req \<noteq> ''''"
  by (auto simp: DecodeRequest_def split: option.splits)

text \<open>
  A request survives the wire. For any JSON codec that decodes what it has encoded,
  a request made for a non-empty method and encoded is accepted by the decoder, which returns
  the same ID and method, and parsing its parameters gives back the value it was made with (the
  zero value when it was made without); a request for the empty method is rejected.
\<close>

theorem request_roundtrip:
  assumes req: "NewRPCRequest marshal i m params = Inr req" and enc: "Encode marshal_req req = Some data"
    and codec: "\<forall>r d. marshal_req r = Some d \<longrightarrow> unmarshal_req d = Some r"
      "\<forall>v d. marshal v = Some d \<longrightarrow> unmarshal d = Some v"
  shows "if m = '''' then DecodeRequest unmarshal_req data = Inl ErrInvalidRequest
    else DecodeRequest unmarshal_req data = Inr req \<and> rq_ID req = i \<and> rq_Method req = m
      \<and> ParseParams unmarshal zero req = Some (case params of None \<Rightarrow> zero | Some v \<Rightarrow> v)"
proof -
  have "unmarshal_req data = Some req"
    using enc codec(1) by (simp add: Encode_def)
  moreover have "rq_JSONRPC req = ''2.0''" "rq_ID req = i" "rq_Method req = m"
    "ParseParams unmarshal zero req = Some (case params of None \<Rightarrow> zero | Some v \<Rightarrow> v)"
    using req codec(2) by (auto simp: NewRPCRequest_def marshal_field_def ParseParams_def split: option.splits)
  ultimately show ?thesis by (simp add: DecodeRequest_def)
qed

definition bool_marshal :: "bool \<Rightarrow> bytes option" where
  "bool_marshal b = Some [if b then 1 else 0]"

definition bool_unmarshal :: "bytes \<Rightarrow> bool option" where
  "bool_unmarshal d = (if d = [1] then Some True else if d = [0] then Some False else None)"

definition ping_request :: JSONRPCRequest where
  "ping_request = \<lparr>rq_JSONRPC = ''2.0'', rq_ID = JNum 1, rq_Method = ''ping'', rq_Params = Some [1]\<rparr>"

theorem request_roundtrip_witness:
  "NewRPCRequest bool_marshal (JNum 1) ''ping'' (Some True) = Inr ping_request
   \<and> DecodeRequest (\<lambda>d. if d = [7] then Some ping_request else None) [7] = Inr ping_request
   \<and> ParseParams bool_unmarshal False ping_request = Some True"
proof -
  have req: "NewRPCRequest bool_marshal (JNum 1) ''ping'' (Some True) = Inr ping_request"
    by (simp add: NewRPCRequest_def marshal_field_def bool_marshal_def ping_request_def)
  have enc: "Encode (\<lambda>r. if r = ping_request then Some [7] else None) ping_request = Some [7]"
    by (simp add: Encode_def)
  from request_roundtrip [OF req enc, of "\<lambda>d. if d = [7] then Some ping_request else None" bool_unmarshal False]
  show ?thesis using req by (simp add: bool_marshal_def bool_unmarshal_def)
qed

end
