(* ===== verification/Relay_Hub.thy ===== *)
theory Relay_Hub
  imports Messaging Reliability Agent_Registry Acl Channels Offline_Queue Billing_Tenants Jsonrpc
begin

text \<open>
  The relay hub of \<open>cmd/relay/hub.go\<close> with the routing part of \<open>channel.go\<close>: connected clients
  with their bounded send channels, registration of connections, routing of messages to clients,
  channels and the offline queue, delivery acknowledgements, broadcast and shutdown.

  A client object is known by its connection ID; \<open>conns\<close> holds the objects and \<open>clients\<close> is the
  hub's map from connection IDs and DIDs to them. A send channel is the list of frames not yet
  written to the socket, with a capacity and a closed flag; a send on a closed channel panics,
  which the model records in \<open>panicked\<close>. What goes over the wire is kept symbolic: \<open>Data\<close> is a frame
  forwarded as received, the other frames are the structures the code encodes.
\<close>

section \<open>Configuration\<close>

record RelayConfig =
  MaxConnections :: int
  MessageRateLimit :: rat
  MessageBurstSize :: rat
  RegisterRateLimit :: rat
  DiscoverRateLimit :: rat
  ReadTimeout :: duration
  WriteTimeout :: duration
  IdleTimeout :: duration
  EnableOfflineQueue :: bool
  QueueConfig :: Config
  AllowedOrigins :: "string list"
  RequireDIDProof :: bool
  PinDIDKeys :: bool

definition DefaultRelayConfig :: RelayConfig where
  "DefaultRelayConfig =
     \<lparr>MaxConnections = 1000, MessageRateLimit = 100, MessageBurstSize = 200, RegisterRateLimit = 1,
      DiscoverRateLimit = 10, ReadTimeout = 5 * 60 * 1000000000, WriteTimeout = 10 * 1000000000,
      IdleTimeout = 5 * 60 * 1000000000, EnableOfflineQueue = True, QueueConfig = DefaultConfig,
      AllowedOrigins = [], RequireDIDProof = True, PinDIDKeys = False\<rparr>"

datatype config_error = ErrMaxConnections int | ErrMessageRate rat | ErrMessageBurst rat | ErrRegisterRate rat
  | ErrDiscoverRate rat | ErrReadTimeout duration | ErrWriteTimeout duration

definition ValidateConfig :: "RelayConfig \<Rightarrow> config_error option" where
  "ValidateConfig c =
     (if MaxConnections c \<le> 0 then Some (ErrMaxConnections (MaxConnections c))
      else if MessageRateLimit c \<le> 0 then Some (ErrMessageRate (MessageRateLimit c))
      else if MessageBurstSize c \<le> 0 then Some (ErrMessageBurst (MessageBurstSize c))
      else if RegisterRateLimit c \<le> 0 then Some (ErrRegisterRate (RegisterRateLimit c))
      else if DiscoverRateLimit c \<le> 0 then Some (ErrDiscoverRate (DiscoverRateLimit c))
      else if ReadTimeout c \<le> 0 then Some (ErrReadTimeout (ReadTimeout c))
      else if WriteTimeout c \<le> 0 then Some (ErrWriteTimeout (WriteTimeout c))
      else None)"

section \<open>Frames\<close>

record PresenceNotification =
  pn_DID :: did
  pn_Status :: string
  pn_StatusText :: string

record ChannelInfo =
  ci_ID :: uuid
  ci_Name :: string
  ci_Type :: string
  ci_Owner :: did
  ci_Description :: string
  ci_MemberCount :: int

record MemberInfo =
  mi_DID :: did
  mi_Role :: string
  mi_JoinedAt :: time

datatype relay_result =
    ResStatus string
  | ResSubordinate did
  | ResAgents "Agent list"
  | ResAgent "Agent option"
  | ResChannel uuid string
  | ResChannels "ChannelInfo list"
  | ResMembers "MemberInfo list"
  | ResPresence "(did, PresenceNotification) gomap"

datatype relay_note =
    NoteAck uuid bool string time
  | NotePresence PresenceNotification
  | NoteAnnounce DiscoveryMessage
  | NoteChannelDeleted uuid string
  | NoteSenderKey uuid did slice slice

datatype quota_info = QuotaInfo Plan string int int

text \<open>Error texts: literal ones, and the errors whose \<open>Error()\<close> text is sent.\<close>

datatype sender_error = ErrClientNotRegistered | ErrDelegationNamespace did string
  | ErrDelegationProof did did | ErrSenderMismatch did did

datatype proof_error = ErrDIDProofRequired | ErrNoSigningKey | ErrProofTimestamp | ErrDIDProofInvalid

datatype route_error = RouteQueueFailed queue_error | RecipientNotFound did | SendBufferFull
  | ChannelRouteError channel_error

datatype err_text = Txt string | TxtMessage message_error | TxtSender sender_error | TxtProof proof_error
  | TxtKeyMismatch | TxtInvalidDIDFormat | TxtRoute route_error | TxtStore registry_error
  | TxtChannel channel_error

datatype frame =
    Data bytes
  | ResultFrame json relay_result
  | ErrorFrame json int err_text "quota_info option"
  | NoteFrame string relay_note

section \<open>State\<close>

type_synonym cid = string

record Client =
  client_DID :: did
  client_TenantID :: string
  SendCh :: "frame list"
  send_closed :: bool
  msgLimiter :: RateLimiter
  registerLimiter :: RateLimiter
  discoverLimiter :: RateLimiter
  lastActivity :: time
  stopped :: bool
  gatewayNamespace :: string
  gatewaySigningKey :: slice

record PresenceManager =
  presence :: "(did, PresenceInfo) gomap"
  subscriptions :: "(did, (did, bool) gomap) gomap"
  typingState :: "(did, (string, time) gomap) gomap"
  pm_stopped :: bool

definition NewPresenceManager :: PresenceManager where
  "NewPresenceManager = \<lparr>presence = [], subscriptions = [], typingState = [], pm_stopped = False\<rparr>"

record RelayHub =
  hub_config :: RelayConfig
  hub_store :: AgentStore
  hub_queue :: "MemoryStore option"
  hub_presence :: "PresenceManager option"
  hub_channels :: "MemoryChannelStore option"
  clients :: "(string, cid) gomap"
  conns :: "(cid, Client) gomap"
  connections :: int
  hub_stopped :: bool
  allowlistACL :: "ACLPolicy option"
  billingStore :: "(string \<Rightarrow> Tenant option) option"
  tenantPool :: "TenantRateLimiterPool option"
  panicked :: bool

text \<open>What a step reads from outside: the clock, fresh UUIDs, the orders in which maps are ranged
  over and the queue sorted.\<close>

record hub_env =
  e_now :: time
  e_uuid :: "nat \<Rightarrow> uuid"
  e_clients :: "(string, cid) gomap \<Rightarrow> (string, cid) gomap"
  e_queues :: queue_order
  e_qsort :: queue_sort
  e_agents :: agent_order
  e_channels :: channel_order
  e_subs :: "(did, (did, bool) gomap) gomap \<Rightarrow> (did, (did, bool) gomap) gomap"

definition env_ok :: "'a hub_env_scheme \<Rightarrow> bool" where
  "env_ok e \<longleftrightarrow> range_order (e_clients e) \<and> range_order (e_queues e) \<and> sort_func QueuedAt (e_qsort e)
     \<and> range_order (e_agents e) \<and> range_order (e_channels e) \<and> range_order (e_subs e)"

definition NewRelayHubWithStore :: "RelayConfig \<Rightarrow> AgentStore \<Rightarrow> MemoryStore option \<Rightarrow> RelayHub" where
  "NewRelayHubWithStore c st q =
     \<lparr>hub_config = c, hub_store = st,
      hub_queue = (if EnableOfflineQueue c \<and> q = None then Some (NewMemoryStore (QueueConfig c)) else q),
      hub_presence = Some NewPresenceManager, hub_channels = Some NewMemoryChannelStore, clients = [],
      conns = [], connections = 0, hub_stopped = False, allowlistACL = None, billingStore = None,
      tenantPool = None, panicked = False\<rparr>"

definition NewRelayHub :: "RelayConfig \<Rightarrow> RelayHub" where
  "NewRelayHub c = NewRelayHubWithStore c NewAgentStore None"

definition update_client :: "cid \<Rightarrow> (Client \<Rightarrow> Client) \<Rightarrow> RelayHub \<Rightarrow> RelayHub" where
  "update_client c f h =
     (case map_of (conns h) c of
        None \<Rightarrow> h
      | Some cl \<Rightarrow> h\<lparr>conns := mput c (f cl) (conns h)\<rparr>)"

definition wsSendBufferSize :: nat where
  "wsSendBufferSize = 256"

text \<open>A non-blocking send: whether the frame was accepted. The address of a client is always that
  of an object, so the first case does not arise.\<close>

definition send :: "cid \<Rightarrow> frame \<Rightarrow> RelayHub \<Rightarrow> bool \<times> RelayHub" where
  "send c f h =
     (case map_of (conns h) c of
        None \<Rightarrow> (False, h)
      | Some cl \<Rightarrow>
          if send_closed cl then (False, h\<lparr>panicked := True\<rparr>)
          else if length (SendCh cl) < wsSendBufferSize
          then (True, h\<lparr>conns := mput c (cl\<lparr>SendCh := SendCh cl @ [f]\<rparr>) (conns h)\<rparr>)
          else (False, h))"

section \<open>Connections\<close>

definition Register :: "cid \<Rightarrow> RelayHub \<Rightarrow> RelayHub" where
  "Register c h =
     (case map_of (conns h) c of
        None \<Rightarrow> h
      | Some cl \<Rightarrow>
          let m = mput c c (clients h)
          in h\<lparr>clients := (if client_DID cl \<noteq> '''' then mput (client_DID cl) c m else m)\<rparr>)"

definition Unregister :: "cid \<Rightarrow> RelayHub \<Rightarrow> RelayHub" where
  "Unregister c h =
     (case map_of (conns h) c of
        None \<Rightarrow> h
      | Some cl \<Rightarrow>
          let m = mdel c (clients h)
          in h\<lparr>clients := (if client_DID cl \<noteq> '''' then mdel (client_DID cl) m else m)\<rparr>)"

definition new_client :: "RelayConfig \<Rightarrow> time \<Rightarrow> string \<Rightarrow> Client" where
  "new_client cfg now tenant =
     \<lparr>client_DID = '''', client_TenantID = tenant, SendCh = [], send_closed = False,
      msgLimiter = NewRateLimiter now (MessageRateLimit cfg) (MessageBurstSize cfg),
      registerLimiter = NewRateLimiter now (RegisterRateLimit cfg) 2,
      discoverLimiter = NewRateLimiter now (DiscoverRateLimit cfg) 20,
      lastActivity = now, stopped = False, gatewayNamespace = '''', gatewaySigningKey = None\<rparr>"

text \<open>
  The parts of \<open>handleWebSocket\<close> around the handshake: the check of the connection limit, the
  admission after a successful handshake, and the cleanup when the read loop ends. Between the
  check and the admission other connections can be admitted.
\<close>

definition ws_check :: "RelayHub \<Rightarrow> bool" where
  "ws_check h \<longleftrightarrow> \<not> connections h \<ge> MaxConnections (hub_config h)"

definition ws_admit :: "time \<Rightarrow> cid \<Rightarrow> string \<Rightarrow> RelayHub \<Rightarrow> RelayHub" where
  "ws_admit now c tenant h =
     (let h1 = h\<lparr>connections := connections h + 1,
                 conns := mput c (new_client (hub_config h) now tenant) (conns h)\<rparr>
      in Register c h1)"

definition ws_close :: "cid \<Rightarrow> RelayHub \<Rightarrow> RelayHub" where
  "ws_close c h = (let h1 = Unregister c h in h1\<lparr>connections := connections h1 - 1\<rparr>)"

text \<open>One iteration of \<open>writePump\<close>: the oldest frame leaves the channel for the socket.\<close>

definition write_one :: "cid \<Rightarrow> RelayHub \<Rightarrow> frame option \<times> RelayHub" where
  "write_one c h =
     (case map_of (conns h) c of
        None \<Rightarrow> (None, h)
      | Some cl \<Rightarrow>
          (case SendCh cl of
             [] \<Rightarrow> (None, h)
           | f # fs \<Rightarrow> (Some f, h\<lparr>conns := mput c (cl\<lparr>SendCh := fs\<rparr>) (conns h)\<rparr>)))"

section \<open>Routing\<close>

definition IsChannelURI :: "string \<Rightarrow> bool" where
  "IsChannelURI dest \<longleftrightarrow> HasPrefix dest ''channel:''"

definition sendDeliveryAck :: "time \<Rightarrow> cid \<Rightarrow> uuid \<Rightarrow> bool \<Rightarrow> string \<Rightarrow> RelayHub \<Rightarrow> RelayHub" where
  "sendDeliveryAck now sender messageID delivered st h =
     snd (send sender (NoteFrame ''relay.ack'' (NoteAck messageID delivered st now)) h)"

definition ack_if :: "time \<Rightarrow> Message \<Rightarrow> cid option \<Rightarrow> bool \<Rightarrow> string \<Rightarrow> RelayHub \<Rightarrow> RelayHub" where
  "ack_if now msg sender delivered st h =
     (case sender of
        Some c \<Rightarrow> if RequestAck msg then sendDeliveryAck now c (msg_ID msg) delivered st h else h
      | None \<Rightarrow> h)"

definition offline_message :: "time \<Rightarrow> uuid \<Rightarrow> did \<Rightarrow> did \<Rightarrow> bytes \<Rightarrow> RelayHub \<Rightarrow> QueuedMessage" where
  "offline_message now i recipient sender data h =
     \<lparr>qm_ID = i, RecipientDID = recipient, Data = data, QueuedAt = now,
      ExpiresAt = now + MessageTTL (QueueConfig (hub_config h)), DeliveryAttempts = 0, LastAttempt = None,
      SenderDID = sender\<rparr>"

definition queueForOffline :: "'a hub_env_scheme \<Rightarrow> uuid \<Rightarrow> Message \<Rightarrow> bytes \<Rightarrow> did \<Rightarrow> RelayHub \<Rightarrow> RelayHub" where
  "queueForOffline e i msg data recipientDID h =
     (case hub_queue h of
        None \<Rightarrow> h
      | Some q \<Rightarrow>
          (case Enqueue (e_queues e) (offline_message (e_now e) i recipientDID (From msg) data h) q of
             Inl _ \<Rightarrow> h
           | Inr q' \<Rightarrow> h\<lparr>hub_queue := Some q'\<rparr>))"

text \<open>The fan-out loop of \<open>RouteToChannel\<close>; the counter names the UUID a queued copy gets.\<close>

fun fan_out :: "'a hub_env_scheme \<Rightarrow> Message \<Rightarrow> bytes \<Rightarrow> nat \<Rightarrow> ChannelMember list \<Rightarrow> RelayHub \<Rightarrow> RelayHub" where
  "fan_out e msg data k [] h = h"
| "fan_out e msg data k (m # ms) h =
     (if member_DID m = From msg then fan_out e msg data k ms h
      else
        fan_out e msg data (Suc k) ms
          (case map_of (clients h) (member_DID m) of
             Some c \<Rightarrow> snd (send c (frame.Data data) h)
           | None \<Rightarrow>
               if hub_queue h \<noteq> None \<and> EnableOfflineQueue (hub_config h)
               then queueForOffline e (e_uuid e k) msg data (member_DID m) h
               else h))"

definition RouteToChannel ::
  "'a hub_env_scheme \<Rightarrow> MemoryChannelStore \<Rightarrow> Message \<Rightarrow> bytes \<Rightarrow> RelayHub \<Rightarrow> channel_error option \<times> RelayHub" where
  "RouteToChannel e st msg data h =
     (case GetChannelByName (To msg) st of
        Inl err \<Rightarrow> (Some err, h)
      | Inr ch \<Rightarrow>
          if \<not> CanSend (From msg) ch then (Some ErrNotChannelMember, h)
          else (None, fan_out e msg data 0 (Members ch) h))"

definition Route :: "'a hub_env_scheme \<Rightarrow> Message \<Rightarrow> bytes \<Rightarrow> RelayHub \<Rightarrow> route_error option \<times> RelayHub" where
  "Route e msg data h =
     (case (IsChannelURI (To msg), hub_channels h) of
        (True, Some st) \<Rightarrow>
          (let (err, h') = RouteToChannel e st msg data h in (map_option ChannelRouteError err, h'))
      | _ \<Rightarrow>
        let senderClient = map_of (clients h) (From msg)
        in case map_of (clients h) (To msg) of
          None \<Rightarrow>
            (case (hub_queue h, EnableOfflineQueue (hub_config h)) of
               (Some q, True) \<Rightarrow>
                 (case Enqueue (e_queues e)
                         (offline_message (e_now e) (msg_ID msg) (To msg) (From msg) data h) q of
                    Inl err \<Rightarrow>
                      (Some (RouteQueueFailed err), ack_if (e_now e) msg senderClient False ''queue failed'' h)
                  | Inr q' \<Rightarrow>
                      (None, ack_if (e_now e) msg senderClient True ''queued'' (h\<lparr>hub_queue := Some q'\<rparr>)))
             | _ \<Rightarrow>
                 (Some (RecipientNotFound (To msg)),
                  ack_if (e_now e) msg senderClient False ''recipient not found'' h))
        | Some c \<Rightarrow>
            (let (ok, h1) = send c (frame.Data data) h
             in if ok then (None, ack_if (e_now e) msg senderClient True ''delivered'' h1)
                else (Some SendBufferFull, ack_if (e_now e) msg senderClient False ''buffer full'' h1)))"

section \<open>Broadcast and shutdown\<close>

fun broadcast_loop :: "(string \<times> cid) list \<Rightarrow> cid \<Rightarrow> frame \<Rightarrow> cid list \<Rightarrow> RelayHub \<Rightarrow> RelayHub" where
  "broadcast_loop [] sender f seen h = h"
| "broadcast_loop ((_, c) # cs) sender f seen h =
     (if c \<noteq> sender \<and> c \<notin> set seen then
        broadcast_loop cs sender f (c # seen)
          (if (case map_of (conns h) c of Some cl \<Rightarrow> stopped cl | None \<Rightarrow> True) then h else snd (send c f h))
      else broadcast_loop cs sender f seen h)"

definition Broadcast :: "'a hub_env_scheme \<Rightarrow> cid \<Rightarrow> frame \<Rightarrow> RelayHub \<Rightarrow> RelayHub" where
  "Broadcast e sender f h = broadcast_loop (e_clients e (clients h)) sender f [] h"

fun stop_loop :: "(string \<times> cid) list \<Rightarrow> cid list \<Rightarrow> RelayHub \<Rightarrow> RelayHub" where
  "stop_loop [] done h = h"
| "stop_loop ((_, c) # cs) done h =
     (if c \<notin> set done
      then stop_loop cs (c # done)
        (case map_of (conns h) c of
           None \<Rightarrow> h
         | Some cl \<Rightarrow>
             if send_closed cl then h\<lparr>panicked := True\<rparr>
             else h\<lparr>conns := mput c (cl\<lparr>stopped := True, send_closed := True\<rparr>) (conns h)\<rparr>)
      else stop_loop cs done h)"

definition Stop :: "'a hub_env_scheme \<Rightarrow> RelayHub \<Rightarrow> RelayHub" where
  "Stop e h =
     (if hub_stopped h then h
      else
        let h1 = stop_loop (e_clients e (clients h)) [] (h\<lparr>hub_stopped := True\<rparr>);
            h2 = h1\<lparr>hub_queue := map_option Close (hub_queue h1)\<rparr>
        in h2\<lparr>hub_presence := map_option (\<lambda>p. p\<lparr>pm_stopped := True\<rparr>) (hub_presence h2)\<rparr>)"

text \<open>One tick of \<open>queueCleanupLoop\<close>.\<close>

definition cleanup_tick :: "'a hub_env_scheme \<Rightarrow> RelayHub \<Rightarrow> RelayHub" where
  "cleanup_tick e h =
     (case hub_queue h of
        None \<Rightarrow> h
      | Some q \<Rightarrow> (case Cleanup (e_queues e) (e_now e) q of Inl _ \<Rightarrow> h | Inr (_, q') \<Rightarrow> h\<lparr>hub_queue := Some q'\<rparr>))"

end
