(* ===== verification/Relay_Client.thy ===== *)
theory Relay_Client
  imports Relay_Hub
begin

text \<open>
  The per-connection side of the relay: \<open>cmd/relay/client.go\<close> (dispatch, sender validation,
  registration with DID proof and key pinning, gateway delegation, delivery of queued messages,
  discovery and lookup), \<open>presence.go\<close> and the channel handlers of \<open>channel.go\<close>. A handler is one
  step of the connection's read loop; the model runs it without interleaving other connections'
  handlers. The JSON decoders, \<open>ed25519.Verify\<close>, the DID parser and the textual form of UUIDs
  are fields of the environment.
\<close>

section \<open>Environment and requests\<close>

record RegistrationRequest =
  rr_Agent :: Agent
  Proof :: slice
  rr_Timestamp :: "64 word"

record SubordinateRegisterRequest =
  sr_DID :: did
  sr_TenantID :: string
  sr_PublicKeys :: "PublicKey list"

record channel_params =
  cp_ChannelID :: string
  cp_Name :: string
  cp_Type :: string
  cp_Description :: string
  cp_ChainKey :: slice
  cp_SignatureKey :: slice

record relay_env = hub_env +
  e_verify :: "bytes \<Rightarrow> bytes \<Rightarrow> bytes \<Rightarrow> bool"
  e_didMethod :: "string \<Rightarrow> string option"
  e_uuidString :: "uuid \<Rightarrow> string"
  e_uuidParse :: "string \<Rightarrow> uuid option"
  e_unix :: "64 word"
  d_request :: "bytes \<Rightarrow> JSONRPCRequest option"
  d_message :: "bytes \<Rightarrow> Message option"
  d_registration :: "bytes \<Rightarrow> RegistrationRequest option"
  d_subordinate :: "bytes \<Rightarrow> SubordinateRegisterRequest option"
  d_capability :: "bytes \<Rightarrow> string"
  d_did :: "bytes \<Rightarrow> did option"
  d_presence :: "bytes \<Rightarrow> (string \<times> string) option"
  d_dids :: "bytes \<Rightarrow> did list option"
  d_channel :: "bytes \<Rightarrow> channel_params option"
  d_typing :: "bytes \<Rightarrow> bool option"

text \<open>The zero values the parameters keep when a request has none.\<close>

definition zero_agent :: Agent where
  "zero_agent = \<lparr>agent_ID = 0, DID = '''', TenantID = '''', DisplayName = '''', PublicKeys = [], Endpoints = [],
     Capabilities = [], ACL = None, Status = '''', LastSeen = 0, Metadata = [], Presence = None,
     PresenceCfg = None, Role = '''', DelegationNamespace = ''''\<rparr>"

definition zero_registration :: RegistrationRequest where
  "zero_registration = \<lparr>rr_Agent = zero_agent, Proof = None, rr_Timestamp = 0\<rparr>"

definition zero_subordinate :: SubordinateRegisterRequest where
  "zero_subordinate = \<lparr>sr_DID = '''', sr_TenantID = '''', sr_PublicKeys = []\<rparr>"

definition zero_channel :: channel_params where
  "zero_channel = \<lparr>cp_ChannelID = '''', cp_Name = '''', cp_Type = '''', cp_Description = '''',
     cp_ChainKey = None, cp_SignatureKey = None\<rparr>"

definition zero_message :: Message where
  "zero_message = NewMessage 0 0 '''' '''' '''' ''''"

text \<open>The state a handler of connection \<open>c\<close> works on.\<close>

definition with_client :: "cid \<Rightarrow> RelayHub \<Rightarrow> (Client \<Rightarrow> RelayHub) \<Rightarrow> RelayHub" where
  "with_client c h f = (case map_of (conns h) c of None \<Rightarrow> h | Some cl \<Rightarrow> f cl)"

definition sendResult :: "cid \<Rightarrow> json \<Rightarrow> relay_result \<Rightarrow> RelayHub \<Rightarrow> RelayHub" where
  "sendResult c i r h = snd (send c (ResultFrame i r) h)"

definition sendErrorWithData :: "cid \<Rightarrow> json \<Rightarrow> int \<Rightarrow> err_text \<Rightarrow> quota_info option \<Rightarrow> RelayHub \<Rightarrow> RelayHub" where
  "sendErrorWithData c i code txt d h = snd (send c (ErrorFrame i code txt d) h)"

definition sendError :: "cid \<Rightarrow> json \<Rightarrow> int \<Rightarrow> err_text \<Rightarrow> RelayHub \<Rightarrow> RelayHub" where
  "sendError c i code txt h = sendErrorWithData c i code txt None h"

section \<open>Sender validation\<close>

definition didMatchesNamespace :: "did \<Rightarrow> string \<Rightarrow> bool" where
  "didMatchesNamespace d ns =
     (if HasSuffix ns ''*'' then HasPrefix d (take (length ns - 1) ns) else d = ns)"

definition VerifySignature :: "'a relay_env_scheme \<Rightarrow> slice \<Rightarrow> bytes \<Rightarrow> slice \<Rightarrow> bool" where
  "VerifySignature e publicKey data sig =
     (if length (slice_bytes publicKey) \<noteq> 32 then False
      else e_verify e (slice_bytes publicKey) data (slice_bytes sig))"

definition validateSender :: "'a relay_env_scheme \<Rightarrow> Client \<Rightarrow> Message \<Rightarrow> sender_error option" where
  "validateSender e cl msg =
     (if client_DID cl = '''' then Some ErrClientNotRegistered
      else if From msg = client_DID cl then None
      else if ActorDID msg \<noteq> '''' \<and> ActorDID msg = client_DID cl \<and> gatewayNamespace cl \<noteq> '''' then
        if \<not> didMatchesNamespace (From msg) (gatewayNamespace cl)
        then Some (ErrDelegationNamespace (From msg) (gatewayNamespace cl))
        else if \<not> VerifySignature e (gatewaySigningKey cl)
               (string_bytes (client_DID cl @ '':'' @ From msg @ '':'' @ e_uuidString e (msg_ID msg))) (ActorProof msg)
        then Some (ErrDelegationProof (client_DID cl) (From msg))
        else None
      else Some (ErrSenderMismatch (From msg) (client_DID cl)))"

section \<open>Registration\<close>

definition checkPinnedKey :: "RegistrationRequest \<Rightarrow> RelayHub \<Rightarrow> bool" where
  "checkPinnedKey reg h =
     (case GetByDID (DID (rr_Agent reg)) (hub_store h) of
        Inl _ \<Rightarrow> True
      | Inr None \<Rightarrow> True
      | Inr (Some existing) \<Rightarrow>
          (case find (\<lambda>k. Purpose k = ''signing'') (PublicKeys existing) of
             None \<Rightarrow> True
           | Some pk \<Rightarrow>
               (case pk_Key pk of
                  None \<Rightarrow> True
                | Some pinned \<Rightarrow>
                    (case GetSigningKey (rr_Agent reg) of
                       None \<Rightarrow> False
                     | Some k \<Rightarrow> bytes_Equal (pk_Key k) (Some pinned)))))"

definition proof_message :: "RegistrationRequest \<Rightarrow> bytes" where
  "proof_message reg = string_bytes (DID (rr_Agent reg) @ '':'' @ int_string (sint (rr_Timestamp reg)))"

text \<open>The age is computed on 64-bit integers.\<close>

definition verifyDIDProof :: "'a relay_env_scheme \<Rightarrow> RegistrationRequest \<Rightarrow> proof_error option" where
  "verifyDIDProof e reg =
     (if slice_bytes (Proof reg) = [] then Some ErrDIDProofRequired
      else case GetSigningKey (rr_Agent reg) of
        None \<Rightarrow> Some ErrNoSigningKey
      | Some k \<Rightarrow>
          let proofAge = sint (e_unix e - rr_Timestamp reg)
          in if proofAge < - 60 \<or> proofAge > 300 then Some ErrProofTimestamp
             else if \<not> VerifySignature e (pk_Key k) (proof_message reg) (Proof reg) then Some ErrDIDProofInvalid
             else None)"

text \<open>The loop over one dequeued batch: whether it ran to its end.\<close>

fun deliver_batch :: "'a relay_env_scheme \<Rightarrow> cid \<Rightarrow> QueuedMessage list \<Rightarrow> RelayHub \<Rightarrow> bool \<times> RelayHub" where
  "deliver_batch e c [] h = (True, h)"
| "deliver_batch e c (m # ms) h =
     (if IsExpired (e_now e) m then deliver_batch e c ms h
      else
        let (ok, h1) = send c (frame.Data (QueuedMessage.Data m)) h
        in if ok then deliver_batch e c ms h1
           else (False,
             case hub_queue h1 of
               None \<Rightarrow> h1
             | Some q \<Rightarrow> (case Enqueue (e_queues e) m q of Inl _ \<Rightarrow> h1 | Inr q' \<Rightarrow> h1\<lparr>hub_queue := Some q'\<rparr>)))"

text \<open>The outer loop dequeues batches of 100; \<open>None\<close> means out of fuel.\<close>

fun deliver_loop :: "nat \<Rightarrow> 'a relay_env_scheme \<Rightarrow> cid \<Rightarrow> did \<Rightarrow> RelayHub \<Rightarrow> RelayHub option" where
  "deliver_loop 0 e c d h = None"
| "deliver_loop (Suc n) e c d h =
     (case hub_queue h of
        None \<Rightarrow> Some h
      | Some q \<Rightarrow>
          (case Dequeue (e_qsort e) (e_now e) d 100 q of
             Inl _ \<Rightarrow> Some h
           | Inr (msgs, q') \<Rightarrow>
               let h1 = h\<lparr>hub_queue := Some q'\<rparr>
               in if msgs = [] then Some h1
                  else
                    let (ran, h2) = deliver_batch e c msgs h1
                    in if \<not> ran then Some h2
                       else if length msgs < 100 then Some h2
                       else deliver_loop n e c d h2))"

text \<open>One more iteration than the recipient has queued messages is enough.\<close>

definition deliverQueuedMessages :: "'a relay_env_scheme \<Rightarrow> cid \<Rightarrow> RelayHub \<Rightarrow> RelayHub" where
  "deliverQueuedMessages e c h = with_client c h (\<lambda>cl.
     case hub_queue h of
       None \<Rightarrow> h
     | Some q \<Rightarrow>
         if client_DID cl = '''' then h
         else (case deliver_loop (Suc (length (mlist (queues q) (client_DID cl)))) e c (client_DID cl) h of
                 Some h' \<Rightarrow> h'
               | None \<Rightarrow> h))"

definition allowlisted :: "did \<Rightarrow> RelayHub \<Rightarrow> bool" where
  "allowlisted d h =
     (case allowlistACL h of
        None \<Rightarrow> True
      | Some acl \<Rightarrow> CheckAccess (zero_agent\<lparr>ACL := Some acl\<rparr>) d ''register'' = None)"

definition quota_refusal :: "'a relay_env_scheme \<Rightarrow> Client \<Rightarrow> RelayHub \<Rightarrow> quota_info option" where
  "quota_refusal e cl h =
     (case billingStore h of
        None \<Rightarrow> None
      | Some getTenant \<Rightarrow>
          if client_TenantID cl = '''' then None
          else (case getTenant (client_TenantID cl) of
              None \<Rightarrow> None
            | Some tn \<Rightarrow>
                let n = CountByTenant (e_agents e) (client_TenantID cl) (hub_store h)
                in if n \<ge> MaxAgentDIDs (Quota tn)
                   then Some (QuotaInfo (tn_Plan tn) (client_TenantID cl) n (MaxAgentDIDs (Quota tn)))
                   else None))"

text \<open>The part of \<open>handleRegister\<close> after all checks have passed.\<close>

definition complete_registration ::
  "'a relay_env_scheme \<Rightarrow> cid \<Rightarrow> json \<Rightarrow> Agent \<Rightarrow> RelayHub \<Rightarrow> RelayHub" where
  "complete_registration e c i agent0 h =
     (let agent = SetOnline (e_now e) agent0;
          h1 = update_client c (\<lambda>cl. cl\<lparr>client_DID := DID agent\<rparr>) h;
          h2 = h1\<lparr>hub_store := Put agent (hub_store h1)\<rparr>;
          h3 = (if Role agent = ''gateway'' \<and> DelegationNamespace agent \<noteq> ''''
                then update_client c (\<lambda>cl. cl\<lparr>gatewayNamespace := DelegationNamespace agent,
                       gatewaySigningKey := (case find (\<lambda>k. Purpose k = ''signing'') (PublicKeys agent) of
                          None \<Rightarrow> None | Some k \<Rightarrow> pk_Key k)\<rparr>) h2
                else h2);
          h4 = h3\<lparr>clients := mput (DID agent) c (clients h3)\<rparr>;
          h5 = Broadcast e c (NoteFrame ''discovery.announce'' (NoteAnnounce
                 \<lparr>dm_Type = DiscoveryAnnounce, dm_AgentID = agent_ID agent, dm_DID = DID agent,
                  dm_Capability = '''', dm_Agent = Some agent, dm_Timestamp = 0\<rparr>)) h4;
          h6 = sendResult c i (ResStatus ''registered'') h5
      in deliverQueuedMessages e c h6)"

text \<open>The checks of \<open>handleRegister\<close> in their order, with the error response of the first that fails.\<close>

definition registration_refusal ::
  "'a relay_env_scheme \<Rightarrow> Client \<Rightarrow> RegistrationRequest \<Rightarrow> RelayHub \<Rightarrow> (int \<times> err_text \<times> quota_info option) option" where
  "registration_refusal e cl reg h =
     (let agent = rr_Agent reg
      in if e_didMethod e (DID agent) \<noteq> Some ''wba'' then Some (CodeInvalidParams, TxtInvalidDIDFormat, None)
         else case (if RequireDIDProof (hub_config h) then verifyDIDProof e reg else None) of
           Some err \<Rightarrow> Some (CodeSignatureInvalid, TxtProof err, None)
         | None \<Rightarrow>
             if PinDIDKeys (hub_config h) \<and> \<not> checkPinnedKey reg h
             then Some (CodeAccessDenied, TxtKeyMismatch, None)
             else if \<not> allowlisted (DID agent) h
             then Some (CodeAccessDenied, Txt ''DID not allowed to register'', None)
             else case quota_refusal e cl h of
               Some q \<Rightarrow> Some (CodeQuotaExceeded, Txt ''DID quota exceeded for this tenant'', Some q)
             | None \<Rightarrow> None)"

definition handleRegister :: "'a relay_env_scheme \<Rightarrow> cid \<Rightarrow> JSONRPCRequest \<Rightarrow> RelayHub \<Rightarrow> RelayHub" where
  "handleRegister e c req h0 = with_client c h0 (\<lambda>cl0.
     let (ok, rl) = Allow (e_now e) (registerLimiter cl0);
         cl = cl0\<lparr>registerLimiter := rl\<rparr>;
         h = h0\<lparr>conns := mput c cl (conns h0)\<rparr>
     in if \<not> ok then sendError c (rq_ID req) CodeRateLimited (Txt ''registration rate limit exceeded'') h
        else case ParseParams (d_registration e) zero_registration req of
          None \<Rightarrow> sendError c (rq_ID req) CodeInvalidParams (Txt ''invalid agent data'') h
        | Some reg \<Rightarrow>
            (case registration_refusal e cl reg h of
               Some (code, t, d) \<Rightarrow> sendErrorWithData c (rq_ID req) code t d h
             | None \<Rightarrow>
                 complete_registration e c (rq_ID req)
                   (if client_TenantID cl \<noteq> '''' \<and> billingStore h \<noteq> None
                    then (rr_Agent reg)\<lparr>TenantID := client_TenantID cl\<rparr> else rr_Agent reg) h))"

text \<open>The checks of \<open>handleRegisterSubordinate\<close> in their order.\<close>

definition subordinate_refusal ::
  "'a relay_env_scheme \<Rightarrow> Client \<Rightarrow> SubordinateRegisterRequest \<Rightarrow> RelayHub \<Rightarrow> (int \<times> err_text) option" where
  "subordinate_refusal e cl sub h =
     (if e_didMethod e (sr_DID sub) \<noteq> Some ''wba'' then Some (CodeInvalidParams, TxtInvalidDIDFormat)
      else if \<not> didMatchesNamespace (sr_DID sub) (gatewayNamespace cl)
      then Some (CodeDelegationInvalid, Txt ''subordinate DID not in gateway namespace'')
      else if \<not> allowlisted (sr_DID sub) h then Some (CodeAccessDenied, Txt ''DID not allowed to register'')
      else None)"

definition handleRegisterSubordinate :: "'a relay_env_scheme \<Rightarrow> cid \<Rightarrow> JSONRPCRequest \<Rightarrow> RelayHub \<Rightarrow> RelayHub" where
  "handleRegisterSubordinate e c req h = with_client c h (\<lambda>cl.
     if client_DID cl = ''''
     then sendError c (rq_ID req) CodeSenderNotRegistered (Txt ''client must register before registering subordinates'') h
     else if gatewayNamespace cl = ''''
     then sendError c (rq_ID req) CodeAccessDenied (Txt ''client is not registered as a gateway'') h
     else case ParseParams (d_subordinate e) zero_subordinate req of
       None \<Rightarrow> sendError c (rq_ID req) CodeInvalidParams (Txt ''invalid subordinate data'') h
     | Some sub \<Rightarrow>
         (case subordinate_refusal e cl sub h of
            Some (code, t) \<Rightarrow> sendError c (rq_ID req) code t h
          | None \<Rightarrow>
              let agent = (NewAgent (e_uuid e 0) (e_now e) (sr_DID sub) (sr_DID sub))
                    \<lparr>TenantID := client_TenantID cl, PublicKeys := sr_PublicKeys sub\<rparr>
              in sendResult c (rq_ID req) (ResSubordinate (sr_DID sub)) (h\<lparr>hub_store := Put agent (hub_store h)\<rparr>)))"

section \<open>Discovery and lookup\<close>

definition handleDiscover :: "'a relay_env_scheme \<Rightarrow> cid \<Rightarrow> JSONRPCRequest \<Rightarrow> RelayHub \<Rightarrow> RelayHub" where
  "handleDiscover e c req h0 = with_client c h0 (\<lambda>cl0.
     let (ok, rl) = Allow (e_now e) (discoverLimiter cl0);
         h = h0\<lparr>conns := mput c (cl0\<lparr>discoverLimiter := rl\<rparr>) (conns h0)\<rparr>
     in if \<not> ok then sendError c (rq_ID req) CodeRateLimited (Txt ''discovery rate limit exceeded'') h
        else
          let capability = (case rq_Params req of None \<Rightarrow> '''' | Some p \<Rightarrow> d_capability e p);
              found = (if capability \<noteq> '''' then Search (e_agents e) capability (hub_store h)
                       else List_agents (e_agents e) (hub_store h))
          in sendResult c (rq_ID req) (ResAgents found) h)"

definition handleLookup :: "'a relay_env_scheme \<Rightarrow> cid \<Rightarrow> JSONRPCRequest \<Rightarrow> RelayHub \<Rightarrow> RelayHub" where
  "handleLookup e c req h0 = with_client c h0 (\<lambda>cl0.
     let (ok, rl) = Allow (e_now e) (discoverLimiter cl0);
         h = h0\<lparr>conns := mput c (cl0\<lparr>discoverLimiter := rl\<rparr>) (conns h0)\<rparr>
     in if \<not> ok then sendError c (rq_ID req) CodeRateLimited (Txt ''rate limit exceeded'') h
        else case ParseParams (d_did e) '''' req of
          None \<Rightarrow> sendError c (rq_ID req) CodeInvalidParams (Txt ''missing 'did' parameter'') h
        | Some d \<Rightarrow>
            if d = '''' then sendError c (rq_ID req) CodeInvalidParams (Txt ''missing 'did' parameter'') h
            else (case GetByDID d (hub_store h) of
                Inl err \<Rightarrow> sendError c (rq_ID req) CodeInternalError (TxtStore err) h
              | Inr agent \<Rightarrow> sendResult c (rq_ID req) (ResAgent agent) h))"

section \<open>Presence\<close>

text \<open>The notification loop over the subscriptions of \<open>notifyPresenceChange\<close>.\<close>

definition sendPresenceNotification :: "did \<Rightarrow> did \<Rightarrow> PresenceInfo \<Rightarrow> RelayHub \<Rightarrow> RelayHub" where
  "sendPresenceNotification subscriberDID targetDID info h =
     (case map_of (clients h) subscriberDID of
        None \<Rightarrow> h
      | Some c \<Rightarrow> snd (send c (NoteFrame ''relay.presence.update'' (NotePresence
          \<lparr>pn_DID = targetDID, pn_Status = pi_Status info, pn_StatusText = StatusText info\<rparr>)) h))"

fun notify_loop :: "(did \<times> (did, bool) gomap) list \<Rightarrow> did \<Rightarrow> PresenceInfo \<Rightarrow> RelayHub \<Rightarrow> RelayHub" where
  "notify_loop [] targetDID info h = h"
| "notify_loop ((subscriberDID, targets) # subs) targetDID info h =
     notify_loop subs targetDID info
       (if map_of targets targetDID = Some True then sendPresenceNotification subscriberDID targetDID info h else h)"

definition notifyPresenceChange :: "'a hub_env_scheme \<Rightarrow> did \<Rightarrow> PresenceInfo \<Rightarrow> PresenceManager \<Rightarrow> RelayHub \<Rightarrow> RelayHub" where
  "notifyPresenceChange e targetDID info pm h = notify_loop (e_subs e (subscriptions pm)) targetDID info h"

definition pm_UpdatePresence ::
  "'a hub_env_scheme \<Rightarrow> did \<Rightarrow> AgentStatus \<Rightarrow> string \<Rightarrow> PresenceManager \<Rightarrow> RelayHub \<Rightarrow> RelayHub" where
  "pm_UpdatePresence e d st txt pm h =
     (let info0 = (case map_of (presence pm) d of Some p \<Rightarrow> p | None \<Rightarrow> NewPresenceInfo (e_now e));
          info = UpdateActivity (e_now e) (info0\<lparr>pi_Status := st, StatusText := txt\<rparr>);
          pm1 = pm\<lparr>presence := mput d info (presence pm)\<rparr>
      in notifyPresenceChange e d info pm1 (h\<lparr>hub_presence := Some pm1\<rparr>))"

definition GetPresence :: "did \<Rightarrow> PresenceManager \<Rightarrow> PresenceInfo option" where
  "GetPresence d pm = map_of (presence pm) d"

definition Subscribe :: "did \<Rightarrow> did \<Rightarrow> PresenceManager \<Rightarrow> PresenceManager" where
  "Subscribe subscriberDID targetDID pm =
     pm\<lparr>subscriptions := mput subscriberDID
        (mput targetDID True (case map_of (subscriptions pm) subscriberDID of None \<Rightarrow> [] | Some t \<Rightarrow> t))
        (subscriptions pm)\<rparr>"

definition Unsubscribe :: "did \<Rightarrow> did \<Rightarrow> PresenceManager \<Rightarrow> PresenceManager" where
  "Unsubscribe subscriberDID targetDID pm =
     (case map_of (subscriptions pm) subscriberDID of
        None \<Rightarrow> pm
      | Some subs \<Rightarrow> pm\<lparr>subscriptions := mput subscriberDID (mdel targetDID subs) (subscriptions pm)\<rparr>)"

definition UnsubscribeAll :: "did \<Rightarrow> PresenceManager \<Rightarrow> PresenceManager" where
  "UnsubscribeAll subscriberDID pm = pm\<lparr>subscriptions := mdel subscriberDID (subscriptions pm)\<rparr>"

definition SetTyping :: "time \<Rightarrow> did \<Rightarrow> string \<Rightarrow> bool \<Rightarrow> PresenceManager \<Rightarrow> PresenceManager" where
  "SetTyping now senderDID threadID typing pm =
     (if typing then
        pm\<lparr>typingState := mput senderDID
           (mput threadID (now + 10 * 1000000000)
              (case map_of (typingState pm) senderDID of None \<Rightarrow> [] | Some t \<Rightarrow> t))
           (typingState pm)\<rparr>
      else case map_of (typingState pm) senderDID of
        None \<Rightarrow> pm
      | Some threads \<Rightarrow> pm\<lparr>typingState := mput senderDID (mdel threadID threads) (typingState pm)\<rparr>)"

definition pm_IsTyping :: "time \<Rightarrow> did \<Rightarrow> string \<Rightarrow> PresenceManager \<Rightarrow> bool" where
  "pm_IsTyping now senderDID threadID pm =
     (case map_of (typingState pm) senderDID of
        None \<Rightarrow> False
      | Some threads \<Rightarrow> (case map_of threads threadID of None \<Rightarrow> False | Some expiry \<Rightarrow> now < expiry))"

text \<open>Deleting while ranging visits every entry, so the order does not matter.\<close>

definition cleanupExpiredTyping :: "time \<Rightarrow> PresenceManager \<Rightarrow> PresenceManager" where
  "cleanupExpiredTyping now pm =
     pm\<lparr>typingState :=
        filter (\<lambda>(_, threads). threads \<noteq> [])
          (map (\<lambda>(d, threads). (d, filter (\<lambda>(_, expiry). \<not> now > expiry) threads)) (typingState pm))\<rparr>"

definition handlePresenceUpdate :: "'a relay_env_scheme \<Rightarrow> cid \<Rightarrow> JSONRPCRequest \<Rightarrow> RelayHub \<Rightarrow> RelayHub" where
  "handlePresenceUpdate e c req h = with_client c h (\<lambda>cl.
     let i = rq_ID req
     in if client_DID cl = '''' then sendError c i CodeSenderNotRegistered (Txt ''must register first'') h
        else case ParseParams (d_presence e) ('''', '''') req of
          None \<Rightarrow> sendError c i CodeInvalidParams (Txt ''invalid params'') h
        | Some (st, txt) \<Rightarrow>
            if st \<notin> set [StatusOnline, StatusOffline, StatusBusy, StatusAway, StatusDND]
            then sendError c i CodeInvalidParams (Txt ''invalid status'') h
            else sendResult c i (ResStatus ''updated'')
              (case hub_presence h of
                 None \<Rightarrow> h
               | Some pm \<Rightarrow> pm_UpdatePresence e (client_DID cl) st txt pm h))"

definition handlePresenceSubscribe :: "'a relay_env_scheme \<Rightarrow> cid \<Rightarrow> JSONRPCRequest \<Rightarrow> RelayHub \<Rightarrow> RelayHub" where
  "handlePresenceSubscribe e c req h = with_client c h (\<lambda>cl.
     let i = rq_ID req
     in if client_DID cl = '''' then sendError c i CodeSenderNotRegistered (Txt ''must register first'') h
        else case ParseParams (d_dids e) [] req of
          None \<Rightarrow> sendError c i CodeInvalidParams (Txt ''invalid params'') h
        | Some dids \<Rightarrow>
            sendResult c i (ResStatus ''subscribed'')
              (h\<lparr>hub_presence := map_option (fold (Subscribe (client_DID cl)) dids) (hub_presence h)\<rparr>))"

definition handlePresenceUnsubscribe :: "'a relay_env_scheme \<Rightarrow> cid \<Rightarrow> JSONRPCRequest \<Rightarrow> RelayHub \<Rightarrow> RelayHub" where
  "handlePresenceUnsubscribe e c req h = with_client c h (\<lambda>cl.
     let i = rq_ID req
     in if client_DID cl = '''' then sendError c i CodeSenderNotRegistered (Txt ''must register first'') h
        else case ParseParams (d_dids e) [] req of
          None \<Rightarrow> sendError c i CodeInvalidParams (Txt ''invalid params'') h
        | Some dids \<Rightarrow>
            sendResult c i (ResStatus ''unsubscribed'')
              (h\<lparr>hub_presence := map_option (fold (Unsubscribe (client_DID cl)) dids) (hub_presence h)\<rparr>))"

fun presence_results :: "PresenceManager \<Rightarrow> did list \<Rightarrow> (did, PresenceNotification) gomap
    \<Rightarrow> (did, PresenceNotification) gomap" where
  "presence_results pm [] res = res"
| "presence_results pm (d # ds) res =
     presence_results pm ds
       (case GetPresence d pm of
          None \<Rightarrow> res
        | Some info \<Rightarrow> mput d \<lparr>pn_DID = d, pn_Status = pi_Status info, pn_StatusText = StatusText info\<rparr> res)"

definition handlePresenceQuery :: "'a relay_env_scheme \<Rightarrow> cid \<Rightarrow> JSONRPCRequest \<Rightarrow> RelayHub \<Rightarrow> RelayHub" where
  "handlePresenceQuery e c req h = with_client c h (\<lambda>cl.
     let i = rq_ID req
     in if client_DID cl = '''' then sendError c i CodeSenderNotRegistered (Txt ''must register first'') h
        else case ParseParams (d_dids e) [] req of
          None \<Rightarrow> sendError c i CodeInvalidParams (Txt ''invalid params'') h
        | Some dids \<Rightarrow>
            sendResult c i (ResPresence
              (case hub_presence h of None \<Rightarrow> [] | Some pm \<Rightarrow> presence_results pm dids [])) h)"

definition handleTypingIndicator :: "'a relay_env_scheme \<Rightarrow> Message \<Rightarrow> bytes \<Rightarrow> RelayHub \<Rightarrow> RelayHub" where
  "handleTypingIndicator e msg data h =
     (case hub_presence h of
        None \<Rightarrow> h
      | Some pm \<Rightarrow>
          (case d_typing e (slice_bytes (Body msg)) of
             None \<Rightarrow> h
           | Some typing \<Rightarrow>
               let threadID = (case ThreadID msg of None \<Rightarrow> '''' | Some t \<Rightarrow> e_uuidString e t)
               in snd (Route e msg data
                    (h\<lparr>hub_presence := Some (SetTyping (e_now e) (From msg) threadID typing pm)\<rparr>))))"

section \<open>Channels\<close>

text \<open>The block shared by the handlers that name a channel by ID or by name.\<close>

definition resolve_channel ::
  "'a relay_env_scheme \<Rightarrow> channel_params \<Rightarrow> MemoryChannelStore \<Rightarrow> err_text + Channel" where
  "resolve_channel e p st =
     (if cp_ChannelID p \<noteq> '''' then
        (case e_uuidParse e (cp_ChannelID p) of
           None \<Rightarrow> Inl (Txt ''invalid channel_id'')
         | Some i \<Rightarrow> (case GetChannel i st of Inl _ \<Rightarrow> Inl (Txt ''channel not found'') | Inr ch \<Rightarrow> Inr ch))
      else if cp_Name p \<noteq> '''' then
        (case GetChannelByName (cp_Name p) st of Inl _ \<Rightarrow> Inl (Txt ''channel not found'') | Inr ch \<Rightarrow> Inr ch)
      else Inl (Txt ''channel_id or name required''))"

definition with_channel ::
  "'a relay_env_scheme \<Rightarrow> cid \<Rightarrow> JSONRPCRequest \<Rightarrow> RelayHub
   \<Rightarrow> (Client \<Rightarrow> channel_params \<Rightarrow> MemoryChannelStore \<Rightarrow> Channel \<Rightarrow> RelayHub) \<Rightarrow> RelayHub" where
  "with_channel e c req h f = with_client c h (\<lambda>cl.
     let i = rq_ID req
     in if client_DID cl = '''' then sendError c i CodeSenderNotRegistered (Txt ''must register first'') h
        else case ParseParams (d_channel e) zero_channel req of
          None \<Rightarrow> sendError c i CodeInvalidParams (Txt ''invalid params'') h
        | Some p \<Rightarrow>
            (case hub_channels h of
               None \<Rightarrow> sendError c i CodeInternalError (Txt ''channels not supported'') h
             | Some st \<Rightarrow>
                 (case resolve_channel e p st of
                    Inl t \<Rightarrow> sendError c i CodeInvalidParams t h
                  | Inr ch \<Rightarrow> f cl p st ch)))"

definition handleChannelCreate :: "'a relay_env_scheme \<Rightarrow> cid \<Rightarrow> JSONRPCRequest \<Rightarrow> RelayHub \<Rightarrow> RelayHub" where
  "handleChannelCreate e c req h = with_client c h (\<lambda>cl.
     let i = rq_ID req
     in if client_DID cl = '''' then sendError c i CodeSenderNotRegistered (Txt ''must register first'') h
        else case ParseParams (d_channel e) zero_channel req of
          None \<Rightarrow> sendError c i CodeInvalidParams (Txt ''invalid params'') h
        | Some p \<Rightarrow>
            if cp_Type p \<notin> set [ChannelGroup, ChannelBroadcast, ChannelTopic]
            then sendError c i CodeInvalidParams (Txt ''invalid channel type'') h
            else (case hub_channels h of
              None \<Rightarrow> sendError c i CodeInternalError (Txt ''channels not supported'') h
            | Some st \<Rightarrow>
                let ch = (NewChannel (e_uuid e 0) (e_now e) (cp_Name p) (cp_Type p) (client_DID cl))
                      \<lparr>channel_Description := cp_Description p\<rparr>
                in case CreateChannel ch st of
                     Inl err \<Rightarrow>
                       if err = ErrChannelExists
                       then sendError c i CodeInvalidParams (Txt ''channel already exists'') h
                       else sendError c i CodeInternalError (TxtChannel err) h
                   | Inr st' \<Rightarrow>
                       sendResult c i (ResChannel (channel_ID ch) (channel_Name ch)) (h\<lparr>hub_channels := Some st'\<rparr>)))"

definition handleChannelJoin :: "'a relay_env_scheme \<Rightarrow> cid \<Rightarrow> JSONRPCRequest \<Rightarrow> RelayHub \<Rightarrow> RelayHub" where
  "handleChannelJoin e c req h = with_channel e c req h (\<lambda>cl p st ch.
     let i = rq_ID req
     in case AddMember (e_now e) (client_DID cl) RoleMember ch of
          Inl err \<Rightarrow>
            if err = ErrMemberAlreadyAdded then sendResult c i (ResStatus ''already_member'') h
            else sendError c i CodeInternalError (TxtChannel err) h
        | Inr ch' \<Rightarrow>
            (case UpdateChannel ch' st of
               Inl err \<Rightarrow> sendError c i CodeInternalError (TxtChannel err) h
             | Inr st' \<Rightarrow> sendResult c i (ResStatus ''joined'') (h\<lparr>hub_channels := Some st'\<rparr>)))"

definition handleChannelLeave :: "'a relay_env_scheme \<Rightarrow> cid \<Rightarrow> JSONRPCRequest \<Rightarrow> RelayHub \<Rightarrow> RelayHub" where
  "handleChannelLeave e c req h = with_channel e c req h (\<lambda>cl p st ch.
     let i = rq_ID req
     in if IsOwner (client_DID cl) ch
        then sendError c i CodeInvalidParams (Txt ''owner cannot leave, delete channel instead'') h
        else
          let (removed, ch') = RemoveMember (e_now e) (client_DID cl) ch
          in if \<not> removed then sendResult c i (ResStatus ''not_member'') h
             else case UpdateChannel ch' st of
                 Inl err \<Rightarrow> sendError c i CodeInternalError (TxtChannel err) h
               | Inr st' \<Rightarrow> sendResult c i (ResStatus ''left'') (h\<lparr>hub_channels := Some st'\<rparr>))"

definition handleChannelList :: "'a relay_env_scheme \<Rightarrow> cid \<Rightarrow> JSONRPCRequest \<Rightarrow> RelayHub \<Rightarrow> RelayHub" where
  "handleChannelList e c req h = with_client c h (\<lambda>cl.
     let i = rq_ID req
     in if client_DID cl = '''' then sendError c i CodeSenderNotRegistered (Txt ''must register first'') h
        else case hub_channels h of
          None \<Rightarrow> sendError c i CodeInternalError (Txt ''channels not supported'') h
        | Some st \<Rightarrow>
            sendResult c i (ResChannels (map (\<lambda>ch.
              \<lparr>ci_ID = channel_ID ch, ci_Name = channel_Name ch, ci_Type = channel_Type ch, ci_Owner = OwnerDID ch,
               ci_Description = channel_Description ch, ci_MemberCount = int (length (Members ch))\<rparr>)
              (ListChannels (e_channels e) (client_DID cl) st))) h)"

definition handleChannelMembers :: "'a relay_env_scheme \<Rightarrow> cid \<Rightarrow> JSONRPCRequest \<Rightarrow> RelayHub \<Rightarrow> RelayHub" where
  "handleChannelMembers e c req h = with_channel e c req h (\<lambda>cl p st ch.
     let i = rq_ID req
     in if \<not> IsMember (client_DID cl) ch then sendError c i CodeAccessDenied (Txt ''not a member'') h
        else sendResult c i (ResMembers (map (\<lambda>m.
          \<lparr>mi_DID = member_DID m, mi_Role = member_Role m, mi_JoinedAt = JoinedAt m\<rparr>) (Members ch))) h)"

text \<open>The loops that notify the members present, the deleting handler's caller included.\<close>

fun notify_members :: "ChannelMember list \<Rightarrow> frame \<Rightarrow> RelayHub \<Rightarrow> RelayHub" where
  "notify_members [] f h = h"
| "notify_members (m # ms) f h =
     notify_members ms f
       (case map_of (clients h) (member_DID m) of None \<Rightarrow> h | Some c \<Rightarrow> snd (send c f h))"

definition handleChannelDelete :: "'a relay_env_scheme \<Rightarrow> cid \<Rightarrow> JSONRPCRequest \<Rightarrow> RelayHub \<Rightarrow> RelayHub" where
  "handleChannelDelete e c req h = with_channel e c req h (\<lambda>cl p st ch.
     let i = rq_ID req
     in if \<not> IsOwner (client_DID cl) ch
        then sendError c i CodeAccessDenied (Txt ''only owner can delete channel'') h
        else case DeleteChannel (channel_ID ch) st of
            Inl err \<Rightarrow> sendError c i CodeInternalError (TxtChannel err) h
          | Inr st' \<Rightarrow>
              sendResult c i (ResStatus ''deleted'')
                (notify_members (Members ch)
                   (NoteFrame ''relay.channel.deleted'' (NoteChannelDeleted (channel_ID ch) (channel_Name ch)))
                   (h\<lparr>hub_channels := Some st'\<rparr>)))"

definition handleSenderKeyDistribute :: "'a relay_env_scheme \<Rightarrow> cid \<Rightarrow> JSONRPCRequest \<Rightarrow> RelayHub \<Rightarrow> RelayHub" where
  "handleSenderKeyDistribute e c req h = with_channel e c req h (\<lambda>cl p st ch.
     let i = rq_ID req
     in if \<not> IsMember (client_DID cl) ch then sendError c i CodeAccessDenied (Txt ''not a member'') h
        else
          let (_, ch') = SetSenderKey (e_now e) (client_DID cl)
                (Some \<lparr>ChainKey = cp_ChainKey p, SignatureKey = cp_SignatureKey p, Iteration = 0\<rparr>) ch
          in case UpdateChannel ch' st of
               Inl err \<Rightarrow> sendError c i CodeInternalError (TxtChannel err) h
             | Inr st' \<Rightarrow>
                 sendResult c i (ResStatus ''distributed'')
                   (notify_members (filter (\<lambda>m. member_DID m \<noteq> client_DID cl) (Members ch'))
                      (NoteFrame ''relay.channel.sender_key''
                         (NoteSenderKey (channel_ID ch') (client_DID cl) (cp_ChainKey p) (cp_SignatureKey p)))
                      (h\<lparr>hub_channels := Some st'\<rparr>)))"

section \<open>Dispatch\<close>

text \<open>The rate limits before routing: the hub after them, and the refusal to answer with.\<close>

definition message_limits :: "'a relay_env_scheme \<Rightarrow> cid \<Rightarrow> Client \<Rightarrow> RelayHub \<Rightarrow> err_text option \<times> RelayHub" where
  "message_limits e c cl h =
     (let (ok, rl) = Allow (e_now e) (msgLimiter cl);
          h1 = h\<lparr>conns := mput c (cl\<lparr>msgLimiter := rl\<rparr>) (conns h)\<rparr>
      in if \<not> ok then (Some (Txt ''rate limit exceeded''), h1)
         else if client_TenantID cl \<noteq> '''' then
           (case tenantPool h1 of
              None \<Rightarrow> (None, h1)
            | Some pool \<Rightarrow>
                let (ok', pool') = PoolAllow (case billingStore h1 of Some g \<Rightarrow> g | None \<Rightarrow> (\<lambda>_. None))
                      (e_now e) (client_TenantID cl) pool
                in (if ok' then None else Some (Txt ''tenant rate limit exceeded''), h1\<lparr>tenantPool := Some pool'\<rparr>))
         else (None, h1))"

text \<open>The checks on a message that is not a relay method: the error response of the first that
  fails, or the message.\<close>

definition accept_message :: "'a relay_env_scheme \<Rightarrow> Client \<Rightarrow> JSONRPCRequest \<Rightarrow> (int \<times> err_text) + Message" where
  "accept_message e cl req =
     (case ParseParams (d_message e) zero_message req of
        None \<Rightarrow> Inl (CodeInvalidParams, Txt ''invalid params'')
      | Some msg \<Rightarrow>
          (case Validate msg of
             Some err \<Rightarrow> Inl (CodeInvalidParams, TxtMessage err)
           | None \<Rightarrow>
               (case validateSender e cl msg of
                  Some err \<Rightarrow>
                    if err = ErrClientNotRegistered
                    then Inl (CodeSenderNotRegistered, Txt ''client must register before sending messages'')
                    else Inl (CodeSenderMismatch, TxtSender err)
                | None \<Rightarrow> Inr msg)))"

definition route_request :: "'a relay_env_scheme \<Rightarrow> cid \<Rightarrow> bytes \<Rightarrow> JSONRPCRequest \<Rightarrow> RelayHub \<Rightarrow> RelayHub" where
  "route_request e c data req h0 = with_client c h0 (\<lambda>cl.
     let (refusal, h) = message_limits e c cl h0
     in case refusal of
          Some t \<Rightarrow> sendError c (rq_ID req) CodeRateLimited t h
        | None \<Rightarrow>
            (case accept_message e cl req of
               Inl (code, t) \<Rightarrow> sendError c (rq_ID req) code t h
             | Inr msg \<Rightarrow>
                 if MsgType msg = TypeTyping then handleTypingIndicator e msg data h
                 else
                   let (err, h1) = Route e msg data h
                   in case err of
                        Some r \<Rightarrow> sendError c (rq_ID req) CodeRoutingError (TxtRoute r) h1
                      | None \<Rightarrow> h1))"

definition handleMessage :: "'a relay_env_scheme \<Rightarrow> cid \<Rightarrow> bytes \<Rightarrow> RelayHub \<Rightarrow> RelayHub" where
  "handleMessage e c data h =
     (case DecodeRequest (d_request e) data of
        Inl _ \<Rightarrow> h
      | Inr req \<Rightarrow>
          if rq_Method req = ''keepalive'' then h
          else if rq_Method req = ''relay.register'' then handleRegister e c req h
          else if rq_Method req = ''relay.discover'' then handleDiscover e c req h
          else if rq_Method req = ''relay.lookup'' then handleLookup e c req h
          else if rq_Method req = ''relay.presence.update'' then handlePresenceUpdate e c req h
          else if rq_Method req = ''relay.presence.subscribe'' then handlePresenceSubscribe e c req h
          else if rq_Method req = ''relay.presence.unsubscribe'' then handlePresenceUnsubscribe e c req h
          else if rq_Method req = ''relay.presence.query'' then handlePresenceQuery e c req h
          else if rq_Method req = ''relay.channel.create'' then handleChannelCreate e c req h
          else if rq_Method req = ''relay.channel.join'' then handleChannelJoin e c req h
          else if rq_Method req = ''relay.channel.leave'' then handleChannelLeave e c req h
          else if rq_Method req = ''relay.channel.list'' then handleChannelList e c req h
          else if rq_Method req = ''relay.channel.members'' then handleChannelMembers e c req h
          else if rq_Method req = ''relay.channel.delete'' then handleChannelDelete e c req h
          else if rq_Method req = ''relay.channel.sender_key'' then handleSenderKeyDistribute e c req h
          else if rq_Method req = ''relay.register_subordinate'' then handleRegisterSubordinate e c req h
          else route_request e c data req h)"

text \<open>One iteration of \<open>readPump\<close> with a frame from the socket.\<close>

definition read_one :: "'a relay_env_scheme \<Rightarrow> cid \<Rightarrow> bytes \<Rightarrow> RelayHub \<Rightarrow> RelayHub" where
  "read_one e c data h =
     handleMessage e c data (update_client c (\<lambda>cl. cl\<lparr>lastActivity := e_now e\<rparr>) h)"

end
