(* ===== verification/Relay_Invariant.thy ===== *)
theory Relay_Invariant
  imports Relay_Client
begin

text \<open>
  Invariants of the relay. Every handler is built from a few elementary changes of the hub; a
  property of hub states that these changes preserve is preserved by every handler. The locale
  \<open>handler_closed\<close> states this once; it is interpreted for the invariant of the whole hub, and the
  transition system of connections, frames and timers keeps that invariant in every reachable
  state.
\<close>

section \<open>Elementary changes\<close>

text \<open>Changes of a client object that do not touch its send channel.\<close>

definition same_channel :: "Client \<Rightarrow> Client \<Rightarrow> bool" where
  "same_channel cl cl' \<longleftrightarrow> SendCh cl' = SendCh cl \<and> send_closed cl' = send_closed cl \<and> stopped cl' = stopped cl"

lemma same_channel_updates:
  "same_channel cl (cl\<lparr>registerLimiter := rl\<rparr>)" "same_channel cl (cl\<lparr>discoverLimiter := rl\<rparr>)"
  "same_channel cl (cl\<lparr>msgLimiter := rl\<rparr>)" "same_channel cl (cl\<lparr>lastActivity := t\<rparr>)"
  by (simp_all add: same_channel_def)

inductive queue_step :: "'a hub_env_scheme \<Rightarrow> MemoryStore \<Rightarrow> MemoryStore \<Rightarrow> bool" for e where
  enq: "Enqueue (e_queues e) m q = Inr q' \<Longrightarrow> queue_step e q q'"
| deq: "Dequeue (e_qsort e) (e_now e) d n q = Inr (ms, q') \<Longrightarrow> queue_step e q q'"

inductive chan_step :: "MemoryChannelStore \<Rightarrow> MemoryChannelStore \<Rightarrow> bool" where
  chan_update: "map_of (channels st) i = Some ch \<Longrightarrow> channel_Name ch' = channel_Name ch \<Longrightarrow>
    channel_ID ch' = channel_ID ch \<Longrightarrow> (channel_ok ch \<Longrightarrow> channel_ok ch') \<Longrightarrow>
    UpdateChannel ch' st = Inr st' \<Longrightarrow> chan_step st st'"
| chan_delete: "DeleteChannel i st = Inr st' \<Longrightarrow> chan_step st st'"

inductive_cases queue_stepE: "queue_step e q q'"
inductive_cases chan_stepE: "chan_step st st'"

locale handler_closed =
  fixes e :: "'a relay_env_scheme" and I :: "RelayHub \<Rightarrow> bool"
  assumes I_send: "I h \<Longrightarrow> I (snd (send c f h))"
    and I_client: "I h \<Longrightarrow> map_of (conns h) c = Some cl \<Longrightarrow> same_channel cl cl' \<Longrightarrow>
      I (h\<lparr>conns := mput c cl' (conns h)\<rparr>)"
    and I_clients: "I h \<Longrightarrow> map_of (conns h) c = Some cl \<Longrightarrow> I (h\<lparr>clients := mput k c (clients h)\<rparr>)"
    and I_put: "I h \<Longrightarrow> I (h\<lparr>hub_store := Put a (hub_store h)\<rparr>)"
    and I_queue: "I h \<Longrightarrow> hub_queue h = Some q \<Longrightarrow> queue_step e q q' \<Longrightarrow> I (h\<lparr>hub_queue := Some q'\<rparr>)"
    and I_chan: "I h \<Longrightarrow> hub_channels h = Some st \<Longrightarrow> chan_step st st' \<Longrightarrow> I (h\<lparr>hub_channels := Some st'\<rparr>)"
    and I_presence: "I h \<Longrightarrow> I (h\<lparr>hub_presence := pm\<rparr>)"
    and I_pool: "I h \<Longrightarrow> I (h\<lparr>tenantPool := p\<rparr>)"
begin

lemma I_update_client:
  assumes "I h" and "\<And>cl. same_channel cl (f cl)"
  shows "I (update_client c f h)"
  using assms by (auto simp: update_client_def intro: I_client split: option.split)

lemma I_replies:
  "I h \<Longrightarrow> I (sendResult c i r h)" "I h \<Longrightarrow> I (sendErrorWithData c i code t d h)"
  "I h \<Longrightarrow> I (sendError c i code t h)"
  by (simp_all add: sendResult_def sendError_def sendErrorWithData_def I_send)

lemma I_ack_if: "I h \<Longrightarrow> I (ack_if now msg s b st h)"
  by (simp add: ack_if_def sendDeliveryAck_def I_send split: option.split)

lemma I_queueForOffline: "I h \<Longrightarrow> I (queueForOffline e i msg data d h)"
  by (auto simp: queueForOffline_def intro: I_queue enq split: option.split sum.split)

lemma I_fan_out: "I h \<Longrightarrow> I (fan_out e msg data k ms h)"
  by (induction ms arbitrary: k h) (auto intro: I_send I_queueForOffline split: option.split)

lemma I_RouteToChannel: "I h \<Longrightarrow> I (snd (RouteToChannel e st msg data h))"
  by (auto simp: RouteToChannel_def intro: I_fan_out split: sum.split)

lemma I_Route: "I h \<Longrightarrow> I (snd (Route e msg data h))"
  using I_RouteToChannel [of h _ msg data] I_send [of h]
  by (auto simp: Route_def Let_def split_beta intro!: I_ack_if intro: I_queue enq
      split: option.split sum.split bool.split prod.split)

lemma I_broadcast: "I h \<Longrightarrow> I (broadcast_loop cs s f seen h)"
  by (induction cs arbitrary: seen h) (auto simp: I_send split: option.split)

lemma I_deliver_batch: "I h \<Longrightarrow> I (snd (deliver_batch e c ms h))"
  using I_send
  by (induction ms arbitrary: h)
     (auto simp: Let_def split_beta intro: I_queue enq split: option.split sum.split)

lemma I_deliver_loop: "I h \<Longrightarrow> deliver_loop n e c d h = Some h' \<Longrightarrow> I h'"
proof (induction n arbitrary: h)
  case (Suc n)
  show ?case
  proof (cases "hub_queue h")
    case None
    then show ?thesis using Suc.prems by simp
  next
    case (Some q)
    show ?thesis
    proof (cases "Dequeue (e_qsort e) (e_now e) d 100 q")
      case (Inl err)
      then show ?thesis using Suc.prems Some by simp
    next
      case (Inr r)
      obtain ms q' where r: "r = (ms, q')" by force
      let ?h1 = "h\<lparr>hub_queue := Some q'\<rparr>"
      have "I ?h1" using I_queue [OF Suc.prems(1) Some deq] Inr r by blast
      moreover from this have "I (snd (deliver_batch e c ms ?h1))" by (rule I_deliver_batch)
      ultimately show ?thesis
        using Suc.prems(2) Suc.IH [of "snd (deliver_batch e c ms ?h1)"] Some Inr
        by (auto simp: r Let_def split_beta split: if_splits)
    qed
  qed
qed simp

lemma I_deliver: "I h \<Longrightarrow> I (deliverQueuedMessages e c h)"
  by (auto simp: deliverQueuedMessages_def with_client_def simp del: deliver_loop.simps
      intro: I_deliver_loop split: option.split)

lemma conns_update_client:
  "map_of (conns h) c = Some cl \<Longrightarrow> map_of (conns (update_client c f h)) c = Some (f cl)"
  by (simp add: update_client_def map_of_simps)

lemma I_finish:
  assumes "I h" and "map_of (conns h) c = Some cl"
  shows "I (deliverQueuedMessages e c (sendResult c i r (Broadcast e c f (h\<lparr>clients := mput d c (clients h)\<rparr>))))"
  using assms by (auto simp: Broadcast_def intro!: I_deliver I_replies I_broadcast intro: I_clients)

lemma I_complete_registration:
  assumes "I h" and "map_of (conns h) c = Some cl"
  shows "I (complete_registration e c i a h)"
proof -
  let ?a = "SetOnline (e_now e) a"
  let ?h1 = "update_client c (\<lambda>cl. cl\<lparr>client_DID := DID ?a\<rparr>) h"
  let ?h2 = "?h1\<lparr>hub_store := Put ?a (hub_store ?h1)\<rparr>"
  let ?h3 = "\<lambda>n k. update_client c (\<lambda>cl. cl\<lparr>gatewayNamespace := n, gatewaySigningKey := k\<rparr>) ?h2"
  have h2: "I ?h2"
    using assms(1) by (intro I_put I_update_client) (simp_all add: same_channel_def)
  have c2: "map_of (conns ?h2) c = Some (cl\<lparr>client_DID := DID ?a\<rparr>)"
    using conns_update_client [OF assms(2)] by simp
  have h3: "I (?h3 n k)" for n k
    using h2 by (intro I_update_client) (simp_all add: same_channel_def)
  note c3 = conns_update_client [OF c2]
  show ?thesis
  proof (cases "Role ?a = ''gateway'' \<and> DelegationNamespace ?a \<noteq> ''''")
    case True
    then show ?thesis
      unfolding complete_registration_def Let_def if_P [OF True] by (intro I_finish [OF h3 c3])
  next
    case False
    show ?thesis
      unfolding complete_registration_def Let_def if_not_P [OF False] by (intro I_finish [OF h2 c2])
  qed
qed

lemma I_with_client: "I h \<Longrightarrow> (\<And>cl. map_of (conns h) c = Some cl \<Longrightarrow> I (f cl)) \<Longrightarrow> I (with_client c h f)"
  by (simp add: with_client_def split: option.split)

text \<open>The state after a limiter of connection \<open>c\<close> was polled.\<close>

lemma I_limited:
  assumes "I h" and "map_of (conns h) c = Some cl" and "same_channel cl cl'"
  shows "I (h\<lparr>conns := mput c cl' (conns h)\<rparr>)" "map_of (conns (h\<lparr>conns := mput c cl' (conns h)\<rparr>)) c = Some cl'"
  using I_client [OF assms] by (simp_all add: map_of_simps)

lemma I_handleRegister:
  assumes "I h"
  shows "I (handleRegister e c req h)"
  unfolding handleRegister_def
  apply (rule I_with_client [OF assms])
  subgoal premises cl0 for cl0
  proof -
    obtain ok rl where al: "Allow (e_now e) (registerLimiter cl0) = (ok, rl)" by force
    note h = I_limited [OF assms cl0 same_channel_updates(1)]
    note reg = I_complete_registration [OF h]
    show ?thesis
      unfolding Let_def al prod.case
      by (simp add: I_replies h reg del: RelayHub.simps split: option.split prod.split)
  qed
  done

lemma I_handleRegisterSubordinate: "I h \<Longrightarrow> I (handleRegisterSubordinate e c req h)"
  unfolding handleRegisterSubordinate_def
  by (rule I_with_client) (simp_all add: I_replies I_put Let_def split: option.split prod.split)

lemma I_handleDiscover:
  assumes "I h"
  shows "I (handleDiscover e c req h)"
  unfolding handleDiscover_def
  apply (rule I_with_client [OF assms])
  subgoal premises cl0 for cl0
  proof -
    obtain ok rl where al: "Allow (e_now e) (discoverLimiter cl0) = (ok, rl)" by force
    note h = I_limited [OF assms cl0 same_channel_updates(2)]
    show ?thesis
      unfolding Let_def al prod.case by (simp add: I_replies h del: RelayHub.simps)
  qed
  done

lemma I_handleLookup:
  assumes "I h"
  shows "I (handleLookup e c req h)"
  unfolding handleLookup_def
  apply (rule I_with_client [OF assms])
  subgoal premises cl0 for cl0
  proof -
    obtain ok rl where al: "Allow (e_now e) (discoverLimiter cl0) = (ok, rl)" by force
    note h = I_limited [OF assms cl0 same_channel_updates(2)]
    show ?thesis
      unfolding Let_def al prod.case
      by (simp add: I_replies h del: RelayHub.simps split: option.split sum.split)
  qed
  done

lemma I_notify_loop: "I h \<Longrightarrow> I (notify_loop subs d info h)"
  by (induction subs arbitrary: h)
     (auto simp: sendPresenceNotification_def I_send split: option.split)

lemma I_pm_UpdatePresence: "I h \<Longrightarrow> I (pm_UpdatePresence e d st txt pm h)"
  by (simp add: pm_UpdatePresence_def notifyPresenceChange_def Let_def I_notify_loop I_presence)

lemma I_handlePresence:
  assumes "I h"
  shows "I (handlePresenceUpdate e c req h)" "I (handlePresenceSubscribe e c req h)"
    "I (handlePresenceUnsubscribe e c req h)" "I (handlePresenceQuery e c req h)"
  unfolding handlePresenceUpdate_def handlePresenceSubscribe_def handlePresenceUnsubscribe_def
    handlePresenceQuery_def
  by (rule I_with_client [OF assms],
      simp add: assms I_replies I_presence I_pm_UpdatePresence Let_def split: option.split prod.split)+

lemma I_handleTypingIndicator: "I h \<Longrightarrow> I (handleTypingIndicator e msg data h)"
  by (simp add: handleTypingIndicator_def Let_def I_Route I_presence split: option.split)

lemma resolve_channel_stored:
  "resolve_channel e p st = Inr ch \<Longrightarrow> \<exists>i. map_of (channels st) i = Some ch"
  by (auto simp: resolve_channel_def GetChannelByName_def GetChannel_def split: if_splits option.splits sum.splits)

lemma I_with_channel:
  assumes "I h"
    and "\<And>cl p st ch i. map_of (conns h) c = Some cl \<Longrightarrow> hub_channels h = Some st \<Longrightarrow>
      map_of (channels st) i = Some ch \<Longrightarrow> I (f cl p st ch)"
  shows "I (with_channel e c req h f)"
  unfolding with_channel_def Let_def
  by (rule I_with_client [OF assms(1)])
     (auto simp: I_replies assms(1) split: option.split sum.split dest!: resolve_channel_stored intro: assms(2))

lemma I_channel_update:
  assumes "I h" "hub_channels h = Some st" "map_of (channels st) i = Some ch"
    "channel_Name ch' = channel_Name ch" "channel_ID ch' = channel_ID ch" "channel_ok ch \<Longrightarrow> channel_ok ch'"
    "UpdateChannel ch' st = Inr st'"
  shows "I (h\<lparr>hub_channels := Some st'\<rparr>)"
  using I_chan [OF assms(1,2) chan_update [OF assms(3-7)]] .

lemma I_handleChannelJoin: "I h \<Longrightarrow> I (handleChannelJoin e c req h)"
  unfolding handleChannelJoin_def
  by (rule I_with_channel)
     (auto simp: Let_def AddMember_ok dest: AddMember_Inr
       intro!: I_replies intro: I_channel_update split: sum.split)

lemma I_handleChannelLeave:
  assumes "I h"
  shows "I (handleChannelLeave e c req h)"
  unfolding handleChannelLeave_def
  apply (rule I_with_channel [OF assms])
  subgoal premises st for cl p st ch i
  proof -
    obtain b ch' where r: "RemoveMember (e_now e) (client_DID cl) ch = (b, ch')" by force
    have "I (h\<lparr>hub_channels := Some st'\<rparr>)" if "\<not> IsOwner (client_DID cl) ch" b "UpdateChannel ch' st = Inr st'" for st'
      using I_channel_update [OF assms st(2,3) _ _ _ that(3)] r that(1,2) RemoveMember_ok [of ch "e_now e" "client_DID cl" ch']
      by (auto simp: RemoveMember_def IsOwner_def split: option.splits)
    then show ?thesis
      unfolding Let_def r prod.case by (auto intro!: I_replies assms split: sum.split)
  qed
  done

lemma I_handleChannelList: "I h \<Longrightarrow> I (handleChannelList e c req h)"
  unfolding handleChannelList_def
  by (rule I_with_client) (auto simp: Let_def intro!: I_replies split: option.split)

lemma I_handleChannelMembers: "I h \<Longrightarrow> I (handleChannelMembers e c req h)"
  unfolding handleChannelMembers_def by (rule I_with_channel) (auto simp: Let_def intro!: I_replies)

lemma I_notify_members: "I h \<Longrightarrow> I (notify_members ms f h)"
  by (induction ms arbitrary: h) (auto simp: I_send split: option.split)

lemma I_handleChannelDelete: "I h \<Longrightarrow> I (handleChannelDelete e c req h)"
  unfolding handleChannelDelete_def
  by (rule I_with_channel)
     (auto simp: Let_def intro!: I_replies I_notify_members intro: I_chan chan_delete split: sum.split)

lemma I_handleSenderKeyDistribute:
  assumes "I h"
  shows "I (handleSenderKeyDistribute e c req h)"
  unfolding handleSenderKeyDistribute_def
  apply (rule I_with_channel [OF assms])
  subgoal premises st for cl p st ch i
  proof -
    let ?k = "Some \<lparr>ChainKey = cp_ChainKey p, SignatureKey = cp_SignatureKey p, Iteration = 0\<rparr>"
    have "I (h\<lparr>hub_channels := Some st'\<rparr>)"
      if "UpdateChannel (snd (SetSenderKey (e_now e) (client_DID cl) ?k ch)) st = Inr st'" for st'
      using I_channel_update [OF assms st(2,3) _ _ _ that] by (simp add: SetSenderKey_members SetSenderKey_ok)
    then show ?thesis
      unfolding Let_def split_beta by (auto intro!: I_replies I_notify_members assms split: sum.split)
  qed
  done

lemma I_message_limits:
  assumes "I h" and "map_of (conns h) c = Some cl"
  shows "I (snd (message_limits e c cl h))"
  using I_limited [OF assms same_channel_updates(3)]
  by (auto simp: message_limits_def Let_def split_beta I_pool split: option.split)

lemma I_route_request:
  assumes "I h"
  shows "I (route_request e c data req h)"
  unfolding route_request_def
  apply (rule I_with_client [OF assms])
  subgoal premises cl for cl
  proof -
    obtain r h1 where lim: "message_limits e c cl h = (r, h1)" by force
    have h1: "I h1" using I_message_limits [OF assms cl] lim by simp
    show ?thesis
      unfolding Let_def split_beta lim
      by (simp add: I_replies h1 I_handleTypingIndicator I_Route split: option.split sum.split prod.split)
  qed
  done

lemmas I_handlers = I_handleRegister I_handleRegisterSubordinate I_handleDiscover I_handleLookup I_handlePresence
  I_handleChannelJoin I_handleChannelLeave I_handleChannelList I_handleChannelMembers
  I_handleChannelDelete I_handleSenderKeyDistribute I_route_request

text \<open>Creating a channel is left to the instances: it may need a fresh ID.\<close>

lemma I_handleMessage:
  "I h \<Longrightarrow> (\<And>req. I (handleChannelCreate e c req h)) \<Longrightarrow> I (handleMessage e c data h)"
  unfolding handleMessage_def by (simp add: I_handlers split: sum.split)

lemma I_read_one:
  assumes "I h" and "\<And>req. I (handleChannelCreate e c req (update_client c (\<lambda>cl. cl\<lparr>lastActivity := e_now e\<rparr>) h))"
  shows "I (read_one e c data h)"
  unfolding read_one_def by (intro I_handleMessage assms(2) I_update_client assms(1) same_channel_updates)

end

text \<open>For properties that do not depend on the channels, creation is one more elementary change.\<close>

locale handler_closed_all = handler_closed +
  assumes I_channels: "I h \<Longrightarrow> I (h\<lparr>hub_channels := st\<rparr>)"
begin

lemma I_handleChannelCreate: "I h \<Longrightarrow> I (handleChannelCreate e c req h)"
  unfolding handleChannelCreate_def
  by (rule I_with_client) (auto simp: Let_def intro!: I_replies I_channels split: option.split sum.split)

lemma I_handleMessage_all: "I h \<Longrightarrow> I (handleMessage e c data h)"
  by (intro I_handleMessage I_handleChannelCreate)

lemma I_read_one_all: "I h \<Longrightarrow> I (read_one e c data h)"
  unfolding read_one_def by (intro I_handleMessage_all I_update_client same_channel_updates)

end

text \<open>No frame a client sends changes the relay's settings or its connection count.\<close>

definition settings :: "RelayHub \<Rightarrow> RelayConfig \<times> ACLPolicy option \<times> (string \<Rightarrow> Tenant option) option \<times> int \<times> bool" where
  "settings h = (hub_config h, allowlistACL h, billingStore h, connections h, hub_stopped h)"

lemma settings_updates [simp]:
  "settings (h\<lparr>hub_store := a\<rparr>) = settings h" "settings (h\<lparr>hub_queue := b\<rparr>) = settings h"
  "settings (h\<lparr>hub_channels := d\<rparr>) = settings h" "settings (h\<lparr>hub_presence := p\<rparr>) = settings h"
  "settings (h\<lparr>tenantPool := t\<rparr>) = settings h" "settings (h\<lparr>panicked := x\<rparr>) = settings h"
  "settings (h\<lparr>conns := y\<rparr>) = settings h" "settings (h\<lparr>clients := z\<rparr>) = settings h"
  by (simp_all add: settings_def)

lemma settings_send [simp]: "settings (snd (send c f h)) = settings h"
  by (simp add: send_def split: option.split)

interpretation fixed: handler_closed_all e "\<lambda>h. settings h = s" for e :: "'a relay_env_scheme" and s
  by unfold_locales simp_all

lemma read_one_settings: "settings (read_one e c data h) = settings h"
  by (rule fixed.I_read_one_all) simp

section \<open>The invariant of the hub\<close>

definition clients_ok :: "RelayHub \<Rightarrow> bool" where
  "clients_ok h \<longleftrightarrow> (\<forall>k c. map_of (clients h) k = Some c \<longrightarrow> map_of (conns h) c \<noteq> None)
     \<and> (\<forall>c cl. map_of (conns h) c = Some cl \<longrightarrow> length (SendCh cl) \<le> wsSendBufferSize)"

definition running_ok :: "RelayHub \<Rightarrow> bool" where
  "running_ok h \<longleftrightarrow> hub_stopped h \<or>
     \<not> panicked h \<and> (\<forall>c cl. map_of (conns h) c = Some cl \<longrightarrow> \<not> send_closed cl \<and> \<not> stopped cl)"

definition hub_inv :: "RelayHub \<Rightarrow> bool" where
  "hub_inv h \<longleftrightarrow> clients_ok h \<and> running_ok h
     \<and> (\<forall>q. hub_queue h = Some q \<longrightarrow> store_inv q) \<and> (\<forall>st. hub_channels h = Some st \<longrightarrow> channels_ok st)"

lemma clients_ok_conns:
  assumes "clients_ok h" and "length (SendCh cl) \<le> wsSendBufferSize"
  shows "clients_ok (h\<lparr>conns := mput c cl (conns h)\<rparr>)"
  using assms unfolding clients_ok_def
  by (auto simp: map_of_simps split: if_splits)

lemma clients_ok_clients:
  "clients_ok h \<Longrightarrow> map_of (conns h) c = Some cl \<Longrightarrow> clients_ok (h\<lparr>clients := mput k c (clients h)\<rparr>)"
  unfolding clients_ok_def
  by (auto simp: map_of_simps split: if_splits)

lemma clients_okD:
  "clients_ok h \<Longrightarrow> map_of (conns h) c = Some cl \<Longrightarrow> length (SendCh cl) \<le> wsSendBufferSize"
  by (auto simp: clients_ok_def)

lemma running_ok_conns:
  assumes "running_ok h" and "\<not> hub_stopped h \<Longrightarrow> \<not> send_closed cl \<and> \<not> stopped cl"
  shows "running_ok (h\<lparr>conns := mput c cl (conns h)\<rparr>)"
  using assms unfolding running_ok_def by (auto simp: map_of_simps split: if_splits)

lemma running_okD:
  "running_ok h \<Longrightarrow> \<not> hub_stopped h \<Longrightarrow> map_of (conns h) c = Some cl \<Longrightarrow> \<not> send_closed cl \<and> \<not> stopped cl"
  by (auto simp: running_ok_def)

lemma frame_simps [simp]:
  "clients_ok (h\<lparr>hub_store := a\<rparr>) = clients_ok h" "clients_ok (h\<lparr>hub_queue := b\<rparr>) = clients_ok h"
  "clients_ok (h\<lparr>hub_channels := d\<rparr>) = clients_ok h" "clients_ok (h\<lparr>hub_presence := p\<rparr>) = clients_ok h"
  "clients_ok (h\<lparr>tenantPool := t\<rparr>) = clients_ok h" "clients_ok (h\<lparr>panicked := x\<rparr>) = clients_ok h"
  "clients_ok (h\<lparr>hub_stopped := y\<rparr>) = clients_ok h" "clients_ok (h\<lparr>connections := n\<rparr>) = clients_ok h"
  "running_ok (h\<lparr>hub_store := a\<rparr>) = running_ok h" "running_ok (h\<lparr>hub_queue := b\<rparr>) = running_ok h"
  "running_ok (h\<lparr>hub_channels := d\<rparr>) = running_ok h" "running_ok (h\<lparr>hub_presence := p\<rparr>) = running_ok h"
  "running_ok (h\<lparr>tenantPool := t\<rparr>) = running_ok h" "running_ok (h\<lparr>clients := m\<rparr>) = running_ok h"
  "running_ok (h\<lparr>connections := n\<rparr>) = running_ok h"
  by (simp_all add: clients_ok_def running_ok_def)

lemma hub_inv_send: "hub_inv h \<Longrightarrow> hub_inv (snd (send c f h))"
proof (cases "map_of (conns h) c")
  case (Some cl)
  assume inv: "hub_inv h"
  have "running_ok (h\<lparr>panicked := True\<rparr>)" if "send_closed cl"
    using inv that Some running_okD [of h c cl] by (auto simp: hub_inv_def running_ok_def)
  moreover have "running_ok (h\<lparr>conns := mput c (cl\<lparr>SendCh := SendCh cl @ [f]\<rparr>) (conns h)\<rparr>)"
    using inv Some running_okD [of h c cl] by (auto simp: hub_inv_def intro!: running_ok_conns)
  ultimately show ?thesis
    using inv Some by (auto simp: send_def hub_inv_def intro!: clients_ok_conns)
qed (simp add: send_def)

lemma hub_invD:
  assumes "hub_inv h"
  shows "clients_ok h" "running_ok h" "hub_queue h = Some q \<Longrightarrow> store_inv q" "hub_channels h = Some st \<Longrightarrow> channels_ok st"
  using assms by (auto simp: hub_inv_def)

lemma hub_inv_client:
  assumes "hub_inv h" and "map_of (conns h) c = Some cl" and "same_channel cl cl'"
  shows "hub_inv (h\<lparr>conns := mput c cl' (conns h)\<rparr>)"
proof -
  have "clients_ok (h\<lparr>conns := mput c cl' (conns h)\<rparr>)"
    using clients_okD [OF hub_invD(1) [OF assms(1)] assms(2)] assms(3)
    by (intro clients_ok_conns hub_invD(1) assms(1)) (simp add: same_channel_def)
  moreover have "running_ok (h\<lparr>conns := mput c cl' (conns h)\<rparr>)"
    using running_okD [OF hub_invD(2) [OF assms(1)] _ assms(2)] assms(3)
    by (intro running_ok_conns hub_invD(2) assms(1)) (simp add: same_channel_def)
  ultimately show ?thesis using assms(1) by (simp add: hub_inv_def)
qed

lemma queue_step_inv:
  assumes "env_ok e" and "store_inv q" and "queue_step e q q'"
  shows "store_inv q'"
proof -
  have e: "range_order (e_queues e)" "sort_func QueuedAt (e_qsort e)" using assms(1) by (simp_all add: env_ok_def)
  from assms(3) show ?thesis
  proof (rule queue_stepE)
    fix m assume "Enqueue (e_queues e) m q = Inr q'"
    then show ?thesis by (rule Enqueue_inv [OF e(1) assms(2)])
  next
    fix d n ms assume "Dequeue (e_qsort e) (e_now e) d n q = Inr (ms, q')"
    then show ?thesis by (rule Dequeue_conserves(1) [OF e(2) assms(2)])
  qed
qed

lemma chan_step_inv:
  assumes "channels_ok st" and "chan_step st st'"
  shows "channels_ok st'"
  using assms(2)
proof (rule chan_stepE)
  fix i ch ch' assume ch: "map_of (channels st) i = Some ch" "channel_Name ch' = channel_Name ch"
    "channel_ID ch' = channel_ID ch" "channel_ok ch \<Longrightarrow> channel_ok ch'" "UpdateChannel ch' st = Inr st'"
  have v: "channel_ID ch = i" "channel_ok ch" using channel_view_ok [OF assms(1) ch(1)] by auto
  then have "map_of (channels st) (channel_ID ch') = Some ch" using ch by simp
  from UpdateChannel_inv [OF assms(1) this] ch v show ?thesis by auto
next
  fix i assume d: "DeleteChannel i st = Inr st'"
  then obtain ch where "map_of (channels st) i = Some ch"
    by (auto simp only: DeleteChannel_def split: option.splits)
  from DeleteChannel_inv [OF assms(1) this] d show ?thesis by auto
qed

interpretation hubinv: handler_closed e "\<lambda>h. env_ok e \<and> hub_inv h" for e :: "'a relay_env_scheme"
proof
  show "env_ok e \<and> hub_inv h \<Longrightarrow> env_ok e \<and> hub_inv (snd (send c f h))" for h c f
    by (simp add: hub_inv_send)
  show "env_ok e \<and> hub_inv h \<Longrightarrow> map_of (conns h) c = Some cl \<Longrightarrow> same_channel cl cl' \<Longrightarrow>
      env_ok e \<and> hub_inv (h\<lparr>conns := mput c cl' (conns h)\<rparr>)" for h c cl cl'
    by (simp add: hub_inv_client)
  show "env_ok e \<and> hub_inv h \<Longrightarrow> map_of (conns h) c = Some cl \<Longrightarrow>
      env_ok e \<and> hub_inv (h\<lparr>clients := mput k c (clients h)\<rparr>)" for h c cl k
    using clients_ok_clients [of h c cl k] by (simp add: hub_inv_def)
  show "env_ok e \<and> hub_inv h \<Longrightarrow> hub_queue h = Some q \<Longrightarrow> queue_step e q q' \<Longrightarrow>
      env_ok e \<and> hub_inv (h\<lparr>hub_queue := Some q'\<rparr>)" for h q q'
    using queue_step_inv [of e q q'] by (simp add: hub_inv_def)
  show "env_ok e \<and> hub_inv h \<Longrightarrow> hub_channels h = Some st \<Longrightarrow> chan_step st st' \<Longrightarrow>
      env_ok e \<and> hub_inv (h\<lparr>hub_channels := Some st'\<rparr>)" for h st st'
    using chan_step_inv [of st st'] by (simp add: hub_inv_def)
qed (simp_all add: hub_inv_def)

text \<open>The new channel's ID is not in use.\<close>

definition fresh_channel :: "'a hub_env_scheme \<Rightarrow> RelayHub \<Rightarrow> bool" where
  "fresh_channel e h \<longleftrightarrow> (case hub_channels h of None \<Rightarrow> True | Some st \<Rightarrow> map_of (channels st) (e_uuid e 0) = None)"

lemma hub_inv_replies:
  assumes "hub_inv h"
  shows "hub_inv (sendResult c i r h)" "hub_inv (sendErrorWithData c i code t d h)" "hub_inv (sendError c i code t h)"
  using assms by (simp_all add: sendResult_def sendError_def sendErrorWithData_def hub_inv_send)

lemma hub_inv_create:
  assumes "hub_inv h" and "fresh_channel e h"
  shows "hub_inv (handleChannelCreate e c req h)"
proof -
  have created: "hub_inv (h\<lparr>hub_channels := Some st'\<rparr>)"
    if "hub_channels h = Some st" "CreateChannel (NewChannel (e_uuid e 0) now n ty d\<lparr>channel_Description := x\<rparr>) st = Inr st'"
    for st st' now n ty d x
  proof -
    have "channel_ok (NewChannel (e_uuid e 0) now n ty d\<lparr>channel_Description := x\<rparr>)"
      by (simp add: channel_ok_def NewChannel_def MemberDIDs_def)
    from CreateChannel_inv [OF hub_invD(4) [OF assms(1) that(1)] that(2) this]
    have "channels_ok st'" using assms(2) that(1) by (simp add: fresh_channel_def NewChannel_def)
    then show ?thesis using assms(1) by (simp add: hub_inv_def)
  qed
  show ?thesis
    unfolding handleChannelCreate_def with_client_def Let_def
    by (simp add: hub_inv_replies assms(1) created split: option.split sum.split)
qed

section \<open>Reachable states\<close>

text \<open>
  The steps of a running relay: a connection is admitted (whatever its check of the connection
  limit read), a frame is read and handled, a frame is written to the socket, a connection ends,
  the hourly queue cleanup and the typing cleanup run, and the hub is stopped.
\<close>

inductive relay_step :: "RelayHub \<Rightarrow> RelayHub \<Rightarrow> bool" where
  connect: "map_of (conns h) c = None \<Longrightarrow> \<not> hub_stopped h \<Longrightarrow> relay_step h (ws_admit now c tenant h)"
| receive: "env_ok e \<Longrightarrow> fresh_channel e h \<Longrightarrow> relay_step h (read_one (e :: relay_env) c data h)"
| write_frame: "relay_step h (snd (write_one c h))"
| disconnect: "relay_step h (ws_close c h)"
| cleanup: "env_ok (e :: relay_env) \<Longrightarrow> relay_step h (cleanup_tick e h)"
| typing: "relay_step h (h\<lparr>hub_presence := map_option (cleanupExpiredTyping now) (hub_presence h)\<rparr>)"
| shutdown: "relay_step h (Stop (e :: relay_env) h)"

inductive relay_reachable :: "RelayConfig \<Rightarrow> RelayHub \<Rightarrow> bool" for cfg where
  initial: "relay_reachable cfg (NewRelayHub cfg)"
| step: "relay_reachable cfg h \<Longrightarrow> relay_step h h' \<Longrightarrow> relay_reachable cfg h'"

inductive_cases relay_stepE: "relay_step h h'"

lemma hub_inv_New: "hub_inv (NewRelayHub cfg)"
  by (simp add: hub_inv_def clients_ok_def running_ok_def NewRelayHub_def NewRelayHubWithStore_def NewMemoryStore_inv)

lemma hub_inv_admit:
  assumes "hub_inv h" and "\<not> hub_stopped h"
  shows "hub_inv (ws_admit now c tenant h)"
proof -
  let ?h = "h\<lparr>connections := connections h + 1, conns := mput c (new_client (hub_config h) now tenant) (conns h)\<rparr>"
  have "hub_inv ?h"
    using assms clients_ok_conns [of "h\<lparr>connections := connections h + 1\<rparr>" "new_client (hub_config h) now tenant" c]
      running_ok_conns [of "h\<lparr>connections := connections h + 1\<rparr>" "new_client (hub_config h) now tenant" c]
    by (simp add: hub_inv_def new_client_def)
  moreover have "map_of (conns ?h) c = Some (new_client (hub_config h) now tenant)" by (simp add: map_of_simps)
  ultimately have "hub_inv (?h\<lparr>clients := mput c c (clients ?h)\<rparr>)"
    using clients_ok_clients [of ?h c _ c] by (simp add: hub_inv_def)
  then show ?thesis
    by (simp add: ws_admit_def Register_def map_of_simps new_client_def)
qed

lemma hub_inv_write: "hub_inv h \<Longrightarrow> hub_inv (snd (write_one c h))"
proof (cases "map_of (conns h) c")
  case (Some cl)
  assume inv: "hub_inv h"
  have "hub_inv (h\<lparr>conns := mput c (cl\<lparr>SendCh := fs\<rparr>) (conns h)\<rparr>)" if "SendCh cl = f # fs" for f fs
    using inv that clients_okD [of h c cl] running_okD [of h c cl] Some
      clients_ok_conns [of h "cl\<lparr>SendCh := fs\<rparr>" c] running_ok_conns [of h "cl\<lparr>SendCh := fs\<rparr>" c]
    by (simp add: hub_inv_def)
  with Some inv show ?thesis by (auto simp: write_one_def split: list.split)
qed (simp add: write_one_def)

lemma hub_inv_close: "hub_inv h \<Longrightarrow> hub_inv (ws_close c h)"
  by (auto simp: ws_close_def Unregister_def Let_def hub_inv_def clients_ok_def map_of_simps split: option.splits if_splits)

lemma hub_inv_cleanup:
  assumes "env_ok e" and "hub_inv h"
  shows "hub_inv (cleanup_tick e h)"
proof (cases "hub_queue h")
  case (Some q)
  have "store_inv q'" if "Cleanup (e_queues e) (e_now e) q = Inr (n, q')" for n q'
    using Cleanup_spec(1) [OF _ hub_invD(3) [OF assms(2) Some] that] assms(1) by (simp add: env_ok_def)
  then show ?thesis
    using assms(2) Some by (auto simp: cleanup_tick_def hub_inv_def split: sum.split)
qed (simp add: cleanup_tick_def assms(2))

lemma stop_loop_inv:
  assumes "clients_ok h" and "hub_stopped h"
  shows "clients_ok (stop_loop cs ds h) \<and> hub_stopped (stop_loop cs ds h)
    \<and> hub_queue (stop_loop cs ds h) = hub_queue h \<and> hub_channels (stop_loop cs ds h) = hub_channels h"
  using assms
proof (induction cs arbitrary: ds h)
  case (Cons x cs)
  obtain k c where x: "x = (k, c)" by force
  let ?h = "case map_of (conns h) c of None \<Rightarrow> h
    | Some cl \<Rightarrow> if send_closed cl then h\<lparr>panicked := True\<rparr>
        else h\<lparr>conns := mput c (cl\<lparr>stopped := True, send_closed := True\<rparr>) (conns h)\<rparr>"
  have "clients_ok ?h \<and> hub_stopped ?h \<and> hub_queue ?h = hub_queue h \<and> hub_channels ?h = hub_channels h"
    using Cons.prems clients_okD [OF Cons.prems(1), of c]
    by (auto intro!: clients_ok_conns split: option.split)
  then show ?case
    using Cons.IH [of ?h "c # ds"] Cons.IH [of h ds] Cons.prems unfolding x by (simp del: option.case_distrib)
qed simp

lemma hub_inv_Stop: "hub_inv h \<Longrightarrow> hub_inv (Stop e h)"
  using stop_loop_inv [of "h\<lparr>hub_stopped := True\<rparr>" "e_clients e (clients h)" "[]"]
  by (auto simp: Stop_def Let_def hub_inv_def running_ok_def Close_inv)

lemma hub_channels_update_client [simp]: "hub_channels (update_client c f h) = hub_channels h"
  by (simp add: update_client_def split: option.split)

lemma hub_inv_read:
  assumes "env_ok e" and "fresh_channel e h" and "hub_inv h"
  shows "hub_inv (read_one e c data h)"
proof -
  let ?h = "update_client c (\<lambda>cl. cl\<lparr>lastActivity := e_now e\<rparr>) h"
  have h: "hub_inv ?h"
    using hubinv.I_update_client [of e h "\<lambda>cl. cl\<lparr>lastActivity := e_now e\<rparr>"] assms(1,3) same_channel_updates(4)
    by blast
  have "fresh_channel e ?h" using assms(2) by (simp only: fresh_channel_def hub_channels_update_client)
  from hub_inv_create [OF h this] assms(1)
  have create: "env_ok e \<and> hub_inv (handleChannelCreate e c req ?h)" for req by blast
  have "env_ok e \<and> hub_inv (read_one e c data h)"
    by (rule hubinv.I_read_one) (use assms create in blast)+
  then show ?thesis by blast
qed

lemma relay_step_inv:
  assumes "hub_inv h" and "relay_step h h'"
  shows "hub_inv h'"
  using assms(2)
proof cases
  case (receive e c data)
  then show ?thesis using hub_inv_read assms(1) by blast
next
  case (typing now)
  then show ?thesis using assms(1) by (simp add: hub_inv_def)
qed (use assms(1) in \<open>simp_all add: hub_inv_admit hub_inv_write hub_inv_close hub_inv_cleanup hub_inv_Stop\<close>)

lemma relay_reachable_inv: "relay_reachable cfg h \<Longrightarrow> hub_inv h"
  by (induction rule: relay_reachable.induct) (auto intro: hub_inv_New relay_step_inv)

text \<open>The configuration is that of the start, and the connection count is the admissions minus the
  ends of connections.\<close>

lemma stop_loop_config [simp]: "hub_config (stop_loop cs ds h) = hub_config h"
  by (induction cs ds h rule: stop_loop.induct) (simp_all split: option.split)

lemma relay_step_config:
  assumes "relay_step h h'"
  shows "hub_config h' = hub_config h"
  using assms
proof cases
  case (receive e c data)
  then show ?thesis using read_one_settings [of e c data h] by (simp add: settings_def)
qed (auto simp: ws_admit_def Register_def Let_def write_one_def ws_close_def Unregister_def cleanup_tick_def
    Stop_def split: option.split list.split sum.split)

lemma relay_reachable_config: "relay_reachable cfg h \<Longrightarrow> hub_config h = cfg"
  by (induction rule: relay_reachable.induct)
    (simp_all add: relay_step_config NewRelayHub_def NewRelayHubWithStore_def)

end
