(* ===== verification/Relay_Contracts.thy ===== *)
theory Relay_Contracts
  imports Relay_Invariant
begin

text \<open>
  Contracts of the relay's operations over the frames waiting for each connection: what routing
  reports is what happened, a channel message reaches exactly the members that are connected and
  have room, a message whose sender is not authenticated goes nowhere, a registration that takes
  effect has passed every check, and registration delivers the queued messages.
\<close>

section \<open>Frames\<close>

definition frames :: "RelayHub \<Rightarrow> cid \<Rightarrow> frame list" where
  "frames h c = (case map_of (conns h) c of None \<Rightarrow> [] | Some cl \<Rightarrow> SendCh cl)"

named_theorems relay_frame \<open>what the elementary operations leave unchanged\<close>

lemma frames_updates [simp]:
  "frames (h\<lparr>hub_store := a\<rparr>) = frames h" "frames (h\<lparr>hub_queue := b\<rparr>) = frames h"
  "frames (h\<lparr>hub_channels := d\<rparr>) = frames h" "frames (h\<lparr>hub_presence := p\<rparr>) = frames h"
  "frames (h\<lparr>tenantPool := t\<rparr>) = frames h" "frames (h\<lparr>panicked := x\<rparr>) = frames h"
  "frames (h\<lparr>clients := z\<rparr>) = frames h" "frames (h\<lparr>connections := n\<rparr>) = frames h"
  by (simp_all add: frames_def fun_eq_iff)

text \<open>Whether a frame for the connection would be accepted.\<close>

definition accepts :: "RelayHub \<Rightarrow> cid \<Rightarrow> bool" where
  "accepts h c = (case map_of (conns h) c of None \<Rightarrow> False
     | Some cl \<Rightarrow> \<not> send_closed cl \<and> length (SendCh cl) < wsSendBufferSize)"

lemma send_accepts: "fst (send c f h) = accepts h c"
  by (simp add: send_def accepts_def split: option.split)

lemma frames_send: "frames (snd (send c f h)) d = frames h d @ (if d = c \<and> accepts h c then [f] else [])"
  by (simp add: send_def accepts_def frames_def map_of_simps split: option.split)

lemma send_frame [relay_frame, simp]:
  "hub_queue (snd (send c f h)) = hub_queue h" "clients (snd (send c f h)) = clients h"
  "hub_store (snd (send c f h)) = hub_store h" "hub_channels (snd (send c f h)) = hub_channels h"
  "hub_presence (snd (send c f h)) = hub_presence h" "hub_config (snd (send c f h)) = hub_config h"
  by (simp_all add: send_def split: option.split)

lemma ack_if_frame [relay_frame, simp]:
  "hub_queue (ack_if now msg s b st h) = hub_queue h" "clients (ack_if now msg s b st h) = clients h"
  "hub_store (ack_if now msg s b st h) = hub_store h" "hub_channels (ack_if now msg s b st h) = hub_channels h"
  by (simp_all add: ack_if_def sendDeliveryAck_def split: option.split)

text \<open>The acknowledgement frame of a message, for the sender that asked for one.\<close>

definition ack_frames :: "time \<Rightarrow> Message \<Rightarrow> cid option \<Rightarrow> bool \<Rightarrow> string \<Rightarrow> RelayHub \<Rightarrow> cid \<Rightarrow> frame list" where
  "ack_frames now msg s b st h d =
     (if RequestAck msg \<and> s = Some d \<and> accepts h d
      then [NoteFrame ''relay.ack'' (NoteAck (msg_ID msg) b st now)] else [])"

lemma frames_ack_if: "frames (ack_if now msg s b st h) d = frames h d @ ack_frames now msg s b st h d"
  by (auto simp: ack_if_def sendDeliveryAck_def frames_send ack_frames_def split: option.split)

lemma negative_acks:
  assumes "\<And>d. frames h' d = frames h d @ ack_frames now msg s False st k d"
  shows "\<forall>d. \<exists>acks. frames h' d = frames h d @ acks
    \<and> (\<forall>f \<in> set acks. \<exists>st. f = NoteFrame ''relay.ack'' (NoteAck (msg_ID msg) False st now))"
  by (intro allI exI conjI, rule assms) (auto simp: ack_frames_def)

section \<open>A sample relay\<close>

text \<open>
  The environment and state the witnesses evaluate: no interference from the clock or the map
  orders, a signature that verifies when it repeats the message, and two agents, alice and bob,
  on the connections c1 and c2.
\<close>

definition relay_sample_env :: relay_env where
  "relay_sample_env = \<lparr>e_now = 100, e_uuid = (\<lambda>n. word_of_nat (1000 + n)), e_clients = (\<lambda>m. m), e_queues = (\<lambda>m. m),
     e_qsort = sort_key QueuedAt, e_agents = (\<lambda>m. m), e_channels = (\<lambda>m. m), e_subs = (\<lambda>m. m),
     e_verify = (\<lambda>k m s. m = s), e_didMethod = (\<lambda>d. if HasPrefix d ''did:wba:'' then Some ''wba'' else None),
     e_uuidString = (\<lambda>n. ''''), e_uuidParse = (\<lambda>s. None), e_unix = 100,
     d_request = (\<lambda>_. None), d_message = (\<lambda>_. None), d_registration = (\<lambda>_. None), d_subordinate = (\<lambda>_. None),
     d_capability = (\<lambda>_. ''''), d_did = (\<lambda>_. None), d_presence = (\<lambda>_. None), d_dids = (\<lambda>_. None),
     d_channel = (\<lambda>_. None), d_typing = (\<lambda>_. None)\<rparr>"

definition sample_hub :: RelayHub where
  "sample_hub = (NewRelayHub DefaultRelayConfig)
     \<lparr>conns := [(''c1'', (new_client DefaultRelayConfig 0 '''')\<lparr>client_DID := ''alice''\<rparr>),
               (''c2'', (new_client DefaultRelayConfig 0 '''')\<lparr>client_DID := ''bob''\<rparr>)],
      clients := [(''alice'', ''c1''), (''bob'', ''c2'')], connections := 2\<rparr>"

lemma relay_sample_env_ok: "env_ok relay_sample_env"
  by (simp add: env_ok_def relay_sample_env_def range_order_def sort_func_sort_key)

lemmas sample_simps = sample_hub_def relay_sample_env_def NewRelayHub_def NewRelayHubWithStore_def new_client_def
  DefaultRelayConfig_def

lemma sample_hub_inv: "hub_inv sample_hub"
  by (simp add: hub_inv_def clients_ok_def running_ok_def sample_hub_def NewRelayHub_def NewRelayHubWithStore_def
      new_client_def NewMemoryStore_inv)

section \<open>Routing to an agent\<close>

lemma Route_direct:
  assumes "\<not> IsChannelURI (To msg) \<or> hub_channels h = None"
  shows "Route e msg data h =
    (case map_of (clients h) (To msg) of
       Some c \<Rightarrow>
         (if accepts h c
          then (None, ack_if (e_now e) msg (map_of (clients h) (From msg)) True ''delivered'' (snd (send c (frame.Data data) h)))
          else (Some SendBufferFull,
                ack_if (e_now e) msg (map_of (clients h) (From msg)) False ''buffer full'' (snd (send c (frame.Data data) h))))
     | None \<Rightarrow>
         (case (hub_queue h, EnableOfflineQueue (hub_config h)) of
            (Some q, True) \<Rightarrow>
              (case Enqueue (e_queues e) (offline_message (e_now e) (msg_ID msg) (To msg) (From msg) data h) q of
                 Inl err \<Rightarrow> (Some (RouteQueueFailed err), ack_if (e_now e) msg (map_of (clients h) (From msg)) False ''queue failed'' h)
               | Inr q' \<Rightarrow> (None, ack_if (e_now e) msg (map_of (clients h) (From msg)) True ''queued'' (h\<lparr>hub_queue := Some q'\<rparr>)))
          | _ \<Rightarrow> (Some (RecipientNotFound (To msg)),
                  ack_if (e_now e) msg (map_of (clients h) (From msg)) False ''recipient not found'' h)))"
proof -
  have out: "(case (IsChannelURI (To msg), hub_channels h) of (True, Some st) \<Rightarrow> x st | _ \<Rightarrow> y) = y" for x y
    using assms by (cases "IsChannelURI (To msg)"; cases "hub_channels h") simp_all
  have sent: "(let (ok, h1) = send c (frame.Data data) h in if ok then u h1 else v h1)
      = (if accepts h c then u (snd (send c (frame.Data data) h)) else v (snd (send c (frame.Data data) h)))" for c u v
    by (simp only: Let_def case_prod_beta send_accepts)
  show ?thesis unfolding Route_def out Let_def [of "map_of (clients h) (From msg)"] sent ..
qed

text \<open>
  Property C4. What routing reports is what happened. Routing a message to an agent without an
  error has either appended the message's bytes to the send buffer of the connection the
  recipient is known by, or, when the recipient is not connected, added one message with these
  bytes for the recipient to the offline queue, where at most an oldest message was evicted. When
  routing reports an error, the queue is unchanged and no connection has received the bytes: the
  only frames added are acknowledgements for this message, all of them negative.
\<close>

theorem Route_reports_truth:
  assumes "env_ok e" and "hub_inv h" and "\<not> IsChannelURI (To msg)" and "Route e msg data h = (r, h')"
  shows "(r = None \<longrightarrow>
      (\<exists>c acks. map_of (clients h) (To msg) = Some c \<and> frames h' c = frames h c @ frame.Data data # acks
         \<and> hub_queue h' = hub_queue h) \<or>
      (\<exists>q q' m evicted. map_of (clients h) (To msg) = None \<and> hub_queue h = Some q \<and> hub_queue h' = Some q'
         \<and> RecipientDID m = To msg \<and> QueuedMessage.Data m = data \<and> size evicted \<le> 1
         \<and> evicted \<subseteq># pending q \<and> pending q' = add_mset m (pending q - evicted)))
    \<and> (r \<noteq> None \<longrightarrow> hub_queue h' = hub_queue h \<and>
      (\<forall>d. \<exists>acks. frames h' d = frames h d @ acks
         \<and> (\<forall>f \<in> set acks. \<exists>st. f = NoteFrame ''relay.ack'' (NoteAck (msg_ID msg) False st (e_now e)))))"
proof (cases "map_of (clients h) (To msg)")
  case (Some c)
  let ?s = "map_of (clients h) (From msg)"
  show ?thesis
  proof (cases "accepts h c")
    case True
    then have "frames h' c = frames h c @ frame.Data data # ack_frames (e_now e) msg ?s True ''delivered'' (snd (send c (frame.Data data) h)) c"
      and "r = None" and "hub_queue h' = hub_queue h"
      using assms(3,4) Some by (auto simp: Route_direct frames_ack_if frames_send)
    then show ?thesis using Some by blast
  next
    case False
    then have f: "frames h' d = frames h d @ ack_frames (e_now e) msg ?s False ''buffer full'' (snd (send c (frame.Data data) h)) d"
      and "r \<noteq> None" and "hub_queue h' = hub_queue h" for d
      using assms(3,4) Some by (auto simp: Route_direct frames_ack_if frames_send)
    then show ?thesis using negative_acks [OF f] by blast
  qed
next
  case None
  let ?m = "offline_message (e_now e) (msg_ID msg) (To msg) (From msg) data h"
  show ?thesis
  proof (cases "\<exists>q q'. hub_queue h = Some q \<and> EnableOfflineQueue (hub_config h) \<and> Enqueue (e_queues e) ?m q = Inr q'")
    case True
    then obtain q q' where q: "hub_queue h = Some q" "EnableOfflineQueue (hub_config h)" "Enqueue (e_queues e) ?m q = Inr q'"
      by blast
    have "r = None" "hub_queue h' = Some q'" using assms(3,4) None q by (auto simp: Route_direct)
    moreover have "\<exists>evicted. size evicted \<le> 1 \<and> evicted \<subseteq># pending q \<and> pending q' = add_mset ?m (pending q - evicted)"
    proof -
      have "range_order (e_queues e)" using assms(1) by (simp add: env_ok_def)
      from Enqueue_pending [OF this hub_invD(3) [OF assms(2) q(1)] q(3)] show ?thesis
      proof
        assume "pending q' = add_mset ?m (pending q)"
        then show ?thesis by (intro exI [of _ "{#}"]) simp
      next
        assume "\<exists>x. x \<in># pending q \<and> (\<forall>y \<in># pending q. QueuedAt x \<le> QueuedAt y)
          \<and> pending q' = add_mset ?m (pending q - {#x#})"
        then obtain x where "x \<in># pending q" "pending q' = add_mset ?m (pending q - {#x#})" by blast
        then show ?thesis by (intro exI [of _ "{#x#}"]) simp
      qed
    qed
    moreover have "RecipientDID ?m = To msg" "QueuedMessage.Data ?m = data" by (simp_all add: offline_message_def)
    ultimately show ?thesis using None q(1) by blast
  next
    case False
    then obtain st where "r \<noteq> None" "hub_queue h' = hub_queue h"
      and f: "\<And>d. frames h' d = frames h d @ ack_frames (e_now e) msg (map_of (clients h) (From msg)) False st h d"
      using assms(3,4) None by (auto simp: Route_direct frames_ack_if split: option.splits bool.splits sum.splits)
    then show ?thesis using negative_acks [OF f] by blast
  qed
qed

theorem Route_reports_truth_witness:
  "\<exists>h' acks. Route relay_sample_env (NewMessage 7 100 ''alice'' ''bob'' TypeRequest ''ping'') [1] sample_hub = (None, h')
     \<and> frames h' ''c2'' = frames sample_hub ''c2'' @ frame.Data [1] # acks"
proof -
  let ?msg = "NewMessage 7 100 ''alice'' ''bob'' TypeRequest ''ping''"
  have chan: "\<not> IsChannelURI (To ?msg)" by (simp add: NewMessage_def IsChannelURI_def HasPrefix_def)
  have acc: "accepts sample_hub ''c2''" by (simp add: accepts_def sample_simps wsSendBufferSize_def)
  have bob: "map_of (clients sample_hub) (To ?msg) = Some ''c2''" by (simp add: NewMessage_def sample_simps)
  obtain h' where r: "Route relay_sample_env ?msg [1] sample_hub = (None, h')"
    using chan acc bob by (simp add: Route_direct)
  from Route_reports_truth [OF relay_sample_env_ok sample_hub_inv chan r] r bob show ?thesis by auto
qed

section \<open>Routing to a channel\<close>

text \<open>The frames a connection can still take, the copies a channel message has for it, and the
  members that get their copy through the queue.\<close>

definition room :: "RelayHub \<Rightarrow> cid \<Rightarrow> nat" where
  "room h c = (case map_of (conns h) c of None \<Rightarrow> 0
     | Some cl \<Rightarrow> if send_closed cl then 0 else wsSendBufferSize - length (SendCh cl))"

definition copies_for :: "did \<Rightarrow> RelayHub \<Rightarrow> cid \<Rightarrow> ChannelMember list \<Rightarrow> nat" where
  "copies_for from h c ms =
     length (filter (\<lambda>m. member_DID m \<noteq> from \<and> map_of (clients h) (member_DID m) = Some c) ms)"

definition offline_members :: "did \<Rightarrow> RelayHub \<Rightarrow> ChannelMember list \<Rightarrow> did list" where
  "offline_members from h ms =
     map member_DID (filter (\<lambda>m. member_DID m \<noteq> from \<and> map_of (clients h) (member_DID m) = None) ms)"

lemma accepts_room: "accepts h c \<longleftrightarrow> room h c > 0"
  by (simp add: accepts_def room_def split: option.split)

lemma room_send [simp]: "room (snd (send c f h)) d = (if d = c then room h d - 1 else room h d)"
  by (auto simp: room_def send_def map_of_simps split: option.split)

lemma queueForOffline_frame [relay_frame, simp]:
  "frames (queueForOffline e i msg data d h) = frames h" "room (queueForOffline e i msg data d h) = room h"
  "clients (queueForOffline e i msg data d h) = clients h"
  "hub_config (queueForOffline e i msg data d h) = hub_config h"
  by (simp_all add: queueForOffline_def room_def fun_eq_iff split: option.split sum.split)

lemma fan_out_frames:
  "frames (fan_out e msg data k ms h) d =
     frames h d @ replicate (min (copies_for (From msg) h d ms) (room h d)) (frame.Data data)"
proof (induction ms arbitrary: k h)
  case (Cons m ms)
  define h1 where "h1 = (case map_of (clients h) (member_DID m) of Some c \<Rightarrow> snd (send c (frame.Data data) h)
    | None \<Rightarrow> if hub_queue h \<noteq> None \<and> EnableOfflineQueue (hub_config h)
        then queueForOffline e (e_uuid e k) msg data (member_DID m) h else h)"
  let ?here = "map_of (clients h) (member_DID m) = Some d"
  have step: "fan_out e msg data k (m # ms) h =
      (if member_DID m = From msg then fan_out e msg data k ms h else fan_out e msg data (Suc k) ms h1)"
    by (simp add: h1_def)
  have "clients h1 = clients h" by (simp add: h1_def split: option.split)
  then have copies: "copies_for (From msg) h1 d ms = copies_for (From msg) h d ms" by (simp add: copies_for_def)
  have "frames h1 d = frames h d @ (if ?here \<and> room h d > 0 then [frame.Data data] else [])"
    "room h1 d = (if ?here then room h d - 1 else room h d)"
    by (auto simp: h1_def frames_send accepts_room split: option.split)
  moreover have "copies_for (From msg) h d (m # ms) =
      (if member_DID m \<noteq> From msg \<and> ?here then Suc (copies_for (From msg) h d ms) else copies_for (From msg) h d ms)"
    by (simp add: copies_for_def)
  ultimately show ?case
    unfolding step using Cons.IH [of "Suc k" h1] Cons.IH [of k h] copies
    by (cases "room h d") (auto simp: min_Suc_Suc)
qed (simp add: copies_for_def)

text \<open>The queue can take one more message for each of the recipients without evicting any.\<close>

definition queue_room :: "MemoryStore \<Rightarrow> did list \<Rightarrow> bool" where
  "queue_room q ds \<longleftrightarrow> \<not> closed q
     \<and> (MaxTotalMessages (config q) > 0 \<longrightarrow> totalCount q + int (length ds) \<le> MaxTotalMessages (config q))
     \<and> (MaxQueueSize (config q) > 0 \<longrightarrow> (\<forall>d \<in> set ds. int (length (mlist (queues q) d)) < MaxQueueSize (config q)))"

lemma Enqueue_room:
  assumes "queue_room q (d # ds)" and "d \<notin> set ds" and "store_inv q" and "RecipientDID m = d" and "range_order ord"
  shows "\<exists>q'. Enqueue ord m q = Inr q' \<and> store_inv q' \<and> pending q' = add_mset m (pending q) \<and> queue_room q' ds"
proof -
  have enq: "Enqueue ord m q = Inr (append_message m q)"
    using assms(1,4) by (auto simp: Enqueue_def queue_room_def)
  moreover have "queue_room (append_message m q) ds"
    using assms(1,2,4) by (auto simp: queue_room_def append_message_def gomap)
  ultimately show ?thesis
    using pending_append_message [OF store_inv_distinct [OF assms(3)]] Enqueue_inv [OF assms(5,3) enq] by auto
qed

lemma fan_out_queue:
  assumes "range_order (e_queues e)" and "hub_queue h = Some q" and "EnableOfflineQueue (hub_config h)"
    and "store_inv q" and "queue_room q (offline_members (From msg) h ms)"
    and "distinct (offline_members (From msg) h ms)"
  shows "\<exists>q' copies. hub_queue (fan_out e msg data k ms h) = Some q' \<and> pending q' = pending q + mset copies
    \<and> map RecipientDID copies = offline_members (From msg) h ms
    \<and> (\<forall>m \<in> set copies. QueuedMessage.Data m = data \<and> SenderDID m = From msg)"
  using assms(2-6)
proof (induction ms arbitrary: k h q)
  case Nil
  then show ?case by (auto simp: offline_members_def)
next
  case (Cons m ms)
  let ?d = "member_DID m"
  show ?case
  proof (cases "?d = From msg")
    case True
    then have "offline_members (From msg) h (m # ms) = offline_members (From msg) h ms"
      by (simp add: offline_members_def)
    then show ?thesis using Cons True by simp
  next
    case False
    show ?thesis
    proof (cases "map_of (clients h) ?d")
      case (Some c)
      let ?h = "snd (send c (frame.Data data) h)"
      have "offline_members (From msg) h (m # ms) = offline_members (From msg) ?h ms"
        using Some by (simp add: offline_members_def)
      then show ?thesis using Cons.IH [of ?h q "Suc k"] Cons.prems False Some by simp
    next
      case None
      let ?m = "offline_message (e_now e) (e_uuid e k) ?d (From msg) data h"
      have m: "RecipientDID ?m = ?d" "QueuedMessage.Data ?m = data" "SenderDID ?m = From msg"
        by (simp_all add: offline_message_def)
      have off: "offline_members (From msg) h (m # ms) = ?d # offline_members (From msg) h ms"
        using None False by (simp add: offline_members_def)
      obtain q1 where q1: "Enqueue (e_queues e) ?m q = Inr q1" "store_inv q1" "pending q1 = add_mset ?m (pending q)"
        "queue_room q1 (offline_members (From msg) h ms)"
        using Enqueue_room [of q ?d "offline_members (From msg) h ms" ?m "e_queues e"] Cons.prems off m(1) assms(1) by auto
      let ?h = "h\<lparr>hub_queue := Some q1\<rparr>"
      have "offline_members (From msg) ?h ms = offline_members (From msg) h ms" by (simp add: offline_members_def)
      then obtain q' copies where r: "hub_queue (fan_out e msg data (Suc k) ms ?h) = Some q'"
          "pending q' = pending q1 + mset copies" "map RecipientDID copies = offline_members (From msg) h ms"
          "\<forall>m \<in> set copies. QueuedMessage.Data m = data \<and> SenderDID m = From msg"
        using Cons.IH [of ?h q1 "Suc k"] q1 Cons.prems off by auto
      have "fan_out e msg data k (m # ms) h = fan_out e msg data (Suc k) ms ?h"
        using None False Cons.prems q1(1) by (simp add: queueForOffline_def)
      then show ?thesis using r q1(3) off m by (intro exI [of _ q'] exI [of _ "?m # copies"]) simp
    qed
  qed
qed


text \<open>A channel of alice's with the members alice, bob (connected) and carol (not connected).\<close>

definition sample_group :: Channel where
  "sample_group = (NewChannel 5 0 ''channel:team'' ChannelGroup ''alice'')
     \<lparr>Members := [\<lparr>member_DID = ''alice'', JoinedAt = 0, member_Role = RoleOwner, member_SenderKey = None\<rparr>,
        \<lparr>member_DID = ''bob'', JoinedAt = 0, member_Role = RoleMember, member_SenderKey = None\<rparr>,
        \<lparr>member_DID = ''carol'', JoinedAt = 0, member_Role = RoleMember, member_SenderKey = None\<rparr>]\<rparr>"

definition sample_groups :: MemoryChannelStore where
  "sample_groups = \<lparr>channels = [(5, sample_group)], byName = [(''channel:team'', 5)]\<rparr>"

lemma sample_groups_ok: "channels_ok sample_groups"
proof -
  have "CreateChannel sample_group NewMemoryChannelStore = Inr sample_groups"
    by (simp add: CreateChannel_def sample_group_def sample_groups_def NewMemoryChannelStore_def NewChannel_def)
  from CreateChannel_inv [OF channels_ok_New this] show ?thesis
    by (simp add: sample_group_def NewMemoryChannelStore_def channel_ok_def MemberDIDs_def NewChannel_def)
qed


section \<open>Authentication of senders\<close>

text \<open>The cases of the \<open>switch\<close> in \<open>handleMessage\<close>; every other method is a message to route.\<close>

definition relay_methods :: "string list" where
  "relay_methods = [''keepalive'', ''relay.register'', ''relay.discover'', ''relay.lookup'', ''relay.presence.update'',
     ''relay.presence.subscribe'', ''relay.presence.unsubscribe'', ''relay.presence.query'', ''relay.channel.create'',
     ''relay.channel.join'', ''relay.channel.leave'', ''relay.channel.list'', ''relay.channel.members'',
     ''relay.channel.delete'', ''relay.channel.sender_key'', ''relay.register_subordinate'']"

lemma read_one_routes:
  assumes "DecodeRequest (d_request e) data = Inr req" and "rq_Method req \<notin> set relay_methods"
  shows "read_one e c data h = route_request e c data req (update_client c (\<lambda>cl. cl\<lparr>lastActivity := e_now e\<rparr>) h)"
  using assms by (simp add: read_one_def handleMessage_def relay_methods_def)

lemma accept_message_InrD:
  assumes "accept_message e cl req = Inr msg"
  shows "ParseParams (d_message e) zero_message req = Some msg" and "Validate msg = None" and "validateSender e cl msg = None"
  using assms by (auto simp: accept_message_def split: option.splits if_splits)

lemma validateSender_None:
  "validateSender e cl msg = None \<longleftrightarrow> client_DID cl \<noteq> '''' \<and>
     (From msg = client_DID cl \<or>
      ActorDID msg = client_DID cl \<and> gatewayNamespace cl \<noteq> '''' \<and> didMatchesNamespace (From msg) (gatewayNamespace cl)
      \<and> VerifySignature e (gatewaySigningKey cl)
          (string_bytes (client_DID cl @ '':'' @ From msg @ '':'' @ e_uuidString e (msg_ID msg))) (ActorProof msg))"
  by (auto simp: validateSender_def)

lemma frames_conns [simp]: "d \<noteq> c \<Longrightarrow> frames (h\<lparr>conns := mput c cl (conns h)\<rparr>) d = frames h d"
  by (simp add: frames_def map_of_simps)

lemma frames_update_client [simp]: "d \<noteq> c \<Longrightarrow> frames (update_client c f h) d = frames h d"
  by (simp add: update_client_def split: option.split)

lemma update_client_frame [relay_frame, simp]:
  "hub_queue (update_client c f h) = hub_queue h" "hub_store (update_client c f h) = hub_store h"
  "clients (update_client c f h) = clients h" "hub_config (update_client c f h) = hub_config h"
  by (simp_all add: update_client_def split: option.split)

lemma sendError_frame [relay_frame, simp]:
  "hub_queue (sendError c i code t h) = hub_queue h" "hub_store (sendError c i code t h) = hub_store h"
  "clients (sendError c i code t h) = clients h"
  "hub_queue (sendErrorWithData c i code t x h) = hub_queue h" "hub_store (sendErrorWithData c i code t x h) = hub_store h"
  "clients (sendErrorWithData c i code t x h) = clients h"
  "hub_queue (sendResult c i r h) = hub_queue h" "hub_store (sendResult c i r h) = hub_store h"
  "clients (sendResult c i r h) = clients h"
  by (simp_all add: sendError_def sendErrorWithData_def sendResult_def)

lemma frames_replies [simp]:
  "d \<noteq> c \<Longrightarrow> frames (sendError c i code t h) d = frames h d"
  "d \<noteq> c \<Longrightarrow> frames (sendErrorWithData c i code t x h) d = frames h d"
  "d \<noteq> c \<Longrightarrow> frames (sendResult c i r h) d = frames h d"
  by (simp_all add: sendError_def sendErrorWithData_def sendResult_def frames_send)

lemma message_limits_frame [simp]:
  "hub_queue (snd (message_limits e c cl h)) = hub_queue h" "clients (snd (message_limits e c cl h)) = clients h"
  "d \<noteq> c \<Longrightarrow> frames (snd (message_limits e c cl h)) d = frames h d"
  by (simp_all add: message_limits_def Let_def split_beta split: option.split)

lemma route_request_refused:
  assumes "map_of (conns h) c = Some cl" and "accept_message e cl req = Inl (code, t)"
  shows "\<exists>code' t'. route_request e c data req h = sendError c (rq_ID req) code' t' (snd (message_limits e c cl h))"
proof (cases "fst (message_limits e c cl h)")
  case None
  then have "route_request e c data req h = sendError c (rq_ID req) code t (snd (message_limits e c cl h))"
    using assms by (simp add: route_request_def with_client_def split_beta Let_def)
  then show ?thesis by blast
next
  case (Some r)
  then have "route_request e c data req h = sendError c (rq_ID req) CodeRateLimited r (snd (message_limits e c cl h))"
    using assms by (simp add: route_request_def with_client_def split_beta Let_def)
  then show ?thesis by blast
qed

lemma route_request_accepted:
  assumes "map_of (conns h) c = Some cl" and "fst (message_limits e c cl h) = None"
    and "accept_message e cl req = Inr msg" and "MsgType msg \<noteq> TypeTyping" and "d \<noteq> c"
  shows "frames (route_request e c data req h) d = frames (snd (Route e msg data (snd (message_limits e c cl h)))) d"
  using assms by (simp add: route_request_def with_client_def split_beta Let_def split: option.split)

lemma accepts_message_limits [simp]: "d \<noteq> c \<Longrightarrow> accepts (snd (message_limits e c cl h)) d = accepts h d"
  by (simp add: message_limits_def accepts_def Let_def split_beta map_of_simps split: option.split)

text \<open>
  Property C2. Only authenticated messages leave a connection. When a frame that is not one of the
  relay's own methods changes the offline queue or the frames waiting for another connection, it
  carries a valid message, the connection is registered, and the message's sender is the DID the
  connection registered, or the message names that DID as its actor, the sender lies in the
  delegation namespace the connection registered as a gateway, and the actor proof verifies
  under the gateway's signing key for this sender and message ID.
\<close>

theorem sender_authenticated:
  assumes "DecodeRequest (d_request e) data = Inr req" and "rq_Method req \<notin> set relay_methods"
    and "map_of (conns h) c = Some cl"
    and "hub_queue (read_one e c data h) \<noteq> hub_queue h \<or> (\<exists>d. d \<noteq> c \<and> frames (read_one e c data h) d \<noteq> frames h d)"
  shows "\<exists>msg. ParseParams (d_message e) zero_message req = Some msg \<and> Validate msg = None \<and> client_DID cl \<noteq> '''' \<and>
    (From msg = client_DID cl \<or>
     ActorDID msg = client_DID cl \<and> gatewayNamespace cl \<noteq> '''' \<and> didMatchesNamespace (From msg) (gatewayNamespace cl)
     \<and> VerifySignature e (gatewaySigningKey cl)
         (string_bytes (client_DID cl @ '':'' @ From msg @ '':'' @ e_uuidString e (msg_ID msg))) (ActorProof msg))"
proof -
  let ?cl = "cl\<lparr>lastActivity := e_now e\<rparr>"
  let ?h = "update_client c (\<lambda>cl. cl\<lparr>lastActivity := e_now e\<rparr>) h"
  have cl: "map_of (conns ?h) c = Some ?cl" using assms(3) by (simp add: update_client_def map_of_simps)
  have "\<exists>msg. accept_message e ?cl req = Inr msg"
  proof (rule ccontr)
    assume none: "\<nexists>msg. accept_message e ?cl req = Inr msg"
    then obtain code t where "accept_message e ?cl req = Inl (code, t)" by (cases "accept_message e ?cl req") auto
    then obtain code' t' where "read_one e c data h = sendError c (rq_ID req) code' t' (snd (message_limits e c ?cl ?h))"
      using route_request_refused [OF cl] unfolding read_one_routes [OF assms(1,2)] by blast
    then show False using assms(4) by auto
  qed
  then show ?thesis using accept_message_InrD [of e ?cl req] by (auto simp: validateSender_None)
qed

definition chat_env :: relay_env where
  "chat_env = relay_sample_env
     \<lparr>d_request := (\<lambda>_. Some \<lparr>rq_JSONRPC = ''2.0'', rq_ID = JNull, rq_Method = ''ping'', rq_Params = Some [2]\<rparr>),
      d_message := (\<lambda>_. Some (NewMessage 7 100 ''alice'' ''bob'' TypeRequest ''ping''))\<rparr>"

theorem sender_authenticated_witness:
  "frames (read_one chat_env ''c1'' [1] sample_hub) ''c2'' = [frame.Data [1]] \<and>
   (\<exists>msg. d_message chat_env [2] = Some msg \<and> From msg = ''alice'')"
proof -
  let ?req = "\<lparr>rq_JSONRPC = ''2.0'', rq_ID = JNull, rq_Method = ''ping'', rq_Params = Some [2]\<rparr>"
  let ?msg = "NewMessage 7 100 ''alice'' ''bob'' TypeRequest ''ping''"
  have req: "DecodeRequest (d_request chat_env) [1] = Inr ?req" by (simp add: DecodeRequest_def chat_env_def)
  have m: "rq_Method ?req \<notin> set relay_methods" by (simp add: relay_methods_def)
  obtain cl where cl: "map_of (conns sample_hub) ''c1'' = Some cl" "client_DID cl = ''alice''" "client_TenantID cl = ''''"
      "gatewayNamespace cl = ''''" "msgLimiter cl = NewRateLimiter 0 100 200"
    by (simp add: sample_simps)
  let ?cl = "cl\<lparr>lastActivity := 100\<rparr>"
  let ?h = "update_client ''c1'' (\<lambda>cl. cl\<lparr>lastActivity := 100\<rparr>) sample_hub"
  have now: "e_now chat_env = 100" by (simp add: chat_env_def relay_sample_env_def)
  have h: "map_of (conns ?h) ''c1'' = Some ?cl" using cl by (simp add: update_client_def map_of_simps)
  have acc: "accept_message chat_env ?cl ?req = Inr ?msg"
    using cl by (simp add: accept_message_def ParseParams_def chat_env_def validateSender_def Validate_def NewMessage_def)
  have "fst (Allow 100 (msgLimiter cl))" by (simp add: cl Allow_def NewRateLimiter_def seconds_def Let_def)
  then have lim: "fst (message_limits chat_env ''c1'' ?cl ?h) = None"
    using cl by (simp add: message_limits_def now split_beta Let_def)
  have "accepts ?h ''c2''" "map_of (clients ?h) ''bob'' = Some ''c2''" "frames ?h ''c2'' = []"
    by (simp_all add: update_client_def accepts_def frames_def map_of_simps wsSendBufferSize_def sample_simps)
  then have "frames (snd (Route chat_env ?msg [1] (snd (message_limits chat_env ''c1'' ?cl ?h)))) ''c2'' = [frame.Data [1]]"
    by (simp add: Route_direct NewMessage_def IsChannelURI_def HasPrefix_def frames_ack_if frames_send ack_frames_def)
  then have f: "frames (read_one chat_env ''c1'' [1] sample_hub) ''c2'' = [frame.Data [1]]"
    using route_request_accepted [OF h lim acc, of "''c2''" "[1]"] unfolding read_one_routes [OF req m] now
    by (simp add: NewMessage_def)
  moreover have "frames sample_hub ''c2'' = []" by (simp add: frames_def sample_simps)
  ultimately have "\<exists>d. d \<noteq> ''c1'' \<and> frames (read_one chat_env ''c1'' [1] sample_hub) d \<noteq> frames sample_hub d"
    by (intro exI [of _ "''c2''"]) simp
  from sender_authenticated [OF req m cl(1) disjI2 [OF this]] f cl show ?thesis by (auto simp: ParseParams_def)
qed

section \<open>Registration\<close>

text \<open>Everything after the registry update of a registration leaves the registry and the client
  map alone.\<close>

lemma broadcast_loop_frame [relay_frame, simp]:
  "hub_store (broadcast_loop cs s f seen h) = hub_store h" "clients (broadcast_loop cs s f seen h) = clients h"
  "hub_queue (broadcast_loop cs s f seen h) = hub_queue h"
  by (induction cs s f seen h rule: broadcast_loop.induct) simp_all

lemma Broadcast_frame [relay_frame, simp]:
  "hub_store (Broadcast e s f h) = hub_store h" "clients (Broadcast e s f h) = clients h"
  "hub_queue (Broadcast e s f h) = hub_queue h"
  by (simp_all add: Broadcast_def)

lemma deliver_batch_frame [relay_frame, simp]:
  "hub_store (snd (deliver_batch e c ms h)) = hub_store h \<and> clients (snd (deliver_batch e c ms h)) = clients h"
  by (induction ms arbitrary: h) (simp_all add: split_beta Let_def split: option.split sum.split)

lemma deliver_loop_frame:
  "deliver_loop n e c d h = Some h' \<Longrightarrow> hub_store h' = hub_store h \<and> clients h' = clients h"
proof (induction n arbitrary: h)
  case (Suc n)
  show ?case
  proof (cases "hub_queue h")
    case (Some q)
    show ?thesis
    proof (cases "Dequeue (e_qsort e) (e_now e) d 100 q")
      case (Inr r)
      obtain msgs q' where r: "r = (msgs, q')" by force
      have "hub_store (snd (deliver_batch e c msgs (h\<lparr>hub_queue := Some q'\<rparr>))) = hub_store h"
        "clients (snd (deliver_batch e c msgs (h\<lparr>hub_queue := Some q'\<rparr>))) = clients h" by simp_all
      then show ?thesis using Suc Some Inr r by (auto simp: split_beta Let_def split: if_splits)
    qed (use Suc.prems Some in simp)
  qed (use Suc.prems in simp)
qed simp

lemma deliverQueuedMessages_frame [relay_frame, simp]:
  "hub_store (deliverQueuedMessages e c h) = hub_store h" "clients (deliverQueuedMessages e c h) = clients h"
  by (auto simp: deliverQueuedMessages_def with_client_def simp del: deliver_loop.simps dest: deliver_loop_frame
      split: option.split)

lemma complete_registration_effect:
  "hub_store (complete_registration e c i a h) = Put (SetOnline (e_now e) a) (hub_store h)"
  "clients (complete_registration e c i a h) = mput (DID (SetOnline (e_now e) a)) c (clients h)"
  by (simp_all add: complete_registration_def Let_def)

text \<open>The age of a proof is computed without wrap-around for every clock before the year 146 billion.\<close>

lemma proof_age_exact:
  fixes now ts :: "64 word"
  assumes "0 \<le> sint now" and "sint now \<le> 2 ^ 62" and "- 60 \<le> sint (now - ts)" and "sint (now - ts) \<le> 300"
  shows "sint (now - ts) = sint now - sint ts"
proof -
  have r: "- (2 ^ 63) \<le> sint ts" "sint ts < 2 ^ 63" using sint_greater_eq [of ts] sint_less [of ts] by simp_all
  let ?d = "sint now - sint ts + 2 ^ 63"
  have wrap: "sint (now - ts) = ?d mod 2 ^ 64 - 2 ^ 63"
    by (simp add: sint_word_ariths signed_take_bit_eq_take_bit_shift take_bit_eq_mod)
  show ?thesis
  proof (cases "?d < 2 ^ 64")
    case True
    then have "?d mod 2 ^ 64 = ?d" using assms(1) r by (intro mod_pos_pos_trivial) simp_all
    then show ?thesis using wrap by simp
  next
    case False
    then have "(?d - 2 ^ 64) mod 2 ^ 64 = ?d - 2 ^ 64" using assms(2) r by (intro mod_pos_pos_trivial) simp_all
    then have "?d mod 2 ^ 64 = ?d - 2 ^ 64" by (simp only: minus_mod_self2)
    then show ?thesis using wrap assms(2,3) r by simp
  qed
qed

lemma registration_refusal_None:
  "registration_refusal e cl reg h = None \<longleftrightarrow>
     e_didMethod e (DID (rr_Agent reg)) = Some ''wba'' \<and> (RequireDIDProof (hub_config h) \<longrightarrow> verifyDIDProof e reg = None)
     \<and> (PinDIDKeys (hub_config h) \<longrightarrow> checkPinnedKey reg h) \<and> allowlisted (DID (rr_Agent reg)) h \<and> quota_refusal e cl h = None"
  by (auto simp: registration_refusal_def Let_def split: option.splits)

lemma verifyDIDProof_None:
  "verifyDIDProof e reg = None \<longleftrightarrow> slice_bytes (Proof reg) \<noteq> [] \<and>
     (\<exists>k. GetSigningKey (rr_Agent reg) = Some k \<and> - 60 \<le> sint (e_unix e - rr_Timestamp reg)
        \<and> sint (e_unix e - rr_Timestamp reg) \<le> 300 \<and> VerifySignature e (pk_Key k) (proof_message reg) (Proof reg))"
  by (auto simp: verifyDIDProof_def Let_def split: option.split)

lemma registration_checks_conns [simp]:
  "checkPinnedKey reg (h\<lparr>conns := x\<rparr>) = checkPinnedKey reg h" "allowlisted d (h\<lparr>conns := x\<rparr>) = allowlisted d h"
  "quota_refusal e cl (h\<lparr>conns := x\<rparr>) = quota_refusal e cl h"
  "quota_refusal e (cl\<lparr>registerLimiter := y\<rparr>) h = quota_refusal e cl h"
  by (simp_all add: checkPinnedKey_def allowlisted_def quota_refusal_def Let_def split: option.split)

lemma registration_refusal_conns [simp]: "registration_refusal e cl reg (h\<lparr>conns := x\<rparr>) = registration_refusal e cl reg h"
  by (auto simp: registration_refusal_def Let_def split: option.split)

lemma registration_refusal_limiter [simp]:
  "registration_refusal e (cl\<lparr>registerLimiter := x\<rparr>) reg h = registration_refusal e cl reg h"
  by (auto simp: registration_refusal_def Let_def split: option.split)

lemma handleRegister_ok:
  assumes "map_of (conns h) c = Some cl" and "fst (Allow (e_now e) (registerLimiter cl))"
    and "ParseParams (d_registration e) zero_registration req = Some reg" and "registration_refusal e cl reg h = None"
    and "agent = (if client_TenantID cl \<noteq> '''' \<and> billingStore h \<noteq> None then (rr_Agent reg)\<lparr>TenantID := client_TenantID cl\<rparr>
                  else rr_Agent reg)"
  shows "hub_store (handleRegister e c req h) = Put (SetOnline (e_now e) agent) (hub_store h)"
    and "clients (handleRegister e c req h) = mput (DID (rr_Agent reg)) c (clients h)"
  using assms by (auto simp: handleRegister_def with_client_def split_beta Let_def complete_registration_effect SetOnline_def)

lemma handleRegister_refused:
  assumes "map_of (conns h) c = Some cl" and "\<not> fst (Allow (e_now e) (registerLimiter cl))
    \<or> (\<forall>reg. ParseParams (d_registration e) zero_registration req = Some reg \<longrightarrow> registration_refusal e cl reg h \<noteq> None)"
  shows "hub_store (handleRegister e c req h) = hub_store h" and "clients (handleRegister e c req h) = clients h"
  using assms by (auto simp: handleRegister_def with_client_def split_beta Let_def split: option.splits)

text \<open>
  Property C3. A registration that takes effect has passed every check. When handling a
  registration request changes the registry or the client map, the connection was within its
  registration rate, the DID uses the method wba, the allowlist admits it, the tenant is within
  its quota, with key pinning on the request's signing key is the one on record for the DID, and
  with proofs required the proof verifies under the request's own signing key for the DID and a
  timestamp that lies at most five minutes in the past and one minute in the future. The effect is
  that the agent is stored as online and the DID leads to this connection.
\<close>

theorem registration_guarded:
  assumes "map_of (conns h) c = Some cl" and "0 \<le> sint (e_unix e)" and "sint (e_unix e) \<le> 2 ^ 62"
    and "h' = handleRegister e c req h" and "hub_store h' \<noteq> hub_store h \<or> clients h' \<noteq> clients h"
  shows "\<exists>reg agent. ParseParams (d_registration e) zero_registration req = Some reg
    \<and> fst (Allow (e_now e) (registerLimiter cl)) \<and> e_didMethod e (DID (rr_Agent reg)) = Some ''wba''
    \<and> allowlisted (DID (rr_Agent reg)) h \<and> quota_refusal e cl h = None
    \<and> (PinDIDKeys (hub_config h) \<longrightarrow> checkPinnedKey reg h)
    \<and> (RequireDIDProof (hub_config h) \<longrightarrow>
         (\<exists>k. GetSigningKey (rr_Agent reg) = Some k \<and> slice_bytes (Proof reg) \<noteq> []
            \<and> VerifySignature e (pk_Key k)
                (string_bytes (DID (rr_Agent reg) @ '':'' @ int_string (sint (rr_Timestamp reg)))) (Proof reg)
            \<and> sint (e_unix e) - 300 \<le> sint (rr_Timestamp reg) \<and> sint (rr_Timestamp reg) \<le> sint (e_unix e) + 60))
    \<and> DID agent = DID (rr_Agent reg) \<and> PublicKeys agent = PublicKeys (rr_Agent reg) \<and> Status agent = StatusOnline
    \<and> hub_store h' = Put agent (hub_store h) \<and> map_of (clients h') (DID agent) = Some c"
proof -
  from handleRegister_refused [OF assms(1), of e req] assms(4,5) obtain reg where
    reg: "fst (Allow (e_now e) (registerLimiter cl))" "ParseParams (d_registration e) zero_registration req = Some reg"
      "registration_refusal e cl reg h = None"
    by blast
  define a where a: "a = (if client_TenantID cl \<noteq> '''' \<and> billingStore h \<noteq> None
    then (rr_Agent reg)\<lparr>TenantID := client_TenantID cl\<rparr> else rr_Agent reg)"
  note h' = handleRegister_ok [OF assms(1) reg a, folded assms(4)]
  have agent: "DID (SetOnline (e_now e) a) = DID (rr_Agent reg)" "PublicKeys (SetOnline (e_now e) a) = PublicKeys (rr_Agent reg)"
      "Status (SetOnline (e_now e) a) = StatusOnline"
    by (simp_all add: SetOnline_def a)
  have "map_of (clients h') (DID (SetOnline (e_now e) a)) = Some c" by (simp add: h' agent map_of_simps)
  moreover have "\<exists>k. GetSigningKey (rr_Agent reg) = Some k \<and> slice_bytes (Proof reg) \<noteq> []
      \<and> VerifySignature e (pk_Key k) (proof_message reg) (Proof reg)
      \<and> sint (e_unix e) - 300 \<le> sint (rr_Timestamp reg) \<and> sint (rr_Timestamp reg) \<le> sint (e_unix e) + 60"
    if "verifyDIDProof e reg = None"
  proof -
    from that obtain k where k: "slice_bytes (Proof reg) \<noteq> []" "GetSigningKey (rr_Agent reg) = Some k"
        "- 60 \<le> sint (e_unix e - rr_Timestamp reg)" "sint (e_unix e - rr_Timestamp reg) \<le> 300"
        "VerifySignature e (pk_Key k) (proof_message reg) (Proof reg)"
      unfolding verifyDIDProof_None by blast
    then show ?thesis using proof_age_exact [OF assms(2,3) k(3,4)] by auto
  qed
  ultimately show ?thesis
    using reg(1,2) reg(3) [unfolded registration_refusal_None] agent h'(1) unfolding proof_message_def
    by (intro exI [of _ reg] exI [of _ "SetOnline (e_now e) a"] conjI impI) simp_all
qed

definition register_env :: relay_env where
  "register_env = relay_sample_env
     \<lparr>d_registration := (\<lambda>_. Some \<lparr>rr_Agent = (NewAgent 9 100 ''did:wba:carol'' ''Carol'')
          \<lparr>PublicKeys := [\<lparr>pk_ID = ''k'', pk_Type = KeyTypeEd25519, pk_Key = Some (replicate 32 0), Purpose = ''signing''\<rparr>]\<rparr>,
        Proof = Some (string_bytes ''did:wba:carol:90''), rr_Timestamp = 90\<rparr>)\<rparr>"

theorem registration_guarded_witness:
  "\<exists>agent. DID agent = ''did:wba:carol'' \<and> Status agent = StatusOnline
     \<and> hub_store (handleRegister register_env ''c1'' ping_request sample_hub) = Put agent (hub_store sample_hub)
     \<and> map_of (clients (handleRegister register_env ''c1'' ping_request sample_hub)) ''did:wba:carol'' = Some ''c1''"
proof -
  let ?h' = "handleRegister register_env ''c1'' ping_request sample_hub"
  obtain cl where cl: "map_of (conns sample_hub) ''c1'' = Some cl" "client_TenantID cl = ''''"
      "registerLimiter cl = NewRateLimiter 0 1 2"
    by (simp add: sample_simps)
  obtain reg where reg: "ParseParams (d_registration register_env) zero_registration ping_request = Some reg"
      "rr_Timestamp reg = 90" "DID (rr_Agent reg) = ''did:wba:carol''" "Proof reg = Some (string_bytes ''did:wba:carol:90'')"
      "GetSigningKey (rr_Agent reg) = Some \<lparr>pk_ID = ''k'', pk_Type = KeyTypeEd25519, pk_Key = Some (replicate 32 0), Purpose = ''signing''\<rparr>"
    by (simp add: ParseParams_def ping_request_def register_env_def NewAgent_def GetSigningKey_def)
  have env: "e_now register_env = 100" "e_unix register_env = 100" "e_verify register_env = (\<lambda>k m s. m = s)"
      "e_didMethod register_env ''did:wba:carol'' = Some ''wba''"
    by (simp_all add: register_env_def relay_sample_env_def HasPrefix_def)
  have "nat_string 90 = ''90''" by (simp add: nat_string.simps char_of_def bit_0)
  then have "verifyDIDProof register_env reg = None"
    unfolding verifyDIDProof_None using reg env
    by (simp add: VerifySignature_def slice_bytes_def proof_message_def int_string_def string_bytes_def)
  then have ok: "registration_refusal register_env cl reg sample_hub = None"
    unfolding registration_refusal_None using reg env cl
    by (simp add: allowlisted_def quota_refusal_def sample_simps)
  have allow: "fst (Allow (e_now register_env) (registerLimiter cl))"
    by (simp add: cl env Allow_def NewRateLimiter_def seconds_def Let_def)
  have "clients ?h' \<noteq> clients sample_hub"
    unfolding handleRegister_ok(2) [OF cl(1) allow reg(1) ok refl] reg by (simp add: sample_simps)
  then obtain agent where "DID agent = DID (rr_Agent reg)" "Status agent = StatusOnline"
      "hub_store ?h' = Put agent (hub_store sample_hub)" "map_of (clients ?h') (DID agent) = Some ''c1''"
    using registration_guarded [OF cl(1), of register_env ?h' ping_request] reg(1) env(2) by auto
  then show ?thesis using reg(3) by auto
qed

section \<open>The signed texts\<close>

lemma last_separator:
  assumes "xs @ x # ys = xs' @ x # ys'" and "x \<notin> set ys" and "x \<notin> set ys'"
  shows "xs = xs' \<and> ys = ys'"
  using assms by (auto simp: append_eq_append_conv2 append_eq_Cons_conv Cons_eq_append_conv)

lemma string_bytes_inj: "string_bytes s = string_bytes t \<longleftrightarrow> s = t"
proof -
  have "inj (\<lambda>c :: char. word_of_nat (of_char c) :: byte)"
  proof (rule injI)
    fix c d :: char
    assume "(word_of_nat (of_char c) :: byte) = word_of_nat (of_char d)"
    then have "(of_char c :: nat) mod 256 = of_char d mod 256" by (simp add: word_of_nat_eq_iff take_bit_eq_mod)
    moreover have "(of_char c :: nat) < 256" "(of_char d :: nat) < 256" by simp_all
    ultimately show "c = d" by (metis mod_less of_char_eq_iff)
  qed
  then show ?thesis by (simp add: string_bytes_def inj_map_eq_map)
qed

text \<open>
  Signed texts are unambiguous. Two registrations whose proofs sign the same bytes have
  the same DID and the same timestamp, and two delegated messages whose actor proofs sign the same
  bytes for the same gateway have the same sender and the same message ID, for any textual form of
  IDs that is injective and has no colon: a proof made for one registration or message cannot be
  presented for another.
\<close>

theorem signed_texts_unambiguous:
  assumes "\<forall>i. CHR '':'' \<notin> set (uuidString i)" and "inj uuidString"
  shows "(proof_message reg = proof_message reg' \<longrightarrow>
      DID (rr_Agent reg) = DID (rr_Agent reg') \<and> rr_Timestamp reg = rr_Timestamp reg')
    \<and> (string_bytes (gw @ '':'' @ From m @ '':'' @ uuidString (msg_ID m))
         = string_bytes (gw @ '':'' @ From m' @ '':'' @ uuidString (msg_ID m')) \<longrightarrow>
       From m = From m' \<and> msg_ID m = msg_ID m')"
proof (intro conjI impI)
  assume "proof_message reg = proof_message reg'"
  then have eq: "DID (rr_Agent reg) @ CHR '':'' # int_string (sint (rr_Timestamp reg))
      = DID (rr_Agent reg') @ CHR '':'' # int_string (sint (rr_Timestamp reg'))"
    by (simp add: proof_message_def string_bytes_inj)
  from last_separator [OF this int_string_colon int_string_colon]
  show "DID (rr_Agent reg) = DID (rr_Agent reg')" "rr_Timestamp reg = rr_Timestamp reg'"
    by (auto simp: int_string_inj intro: signed_word_eqI)
next
  assume "string_bytes (gw @ '':'' @ From m @ '':'' @ uuidString (msg_ID m))
         = string_bytes (gw @ '':'' @ From m' @ '':'' @ uuidString (msg_ID m'))"
  then have eq: "From m @ CHR '':'' # uuidString (msg_ID m) = From m' @ CHR '':'' # uuidString (msg_ID m')"
    by (simp add: string_bytes_inj)
  show "From m = From m'" "msg_ID m = msg_ID m'"
    using last_separator [OF eq] assms by (auto dest: injD)
qed

theorem signed_texts_unambiguous_witness:
  "(\<forall>i. CHR '':'' \<notin> set (int_string (uint (i :: uuid)))) \<and> inj (\<lambda>i :: uuid. int_string (uint i)) \<and>
   proof_message \<lparr>rr_Agent = zero_agent\<lparr>DID := ''did:wba:a''\<rparr>, Proof = None, rr_Timestamp = 5\<rparr>
      \<noteq> proof_message \<lparr>rr_Agent = zero_agent\<lparr>DID := ''did:wba:a:5''\<rparr>, Proof = None, rr_Timestamp = 5\<rparr>"
proof -
  have c: "\<forall>i. CHR '':'' \<notin> set (int_string (uint (i :: uuid)))" by (simp add: int_string_colon)
  have i: "inj (\<lambda>i :: uuid. int_string (uint i))" by (rule injI) (simp add: int_string_inj word_uint_eq_iff)
  from signed_texts_unambiguous [OF c i, of "\<lparr>rr_Agent = zero_agent\<lparr>DID := ''did:wba:a''\<rparr>, Proof = None, rr_Timestamp = 5\<rparr>"
      "\<lparr>rr_Agent = zero_agent\<lparr>DID := ''did:wba:a:5''\<rparr>, Proof = None, rr_Timestamp = 5\<rparr>"] c i
  show ?thesis by auto
qed

end
