(* ===== verification/Relay_Delivery.thy ===== *)
theory Relay_Delivery
  imports Relay_Contracts
begin

text \<open>
  Delivery of queued messages to a client that registers (\<open>deliverQueuedMessages\<close> in
  \<open>cmd/relay/client.go\<close>): the loop ends, it delivers everything that is live when the send
  buffer has room, and what becomes of the rest of a batch when it has not.
\<close>

section \<open>One batch\<close>

lemma deliver_batch_ran: "fst (deliver_batch e c ms h) \<Longrightarrow> hub_queue (snd (deliver_batch e c ms h)) = hub_queue h"
  by (induction ms arbitrary: h) (auto simp: split_beta Let_def split: if_splits)

lemma deliver_batch_room:
  assumes "\<forall>m \<in> set ms. \<not> IsExpired (e_now e) m" and "length ms \<le> room h c"
  shows "fst (deliver_batch e c ms h)"
    and "frames (snd (deliver_batch e c ms h)) c = frames h c @ map (\<lambda>m. frame.Data (QueuedMessage.Data m)) ms"
    and "room (snd (deliver_batch e c ms h)) c = room h c - length ms"
  using assms
  by (induction ms arbitrary: h) (simp_all add: split_beta Let_def send_accepts accepts_room frames_send)

lemma Dequeue_queue:
  assumes "sort_func QueuedAt srt" and "Dequeue srt now d limit q = Inr (ms, q')"
  shows "mset (mlist (queues q) d) = mset ms + mset (mlist (queues q') d)"
  using assms(2)
proof (cases rule: Dequeue_cases)
  case (2 rm)
  have "mset (srt (mlist (queues q) d)) = mset ms + mset rm" using dequeue_loop_spec(2) [OF 2(2)] by simp
  then show ?thesis using 2(3) sort_func_mset [OF assms(1)] by (simp add: mlist_store)
qed simp

lemma Dequeue_open: "\<not> closed q \<Longrightarrow> \<exists>ms q'. Dequeue srt now d limit q = Inr (ms, q') \<and> \<not> closed q'"
  by (auto simp: Dequeue_def split: prod.split)

section \<open>Termination\<close>

lemma deliver_loop_total:
  assumes "env_ok e" and "hub_queue h = Some q" and "length (mlist (queues q) d) < n"
  shows "deliver_loop n e c d h \<noteq> None"
  using assms(2,3)
proof (induction n arbitrary: h q)
  case (Suc n)
  have srt: "sort_func QueuedAt (e_qsort e)" using assms(1) by (simp add: env_ok_def)
  show ?case
  proof (cases "Dequeue (e_qsort e) (e_now e) d 100 q")
    case (Inr r)
    obtain ms q' where r: "r = (ms, q')" by force
    let ?h = "deliver_batch e c ms (h\<lparr>hub_queue := Some q'\<rparr>)"
    have len: "length (mlist (queues q) d) = length ms + length (mlist (queues q') d)"
      using arg_cong [OF Dequeue_queue [OF srt Inr [unfolded r]], of size] by simp
    have "deliver_loop n e c d (snd ?h) \<noteq> None" if "fst ?h" "ms \<noteq> []"
    proof (rule Suc.IH)
      show "hub_queue (snd ?h) = Some q'" using deliver_batch_ran [OF that(1)] by simp
      have "0 < length ms" using that(2) by simp
      then show "length (mlist (queues q') d) < n" using len Suc.prems(2) by linarith
    qed
    then show ?thesis using Suc.prems(1) Inr r by (auto simp: split_beta Let_def)
  qed (use Suc.prems in simp)
qed simp

text \<open>
  Property C10. Delivery of queued messages ends. Whatever the queue, the clock and the state of the
  connection, the loop that hands a client its queued messages returns after at most one more
  batch than the client has messages queued, so the bound in the model's definition never cuts it
  off.
\<close>

theorem delivery_terminates:
  assumes "env_ok e" and "hub_queue h = Some q" and "map_of (conns h) c = Some cl" and "client_DID cl \<noteq> ''''"
  shows "\<exists>h'. deliver_loop (Suc (length (mlist (queues q) (client_DID cl)))) e c (client_DID cl) h = Some h'
    \<and> deliverQueuedMessages e c h = h'"
  using deliver_loop_total [OF assms(1,2), of "client_DID cl" "Suc (length (mlist (queues q) (client_DID cl)))" c] assms(2-4)
  by (auto simp: deliverQueuedMessages_def with_client_def simp del: deliver_loop.simps)

text \<open>The sample relay with two messages queued for alice.\<close>

definition alice_queue :: MemoryStore where
  "alice_queue = \<lparr>config = DefaultConfig, queues = [(''alice'', [sample_message 1 ''alice'' 7 1000, sample_message 2 ''alice'' 8 1000])],
     dlq = [], totalCount = 2, closed = False\<rparr>"

definition alice_hub :: "frame list \<Rightarrow> RelayHub" where
  "alice_hub fs = sample_hub\<lparr>hub_queue := Some alice_queue,
     conns := [(''c1'', (new_client DefaultRelayConfig 0 '''')\<lparr>client_DID := ''alice'', SendCh := fs\<rparr>)],
     clients := [(''alice'', ''c1'')]\<rparr>"

lemma alice_hub_inv: "length fs \<le> 256 \<Longrightarrow> hub_inv (alice_hub fs)"
  by (simp add: hub_inv_def clients_ok_def running_ok_def alice_hub_def sample_simps wsSendBufferSize_def store_inv_def
      alice_queue_def queues_ok_def queue_ok_def sample_message_def pending_def mvals_def DefaultConfig_def)

lemma alice_hub_facts:
  "hub_queue (alice_hub fs) = Some alice_queue" "\<not> closed alice_queue" "room (alice_hub fs) ''c1'' = 256 - length fs"
  "frames (alice_hub fs) ''c1'' = fs"
  "live (e_now relay_sample_env) (mlist (queues alice_queue) ''alice'') = [sample_message 1 ''alice'' 7 1000, sample_message 2 ''alice'' 8 1000]"
  by (simp_all add: alice_hub_def sample_simps wsSendBufferSize_def room_def frames_def alice_queue_def mlist_def
      sample_message_def IsExpired_def)

lemma alice_client: "\<exists>cl. map_of (conns (alice_hub fs)) ''c1'' = Some cl \<and> client_DID cl = ''alice''"
  by (simp add: alice_hub_def)

theorem delivery_terminates_witness:
  "\<exists>h'. deliver_loop 3 relay_sample_env ''c1'' ''alice'' (alice_hub []) = Some h'
     \<and> deliverQueuedMessages relay_sample_env ''c1'' (alice_hub []) = h'"
proof -
  obtain cl where cl: "map_of (conns (alice_hub [])) ''c1'' = Some cl" "client_DID cl = ''alice''" using alice_client by blast
  have three: "Suc (length (mlist (queues alice_queue) ''alice'')) = 3" by (simp add: alice_queue_def mlist_def)
  have "client_DID cl \<noteq> ''''" using cl by simp
  from delivery_terminates [OF relay_sample_env_ok alice_hub_facts(1) cl(1) this] show ?thesis
    unfolding cl(2) three .
qed

section \<open>Delivery with room in the send buffer\<close>

lemma filter_mset_eq: "mset xs = mset ys + mset zs \<Longrightarrow> mset (filter P xs) = mset (filter P ys) + mset (filter P zs)"
  by simp

lemma Dequeue_live:
  assumes "sort_func QueuedAt srt" and "Dequeue srt now d limit q = Inr (ms, q')"
  shows "mset (live now (mlist (queues q) d)) = mset ms + mset (live now (mlist (queues q') d))"
  using filter_mset_eq [OF Dequeue_queue [OF assms], of "\<lambda>m. \<not> IsExpired now m"] Dequeue_oldest(3) [OF assms]
  by (simp add: filter_id_conv)

lemma Dequeue_all:
  assumes "sort_func QueuedAt srt" and "Dequeue srt now d 100 q = Inr (ms, q')" and "length ms < 100"
  shows "live now (mlist (queues q') d) = []"
proof -
  have "ms = take 100 (live now (srt (mlist (queues q) d)))"
    using Dequeue_oldest(1) [OF assms(1,2)] by (simp add: take_limit_def)
  then have "ms = live now (srt (mlist (queues q) d))" using assms(3) by (simp add: min_def split: if_splits)
  then have "mset ms = mset (live now (mlist (queues q) d))"
    using sort_func_mset [OF assms(1)] by (metis mset_filter)
  then show ?thesis using Dequeue_live [OF assms(1,2)] by simp
qed

lemma deliver_loop_delivers:
  assumes "env_ok e" and "hub_queue h = Some q" and "store_inv q" and "\<not> closed q"
    and "length (live (e_now e) (mlist (queues q) d)) \<le> room h c" and "length (mlist (queues q) d) < n"
  shows "\<exists>h' ms q'. deliver_loop n e c d h = Some h' \<and> hub_queue h' = Some q' \<and> pending q = mset ms + pending q'
    \<and> frames h' c = frames h c @ map (\<lambda>m. frame.Data (QueuedMessage.Data m)) ms
    \<and> mset ms = mset (live (e_now e) (mlist (queues q) d)) \<and> sorted (map QueuedAt ms)
    \<and> live (e_now e) (mlist (queues q') d) = []"
  using assms(2-6)
proof (induction n arbitrary: h q)
  case (Suc n)
  have srt: "sort_func QueuedAt (e_qsort e)" using assms(1) by (simp add: env_ok_def)
  obtain ms q' where deq: "Dequeue (e_qsort e) (e_now e) d 100 q = Inr (ms, q')" and open': "\<not> closed q'"
    using Dequeue_open [OF Suc.prems(3)] by blast
  note cons = Dequeue_conserves [OF srt Suc.prems(2) deq] and old = Dequeue_oldest [OF srt deq]
    and liv = Dequeue_live [OF srt deq]
  have len: "length (mlist (queues q) d) = length ms + length (mlist (queues q') d)"
      "length (live (e_now e) (mlist (queues q) d)) = length ms + length (live (e_now e) (mlist (queues q') d))"
    using arg_cong [OF Dequeue_queue [OF srt deq], of size] arg_cong [OF liv, of size]
    by (simp_all only: size_mset size_union)
  let ?h = "h\<lparr>hub_queue := Some q'\<rparr>"
  let ?b = "deliver_batch e c ms ?h"
  have room: "length ms \<le> room ?h c" using len(2) Suc.prems(4) by (simp add: room_def)
  have batch: "fst ?b" "hub_queue (snd ?b) = Some q'" "room (snd ?b) c = room h c - length ms"
      "frames (snd ?b) c = frames h c @ map (\<lambda>m. frame.Data (QueuedMessage.Data m)) ms"
    using deliver_batch_room [OF old(3) room] deliver_batch_ran [of e c ms ?h] by (simp_all add: room_def)
  show ?case
  proof (cases "length ms < 100")
    case True
    have "deliver_loop (Suc n) e c d h = Some (if ms = [] then ?h else snd ?b)"
      using Suc.prems(1) deq True batch(1) by (simp add: split_beta Let_def)
    moreover have "frames (if ms = [] then ?h else snd ?b) c = frames h c @ map (\<lambda>m. frame.Data (QueuedMessage.Data m)) ms"
      "hub_queue (if ms = [] then ?h else snd ?b) = Some q'" using batch by simp_all
    ultimately show ?thesis using cons(2) liv old(2) Dequeue_all [OF srt deq True] by auto
  next
    case False
    then have more: "deliver_loop (Suc n) e c d h = deliver_loop n e c d (snd ?b)"
      using Suc.prems(1) deq batch(1) by (auto simp: split_beta Let_def)
    have "length (live (e_now e) (mlist (queues q') d)) \<le> room (snd ?b) c" "length (mlist (queues q') d) < n"
      using batch(3) len Suc.prems(4,5) False by simp_all
    from Suc.IH [OF batch(2) cons(1) open' this] obtain h' ms' q'' where
      rest: "deliver_loop n e c d (snd ?b) = Some h'" "hub_queue h' = Some q''" "pending q' = mset ms' + pending q''"
        "frames h' c = frames (snd ?b) c @ map (\<lambda>m. frame.Data (QueuedMessage.Data m)) ms'"
        "mset ms' = mset (live (e_now e) (mlist (queues q') d))" "sorted (map QueuedAt ms')"
        "live (e_now e) (mlist (queues q'') d) = []" by blast
    have "set ms' = set (live (e_now e) (mlist (queues q') d))" using rest(5) by (metis set_mset_mset)
    then have "\<forall>m \<in> set ms. \<forall>m' \<in> set ms'. QueuedAt m \<le> QueuedAt m'" using old(4) by auto
    then have "sorted (map QueuedAt (ms @ ms'))" using old(2) rest(6) by (simp add: sorted_append)
    then show ?thesis using more rest batch(4) cons(2) liv
      by (intro exI [of _ h'] exI [of _ "ms @ ms'"] exI [of _ q'']) simp
  qed
qed simp

text \<open>
  Property C9. A client that registers receives what was queued for it. When the send buffer of the
  connection has room for all live messages queued for its DID, delivery appends exactly these
  messages' bytes to the buffer, oldest first, removes exactly them from the queue, and leaves no
  live message of the DID queued.
\<close>

theorem delivery_complete:
  assumes "env_ok e" and "hub_inv h" and "map_of (conns h) c = Some cl" and "client_DID cl \<noteq> ''''"
    and "hub_queue h = Some q" and "\<not> closed q" and "length (live (e_now e) (mlist (queues q) (client_DID cl))) \<le> room h c"
  shows "\<exists>ms q'. hub_queue (deliverQueuedMessages e c h) = Some q' \<and> pending q = mset ms + pending q'
    \<and> frames (deliverQueuedMessages e c h) c = frames h c @ map (\<lambda>m. frame.Data (QueuedMessage.Data m)) ms
    \<and> mset ms = mset (live (e_now e) (mlist (queues q) (client_DID cl))) \<and> sorted (map QueuedAt ms)
    \<and> live (e_now e) (mlist (queues q') (client_DID cl)) = []"
proof -
  let ?n = "Suc (length (mlist (queues q) (client_DID cl)))"
  obtain h' ms q' where r: "deliver_loop ?n e c (client_DID cl) h = Some h'" "hub_queue h' = Some q'"
      "pending q = mset ms + pending q'" "frames h' c = frames h c @ map (\<lambda>m. frame.Data (QueuedMessage.Data m)) ms"
      "mset ms = mset (live (e_now e) (mlist (queues q) (client_DID cl)))" "sorted (map QueuedAt ms)"
      "live (e_now e) (mlist (queues q') (client_DID cl)) = []"
    using deliver_loop_delivers [OF assms(1,5) hub_invD(3) [OF assms(2,5)] assms(6,7), of ?n] by blast
  have "deliverQueuedMessages e c h = h'"
    using assms(3-5) r(1) by (simp add: deliverQueuedMessages_def with_client_def del: deliver_loop.simps)
  then show ?thesis using r(2-7) by blast
qed

theorem delivery_complete_witness:
  "frames (deliverQueuedMessages relay_sample_env ''c1'' (alice_hub [])) ''c1''
     = [frame.Data (QueuedMessage.Data (sample_message 1 ''alice'' 7 1000)), frame.Data (QueuedMessage.Data (sample_message 2 ''alice'' 8 1000))]
   \<and> (\<exists>q'. hub_queue (deliverQueuedMessages relay_sample_env ''c1'' (alice_hub [])) = Some q' \<and> pending q' = {#})"
proof -
  obtain cl where cl: "map_of (conns (alice_hub [])) ''c1'' = Some cl" "client_DID cl = ''alice''" using alice_client by blast
  let ?ms = "[sample_message 1 ''alice'' 7 1000, sample_message 2 ''alice'' 8 1000]"
  obtain ms q' where r: "hub_queue (deliverQueuedMessages relay_sample_env ''c1'' (alice_hub [])) = Some q'"
      "pending alice_queue = mset ms + pending q'"
      "frames (deliverQueuedMessages relay_sample_env ''c1'' (alice_hub [])) ''c1'' = map (\<lambda>m. frame.Data (QueuedMessage.Data m)) ms"
      "mset ms = mset ?ms" "sorted (map QueuedAt ms)"
    using delivery_complete [OF relay_sample_env_ok alice_hub_inv cl(1) _ alice_hub_facts(1,2), unfolded cl(2) alice_hub_facts] by auto
  have "length ms = 2" using arg_cong [OF r(4), of size] by simp
  then obtain a b where "ms = [a, b]" by (auto simp: numeral_2_eq_2 length_Suc_conv)
  then have "ms = ?ms" using r(4,5) by (auto simp: sample_message_def add_eq_conv_ex)
  then show ?thesis using r by (simp add: alice_queue_def pending_def mvals_def)
qed

section \<open>A full send buffer\<close>

lemma deliver_batch_full:
  assumes "\<forall>m \<in> set (pre @ [m]). \<not> IsExpired (e_now e) m" and "room h c = length pre"
    and "hub_queue h = Some q" and "Enqueue (e_queues e) m q = Inr q'"
  shows "\<not> fst (deliver_batch e c (pre @ m # post) h)"
    and "hub_queue (snd (deliver_batch e c (pre @ m # post) h)) = Some q'"
    and "frames (snd (deliver_batch e c (pre @ m # post) h)) c = frames h c @ map (\<lambda>m. frame.Data (QueuedMessage.Data m)) pre"
  using assms
  by (induction pre arbitrary: h) (simp_all add: split_beta Let_def send_accepts accepts_room frames_send)

lemma Dequeue_counts:
  assumes "Dequeue srt now d limit q = Inr (ms, q')"
  shows "config q' = config q" and "totalCount q' = totalCount q - int (length ms)"
  using assms by (auto simp: Dequeue_def split: if_splits prod.splits)

text \<open>
  Property C36. Messages are lost when the send buffer fills up during delivery. When a client that
  registers has between one and a hundred live messages queued and its send buffer has room for
  fewer, the messages that fit are delivered, the next one goes back to the queue, and all the
  others of the batch are neither delivered nor queued any more.
\<close>

theorem delivery_overflow_loses:
  assumes "env_ok e" and "hub_inv h" and "map_of (conns h) c = Some cl" and "client_DID cl \<noteq> ''''"
    and "hub_queue h = Some q" and "\<not> closed q"
    and "room h c < length (live (e_now e) (mlist (queues q) (client_DID cl)))"
    and "length (live (e_now e) (mlist (queues q) (client_DID cl))) \<le> 100"
    and "MaxTotalMessages (config q) > 0 \<longrightarrow> totalCount q \<le> MaxTotalMessages (config q)"
  shows "\<exists>q' delivered m lost. hub_queue (deliverQueuedMessages e c h) = Some q'
    \<and> frames (deliverQueuedMessages e c h) c = frames h c @ map (\<lambda>m. frame.Data (QueuedMessage.Data m)) delivered
    \<and> mset (live (e_now e) (mlist (queues q) (client_DID cl))) = mset delivered + {#m#} + mset lost
    \<and> length delivered = room h c \<and> m \<in># pending q' \<and> pending q = mset delivered + mset lost + pending q'"
proof -
  let ?d = "client_DID cl"
  have srt: "sort_func QueuedAt (e_qsort e)" and ord: "range_order (e_queues e)" using assms(1) by (simp_all add: env_ok_def)
  note inv = hub_invD(3) [OF assms(2,5)]
  obtain ms q1 where deq: "Dequeue (e_qsort e) (e_now e) ?d 100 q = Inr (ms, q1)" and open': "\<not> closed q1"
    using Dequeue_open [OF assms(6)] by blast
  have "ms = live (e_now e) (e_qsort e (mlist (queues q) ?d))"
  proof -
    have "length (live (e_now e) (e_qsort e (mlist (queues q) ?d))) = length (live (e_now e) (mlist (queues q) ?d))"
      using sort_func_mset [OF srt, of "mlist (queues q) ?d"] by (metis mset_filter size_mset)
    then show ?thesis using Dequeue_oldest(1) [OF srt deq] assms(8) by (simp add: take_limit_def)
  qed
  then have live: "mset ms = mset (live (e_now e) (mlist (queues q) ?d))" using sort_func_mset [OF srt] by (metis mset_filter)
  then have len: "length ms = length (live (e_now e) (mlist (queues q) ?d))" by (metis size_mset)
  define pre m post where "pre = take (room h c) ms" and "m = ms ! room h c" and "post = drop (Suc (room h c)) ms"
  have ms: "ms = pre @ m # post" and pre: "length pre = room h c"
    using assms(7) len by (simp_all add: pre_def m_def post_def id_take_nth_drop)
  note cons = Dequeue_conserves [OF srt inv deq] and old = Dequeue_oldest(3) [OF srt deq]
  have recip: "RecipientDID m = ?d"
  proof -
    have "m \<in> set (mlist (queues q) ?d)" using live ms by (metis filter_is_subset in_set_conv_decomp set_mset_mset subset_iff)
    then show ?thesis using queue_ok_mlist [of "config q" "queues q" ?d] inv by (auto simp: store_inv_def queue_ok_def)
  qed
  have "queue_room q1 [?d]"
  proof -
    have "length (mlist (queues q) ?d) = length ms + length (mlist (queues q1) ?d)"
      using arg_cong [OF Dequeue_queue [OF srt deq], of size] by simp
    moreover have "MaxQueueSize (config q) > 0 \<longrightarrow> int (length (mlist (queues q) ?d)) \<le> MaxQueueSize (config q)"
      using queue_ok_mlist [of "config q" "queues q" ?d] inv by (simp add: store_inv_def queue_ok_def)
    ultimately show ?thesis using open' Dequeue_counts [OF deq] assms(9) ms by (auto simp: queue_room_def)
  qed
  from Enqueue_room [OF this _ cons(1) recip ord] obtain q' where
    enq: "Enqueue (e_queues e) m q1 = Inr q'" "pending q' = add_mset m (pending q1)" by auto
  let ?h = "h\<lparr>hub_queue := Some q1\<rparr>"
  have "room ?h c = length pre" "hub_queue ?h = Some q1" using pre by (simp_all add: room_def)
  note full = deliver_batch_full [OF _ this enq(1), of post, folded ms]
  have "deliverQueuedMessages e c h = snd (deliver_batch e c ms ?h)"
    using assms(3-5) deq full(1) old ms by (simp add: deliverQueuedMessages_def with_client_def split_beta Let_def)
  then show ?thesis
    using full(2,3) old ms live pre enq(2) cons(2)
    by (intro exI [of _ q'] exI [of _ pre] exI [of _ m] exI [of _ post]) auto
qed

theorem delivery_overflow_loses_witness:
  "\<exists>q' m. hub_queue (deliverQueuedMessages relay_sample_env ''c1'' (alice_hub (replicate 256 (frame.Data [])))) = Some q'
     \<and> frames (deliverQueuedMessages relay_sample_env ''c1'' (alice_hub (replicate 256 (frame.Data [])))) ''c1'' = replicate 256 (frame.Data [])
     \<and> size (pending alice_queue) = 2 \<and> size (pending q') = 1"
proof -
  let ?h = "alice_hub (replicate 256 (frame.Data []))"
  obtain cl where cl: "map_of (conns ?h) ''c1'' = Some cl" "client_DID cl = ''alice''" using alice_client by blast
  have p: "size (pending alice_queue) = 2" "totalCount alice_queue \<le> MaxTotalMessages (config alice_queue)"
    by (simp_all add: alice_queue_def pending_def mvals_def DefaultConfig_def)
  obtain q' delivered m lost where r: "hub_queue (deliverQueuedMessages relay_sample_env ''c1'' ?h) = Some q'"
      "frames (deliverQueuedMessages relay_sample_env ''c1'' ?h) ''c1''
         = replicate 256 (frame.Data []) @ map (\<lambda>m. frame.Data (QueuedMessage.Data m)) delivered"
      "mset [sample_message 1 ''alice'' 7 1000, sample_message 2 ''alice'' 8 1000] = mset delivered + {#m#} + mset lost"
      "length delivered = 0" "pending alice_queue = mset delivered + mset lost + pending q'"
    using delivery_overflow_loses [OF relay_sample_env_ok alice_hub_inv cl(1) _ alice_hub_facts(1,2), unfolded cl(2) alice_hub_facts] p(2)
    by auto
  have "length lost = 1" using arg_cong [OF r(3), of size] r(4) by simp
  then show ?thesis using r p arg_cong [OF r(5), of size] by auto
qed

end
