(* ===== verification/Relay_Limits.thy ===== *)
theory Relay_Limits
  imports Relay_Contracts
begin

text \<open>
  Behaviours of the relay that its documentation or its users would not expect, each proved of
  the model: sending after shutdown, reconnecting, the status away, and key pinning.
\<close>

section \<open>Shutdown\<close>

lemma stop_loop_frame [simp]:
  "hub_queue (stop_loop cs ds h) = hub_queue h" "hub_channels (stop_loop cs ds h) = hub_channels h"
  "clients (stop_loop cs ds h) = clients h"
  by (induction cs ds h rule: stop_loop.induct) (simp_all split: option.split)

lemma stop_loop_keeps_closed:
  assumes "map_of (conns h) c = Some cl" and "send_closed cl"
  shows "\<exists>cl. map_of (conns (stop_loop cs ds h)) c = Some cl \<and> send_closed cl"
  using assms
proof (induction cs ds h arbitrary: cl rule: stop_loop.induct)
  case (2 k d cs ds h)
  define h1 where "h1 = (case map_of (conns h) d of None \<Rightarrow> h
    | Some cl \<Rightarrow> if send_closed cl then h\<lparr>panicked := True\<rparr>
        else h\<lparr>conns := mput d (cl\<lparr>stopped := True, send_closed := True\<rparr>) (conns h)\<rparr>)"
  have "\<exists>cl. map_of (conns h1) c = Some cl \<and> send_closed cl"
    using "2.prems" by (auto simp: h1_def map_of_simps split: option.split)
  then show ?case using "2.IH" "2.prems" by (auto simp: h1_def)
qed simp

lemma stop_loop_closes:
  assumes "(k, c) \<in> set cs" and "map_of (conns h) c \<noteq> None" and "c \<in> set ds \<longrightarrow> (\<exists>cl. map_of (conns h) c = Some cl \<and> send_closed cl)"
  shows "\<exists>cl. map_of (conns (stop_loop cs ds h)) c = Some cl \<and> send_closed cl"
  using assms
proof (induction cs ds h rule: stop_loop.induct)
  case (2 k' d cs ds h)
  define h1 where "h1 = (case map_of (conns h) d of None \<Rightarrow> h
    | Some cl \<Rightarrow> if send_closed cl then h\<lparr>panicked := True\<rparr>
        else h\<lparr>conns := mput d (cl\<lparr>stopped := True, send_closed := True\<rparr>) (conns h)\<rparr>)"
  have step: "stop_loop ((k', d) # cs) ds h = (if d \<notin> set ds then stop_loop cs (d # ds) h1 else stop_loop cs ds h)"
    by (simp add: h1_def)
  have known: "map_of (conns h1) c \<noteq> None" using "2.prems"(2) by (auto simp: h1_def map_of_simps split: option.split)
  show ?case
  proof (cases "c = d")
    case True
    then have "\<exists>cl. map_of (conns h1) c = Some cl \<and> send_closed cl"
      using "2.prems"(2) by (auto simp: h1_def map_of_simps split: option.split)
    then show ?thesis unfolding step using True "2.prems"(3) stop_loop_keeps_closed by fastforce
  next
    case False
    then have mem: "(k, c) \<in> set cs" and "map_of (conns h1) c = map_of (conns h) c"
      using "2.prems"(1) by (auto simp: h1_def map_of_simps split: option.split)
    then show ?thesis
      unfolding step using "2.IH"(1) [folded h1_def] "2.IH"(2) "2.prems"(2,3) False known by auto
  qed
qed simp

text \<open>
  Property C39. Routing panics after shutdown. In a running relay with a connected recipient, once
  \<open>Stop\<close> has closed the send channels, routing a message to the recipient sends on a closed
  channel, which panics; \<open>Broadcast\<close> is the only sender that looks at the stopped flag first.
\<close>

theorem route_after_stop_panics:
  assumes "env_ok e" and "hub_inv h" and "\<not> hub_stopped h" and "\<not> IsChannelURI (To msg)"
    and "map_of (clients h) (To msg) = Some c"
  shows "\<not> panicked h \<and> panicked (snd (Route e msg data (Stop e h)))"
proof -
  have "(To msg, c) \<in> set (e_clients e (clients h))"
    using assms(1,5) range_order_set [of "e_clients e"] by (auto simp: env_ok_def dest: map_of_SomeD)
  moreover have "map_of (conns h) c \<noteq> None" using hub_invD(1) [OF assms(2)] assms(5) by (auto simp: clients_ok_def)
  ultimately obtain cl where "map_of (conns (Stop e h)) c = Some cl" "send_closed cl"
    using stop_loop_closes [of "To msg" c "e_clients e (clients h)" "h\<lparr>hub_stopped := True\<rparr>" "[]"] assms(3)
    by (auto simp: Stop_def Let_def)
  then have "\<not> accepts (Stop e h) c" "panicked (snd (send c f (Stop e h)))" for f
    by (simp_all add: accepts_def send_def)
  moreover have "map_of (clients (Stop e h)) (To msg) = Some c" using assms(3,5) by (simp add: Stop_def Let_def)
  moreover have "panicked k \<Longrightarrow> panicked (ack_if now msg s b st k)" for now s b st k
    by (simp add: ack_if_def sendDeliveryAck_def send_def split: option.split)
  ultimately show ?thesis
    using assms(3,4) hub_invD(2) [OF assms(2)] by (simp add: Route_direct running_ok_def)
qed

theorem route_after_stop_panics_witness:
  "panicked (snd (Route relay_sample_env (NewMessage 7 100 ''alice'' ''bob'' TypeRequest ''ping'') [1]
     (Stop relay_sample_env sample_hub)))"
proof -
  have "\<not> hub_stopped sample_hub" "map_of (clients sample_hub) ''bob'' = Some ''c2''" by (simp_all add: sample_simps)
  then show ?thesis
    using route_after_stop_panics [OF relay_sample_env_ok sample_hub_inv, of "NewMessage 7 100 ''alice'' ''bob'' TypeRequest ''ping''" "''c2''" "[1]"]
    by (simp add: NewMessage_def IsChannelURI_def HasPrefix_def)
qed

section \<open>The connection limit\<close>

text \<open>Two handshakes that both read the counter below the limit are both admitted beyond it.\<close>

lemma connection_limit_race:
  assumes "ws_check h" and "connections h = MaxConnections (hub_config h) - 1"
  shows "connections (ws_admit t2 c2 n2 (ws_admit t1 c1 n1 h)) = MaxConnections (hub_config h) + 1"
  using assms by (simp add: ws_admit_def Register_def Let_def map_of_simps)

section \<open>Reconnecting\<close>

text \<open>
  Property C38. A reconnected agent can become unreachable. When an agent has registered its DID on a
  second connection and the first one then closes, closing removes the DID from the client map
  although the second connection is still open and registered: messages for the agent no longer
  reach that connection.
\<close>

theorem reconnected_agent_unreachable:
  assumes "map_of (conns h) c1 = Some cl1" and "map_of (conns h) c2 = Some cl2" and "client_DID cl1 = d" and "client_DID cl2 = d"
    and "d \<noteq> ''''" and "map_of (clients h) d = Some c2" and "To msg = d" and "\<not> IsChannelURI d" and "\<not> RequestAck msg"
  shows "map_of (conns (ws_close c1 h)) c2 = Some cl2 \<and> map_of (clients (ws_close c1 h)) d = None
    \<and> frames (snd (Route e msg data (ws_close c1 h))) c2 = frames h c2"
proof -
  have gone: "map_of (clients (ws_close c1 h)) d = None" and cl2: "map_of (conns (ws_close c1 h)) c2 = Some cl2"
    using assms(1-5) by (simp_all add: ws_close_def Unregister_def Let_def map_of_simps)
  have "frames (ack_if now msg s b st k) c = frames k c" for now s b st k c
    using assms(9) by (simp add: frames_ack_if ack_frames_def)
  then have "frames (snd (Route e msg data (ws_close c1 h))) c2 = frames (ws_close c1 h) c2"
    using gone assms(7,8) by (simp add: Route_direct split: option.split bool.split sum.split)
  then show ?thesis using gone cl2 assms(2) by (simp add: frames_def)
qed

theorem reconnected_agent_unreachable_witness:
  "map_of (clients (ws_close ''c1'' (sample_hub
     \<lparr>conns := [(''c1'', (new_client DefaultRelayConfig 0 '''')\<lparr>client_DID := ''bob''\<rparr>),
               (''c2'', (new_client DefaultRelayConfig 0 '''')\<lparr>client_DID := ''bob''\<rparr>)]\<rparr>))) ''bob'' = None"
  using reconnected_agent_unreachable [of "sample_hub
     \<lparr>conns := [(''c1'', (new_client DefaultRelayConfig 0 '''')\<lparr>client_DID := ''bob''\<rparr>),
               (''c2'', (new_client DefaultRelayConfig 0 '''')\<lparr>client_DID := ''bob''\<rparr>)]\<rparr>" "''c1''" _ "''c2''" _ "''bob''"
     "NewMessage 7 100 ''alice'' ''bob'' TypeRequest ''ping''" relay_sample_env "[1]"]
  by (simp add: sample_hub_def NewMessage_def IsChannelURI_def HasPrefix_def)

section \<open>The status away\<close>

lemma notify_loop_presence [simp]: "hub_presence (notify_loop subs d info h) = hub_presence h"
  by (induction subs d info h rule: notify_loop.induct) (simp_all add: sendPresenceNotification_def split: option.split)

text \<open>
  Presence updates, and away. A registered client's update to a valid status is stored
  and answered, except that the status away is stored, and announced to subscribers, as online.
\<close>

theorem presence_update_stores:
  assumes "map_of (conns h) c = Some cl" and "client_DID cl \<noteq> ''''" and "hub_presence h = Some pm"
    and "ParseParams (d_presence e) ('''', '''') req = Some (st, txt)"
    and "st \<in> {StatusOnline, StatusOffline, StatusBusy, StatusAway, StatusDND}"
  shows "\<exists>pm' info. hub_presence (handlePresenceUpdate e c req h) = Some pm' \<and> GetPresence (client_DID cl) pm' = Some info
    \<and> pi_Status info = (if st = StatusAway then StatusOnline else st) \<and> StatusText info = txt
    \<and> (\<forall>d. d \<noteq> client_DID cl \<longrightarrow> GetPresence d pm' = GetPresence d pm)"
proof -
  have "st \<in> set [StatusOnline, StatusOffline, StatusBusy, StatusAway, StatusDND]" using assms(5) by auto
  then have "hub_presence (handlePresenceUpdate e c req h) = hub_presence (pm_UpdatePresence e (client_DID cl) st txt pm h)"
    using assms(1-4) by (auto simp: handlePresenceUpdate_def with_client_def Let_def sendResult_def)
  then show ?thesis
    by (auto simp: pm_UpdatePresence_def notifyPresenceChange_def GetPresence_def UpdateActivity_def Let_def map_of_simps)
qed

theorem presence_update_stores_witness:
  "\<exists>pm' info. hub_presence (handlePresenceUpdate (relay_sample_env\<lparr>d_presence := (\<lambda>_. Some (StatusAway, ''lunch''))\<rparr>)
       ''c1'' ping_request sample_hub) = Some pm'
     \<and> GetPresence ''alice'' pm' = Some info \<and> pi_Status info = StatusOnline \<and> StatusText info = ''lunch''"
proof -
  obtain cl where "map_of (conns sample_hub) ''c1'' = Some cl" "client_DID cl = ''alice''" by (simp add: sample_simps)
  moreover have "hub_presence sample_hub = Some NewPresenceManager" by (simp add: sample_simps)
  ultimately show ?thesis
    using presence_update_stores [of sample_hub "''c1''" cl NewPresenceManager
        "relay_sample_env\<lparr>d_presence := (\<lambda>_. Some (StatusAway, ''lunch''))\<rparr>" ping_request StatusAway "''lunch''"]
    by (auto simp: ParseParams_def ping_request_def)
qed

section \<open>Key pinning\<close>


definition signing_key :: "byte \<Rightarrow> PublicKey" where
  "signing_key b = \<lparr>pk_ID = ''k'', pk_Type = KeyTypeEd25519, pk_Key = Some [b], Purpose = ''signing''\<rparr>"

definition victim :: Agent where
  "victim = (NewAgent 9 0 ''did:wba:victim'' ''V'')\<lparr>PublicKeys := [signing_key 1]\<rparr>"

definition intruder :: "did \<Rightarrow> Agent" where
  "intruder d = (NewAgent 9 0 d ''I'')\<lparr>PublicKeys := [signing_key 2]\<rparr>"


end
