(* ===== verification/Conversation.thy ===== *)
theory Conversation
  imports Go_Prelude
begin

text \<open>
  Conversation threads: \<open>pkg/conversation/types.go\<close>, the errors and configuration of \<open>store.go\<close> and
  the in-memory store of \<open>memory.go\<close> with its two indexes. The store copies threads and messages
  on the way in and out, so they are values here. The textual form of a UUID is a parameter; the
  store relies on its length of 36 characters.
\<close>

section \<open>Types\<close>

datatype conv_error = ErrThreadNotFound | ErrMessageNotFound | ErrReceiptNotFound | ErrStoreClosed

type_synonym ThreadState = string

abbreviation ThreadStateActive :: ThreadState where "ThreadStateActive \<equiv> ''active''"
abbreviation ThreadStateAwaitingInput :: ThreadState where "ThreadStateAwaitingInput \<equiv> ''awaiting-input''"
abbreviation ThreadStateCompleted :: ThreadState where "ThreadStateCompleted \<equiv> ''completed''"
abbreviation ThreadStateFailed :: ThreadState where "ThreadStateFailed \<equiv> ''failed''"

record Thread =
  th_ID :: uuid
  th_Title :: string
  Participants :: "did list"
  th_CreatedAt :: time
  th_UpdatedAt :: time
  LastMessage :: "time option"
  MessageCount :: int
  th_Metadata :: "(string, json) gomap"
  th_State :: ThreadState
  TaskIDs :: "string list"
  SessionIDs :: "string list"

definition NewThread :: "uuid \<Rightarrow> time \<Rightarrow> did list \<Rightarrow> Thread" where
  "NewThread i now participants =
     \<lparr>th_ID = i, th_Title = '''', Participants = participants, th_CreatedAt = now, th_UpdatedAt = now, LastMessage = None,
      MessageCount = 0, th_Metadata = [], th_State = '''', TaskIDs = [], SessionIDs = []\<rparr>"

definition HasParticipant :: "did \<Rightarrow> Thread \<Rightarrow> bool" where
  "HasParticipant d t \<longleftrightarrow> d \<in> set (Participants t)"

definition AddParticipant :: "time \<Rightarrow> did \<Rightarrow> Thread \<Rightarrow> bool \<times> Thread" where
  "AddParticipant now d t =
     (if HasParticipant d t then (False, t)
      else (True, t\<lparr>Participants := Participants t @ [d], th_UpdatedAt := now\<rparr>))"

record StoredMessage =
  sm_ID :: uuid
  sm_ThreadID :: uuid
  sm_ParentID :: "uuid option"
  sm_From :: did
  sm_To :: did
  sm_Type :: string
  sm_Body :: slice
  sm_Timestamp :: time
  sm_SeqNo :: int
  sm_Encrypted :: bool
  sm_Metadata :: "(string, json) gomap"

record MessageReceipt =
  rc_MessageID :: uuid
  rc_RecipientDID :: did
  DeliveredAt :: "time option"
  ReadAt :: "time option"

definition IsDelivered :: "MessageReceipt \<Rightarrow> bool" where
  "IsDelivered r \<longleftrightarrow> DeliveredAt r \<noteq> None"

definition IsRead :: "MessageReceipt \<Rightarrow> bool" where
  "IsRead r \<longleftrightarrow> ReadAt r \<noteq> None"

record ThreadFilter =
  tf_ParticipantDID :: did
  tf_Since :: "time option"
  tf_Limit :: int
  tf_Offset :: int

record MessageFilter =
  mf_ThreadID :: uuid
  mf_Since :: "time option"
  mf_Before :: "time option"
  mf_Types :: "string list"
  mf_Limit :: int
  mf_Offset :: int

record StoreConfig =
  MaxThreads :: int
  MaxMessagesPerThread :: int
  RetentionDays :: int

definition DefaultStoreConfig :: StoreConfig where
  "DefaultStoreConfig = \<lparr>MaxThreads = 0, MaxMessagesPerThread = 0, RetentionDays = 0\<rparr>"

section \<open>The store\<close>

record ConvStore =
  cs_threads :: "(uuid, Thread) gomap"
  cs_messages :: "(uuid, StoredMessage) gomap"
  cs_receipts :: "(string, MessageReceipt) gomap"
  messagesByThread :: "(uuid, uuid list) gomap"
  threadsByDID :: "(did, uuid list) gomap"
  cs_config :: StoreConfig
  cs_closed :: bool

definition NewConvStore :: "StoreConfig \<Rightarrow> ConvStore" where
  "NewConvStore c =
     \<lparr>cs_threads = [], cs_messages = [], cs_receipts = [], messagesByThread = [], threadsByDID = [], cs_config = c,
      cs_closed = False\<rparr>"

text \<open>\<open>m[k] = append(m[k], v)\<close>, and the removal of the first occurrence of \<open>v\<close> from \<open>m[k]\<close>.\<close>

definition index_append :: "'k \<Rightarrow> 'v \<Rightarrow> ('k, 'v list) gomap \<Rightarrow> ('k, 'v list) gomap" where
  "index_append k v m = mput k (mlist m k @ [v]) m"

definition index_remove :: "'k \<Rightarrow> 'v \<Rightarrow> ('k, 'v list) gomap \<Rightarrow> ('k, 'v list) gomap" where
  "index_remove k v m =
     (case find_index (\<lambda>x. x = v) (mlist m k) of
        None \<Rightarrow> m
      | Some i \<Rightarrow> mput k (delete_at i (mlist m k)) m)"

definition removeThreadFromDID :: "did \<Rightarrow> uuid \<Rightarrow> (did, uuid list) gomap \<Rightarrow> (did, uuid list) gomap" where
  "removeThreadFromDID d t m = index_remove d t m"

definition CreateThread :: "Thread \<Rightarrow> ConvStore \<Rightarrow> conv_error + ConvStore" where
  "CreateThread t s =
     (if cs_closed s then Inl ErrStoreClosed
      else Inr (s\<lparr>cs_threads := mput (th_ID t) t (cs_threads s),
                 threadsByDID := fold (\<lambda>d. index_append d (th_ID t)) (Participants t) (threadsByDID s)\<rparr>))"

definition GetThread :: "uuid \<Rightarrow> ConvStore \<Rightarrow> conv_error + Thread" where
  "GetThread i s =
     (if cs_closed s then Inl ErrStoreClosed
      else case map_of (cs_threads s) i of None \<Rightarrow> Inl ErrThreadNotFound | Some t \<Rightarrow> Inr t)"

definition UpdateThread :: "Thread \<Rightarrow> ConvStore \<Rightarrow> conv_error + ConvStore" where
  "UpdateThread t s =
     (if cs_closed s then Inl ErrStoreClosed
      else case map_of (cs_threads s) (th_ID t) of
        None \<Rightarrow> Inl ErrThreadNotFound
      | Some old \<Rightarrow>
          let ix1 = fold (\<lambda>d ix. if \<not> HasParticipant d t then removeThreadFromDID d (th_ID t) ix else ix)
                (Participants old) (threadsByDID s);
              ix2 = fold (\<lambda>d ix. if \<not> HasParticipant d old then index_append d (th_ID t) ix else ix)
                (Participants t) ix1
          in Inr (s\<lparr>threadsByDID := ix2, cs_threads := mput (th_ID t) t (cs_threads s)\<rparr>))"

definition drop_receipts :: "(uuid \<Rightarrow> string) \<Rightarrow> uuid \<Rightarrow> (string, MessageReceipt) gomap \<Rightarrow> (string, MessageReceipt) gomap" where
  "drop_receipts us i rs = filter (\<lambda>(key, _). \<not> (length key > 36 \<and> take 36 key = us i)) rs"

definition DeleteThread :: "(uuid \<Rightarrow> string) \<Rightarrow> uuid \<Rightarrow> ConvStore \<Rightarrow> conv_error + ConvStore" where
  "DeleteThread us i s =
     (if cs_closed s then Inl ErrStoreClosed
      else case map_of (cs_threads s) i of
        None \<Rightarrow> Inl ErrThreadNotFound
      | Some t \<Rightarrow>
          let msgIDs = mlist (messagesByThread s) i
          in Inr (s\<lparr>threadsByDID := fold (\<lambda>d. removeThreadFromDID d i) (Participants t) (threadsByDID s),
                   cs_messages := fold mdel msgIDs (cs_messages s),
                   cs_receipts := fold (drop_receipts us) msgIDs (cs_receipts s),
                   messagesByThread := mdel i (messagesByThread s),
                   cs_threads := mdel i (cs_threads s)\<rparr>))"

definition threadMatchesFilter :: "ThreadFilter \<Rightarrow> Thread \<Rightarrow> bool" where
  "threadMatchesFilter f t = (case tf_Since f of None \<Rightarrow> True | Some since \<Rightarrow> \<not> th_UpdatedAt t < since)"

definition paginate :: "int \<Rightarrow> int \<Rightarrow> 'a list \<Rightarrow> 'a list" where
  "paginate offset limit xs =
     (if offset > 0 \<and> offset \<ge> int (length xs) then []
      else
        let ys = (if offset > 0 then drop (nat offset) xs else xs)
        in if limit > 0 \<and> int (length ys) > limit then take (nat limit) ys else ys)"

definition ListThreads ::
  "((uuid, Thread) gomap \<Rightarrow> (uuid, Thread) gomap) \<Rightarrow> (Thread list \<Rightarrow> Thread list) \<Rightarrow> ThreadFilter \<Rightarrow> ConvStore
   \<Rightarrow> conv_error + Thread list" where
  "ListThreads ord srt f s =
     (if cs_closed s then Inl ErrStoreClosed
      else
        let found =
          (if tf_ParticipantDID f \<noteq> ''''
           then filter (threadMatchesFilter f)
                  (List.map_filter (map_of (cs_threads s)) (mlist (threadsByDID s) (tf_ParticipantDID f)))
           else filter (threadMatchesFilter f) (map snd (ord (cs_threads s))))
        in Inr (paginate (tf_Offset f) (tf_Limit f) (srt found)))"

definition SaveMessage :: "time \<Rightarrow> StoredMessage \<Rightarrow> ConvStore \<Rightarrow> conv_error + ConvStore" where
  "SaveMessage now msg s =
     (if cs_closed s then Inl ErrStoreClosed
      else case map_of (cs_threads s) (sm_ThreadID msg) of
        None \<Rightarrow> Inl ErrThreadNotFound
      | Some t \<Rightarrow>
          Inr (s\<lparr>cs_messages := mput (sm_ID msg) msg (cs_messages s),
                messagesByThread := index_append (sm_ThreadID msg) (sm_ID msg) (messagesByThread s),
                cs_threads := mput (sm_ThreadID msg)
                  (t\<lparr>MessageCount := MessageCount t + 1, LastMessage := Some (sm_Timestamp msg), th_UpdatedAt := now\<rparr>)
                  (cs_threads s)\<rparr>))"

definition GetMessage :: "uuid \<Rightarrow> ConvStore \<Rightarrow> conv_error + StoredMessage" where
  "GetMessage i s =
     (if cs_closed s then Inl ErrStoreClosed
      else case map_of (cs_messages s) i of None \<Rightarrow> Inl ErrMessageNotFound | Some m \<Rightarrow> Inr m)"

definition messageMatchesFilter :: "MessageFilter \<Rightarrow> StoredMessage \<Rightarrow> bool" where
  "messageMatchesFilter f m =
     (if (case mf_Since f of None \<Rightarrow> False | Some since \<Rightarrow> sm_Timestamp m < since) then False
      else if (case mf_Before f of None \<Rightarrow> False | Some before \<Rightarrow> sm_Timestamp m > before) then False
      else if mf_Types f \<noteq> [] \<and> sm_Type m \<notin> set (mf_Types f) then False
      else True)"

definition GetMessages ::
  "(StoredMessage list \<Rightarrow> StoredMessage list) \<Rightarrow> MessageFilter \<Rightarrow> ConvStore \<Rightarrow> conv_error + StoredMessage list" where
  "GetMessages srt f s =
     (if cs_closed s then Inl ErrStoreClosed
      else Inr (paginate (mf_Offset f) (mf_Limit f) (srt (filter (messageMatchesFilter f)
             (List.map_filter (map_of (cs_messages s)) (mlist (messagesByThread s) (mf_ThreadID f)))))))"

definition DeleteMessage :: "(uuid \<Rightarrow> string) \<Rightarrow> uuid \<Rightarrow> ConvStore \<Rightarrow> conv_error + ConvStore" where
  "DeleteMessage us i s =
     (if cs_closed s then Inl ErrStoreClosed
      else case map_of (cs_messages s) i of
        None \<Rightarrow> Inl ErrMessageNotFound
      | Some msg \<Rightarrow>
          Inr (s\<lparr>messagesByThread := index_remove (sm_ThreadID msg) i (messagesByThread s),
                cs_threads := (case map_of (cs_threads s) (sm_ThreadID msg) of
                    None \<Rightarrow> cs_threads s
                  | Some t \<Rightarrow> mput (sm_ThreadID msg) (t\<lparr>MessageCount := MessageCount t - 1\<rparr>) (cs_threads s)),
                cs_receipts := drop_receipts us i (cs_receipts s),
                cs_messages := mdel i (cs_messages s)\<rparr>))"

definition receiptKey :: "(uuid \<Rightarrow> string) \<Rightarrow> uuid \<Rightarrow> did \<Rightarrow> string" where
  "receiptKey us messageID recipientDID = us messageID @ '':'' @ recipientDID"

definition MarkDelivered :: "(uuid \<Rightarrow> string) \<Rightarrow> time \<Rightarrow> uuid \<Rightarrow> did \<Rightarrow> ConvStore \<Rightarrow> conv_error + ConvStore" where
  "MarkDelivered us now i d s =
     (if cs_closed s then Inl ErrStoreClosed
      else case map_of (cs_messages s) i of
        None \<Rightarrow> Inl ErrMessageNotFound
      | Some _ \<Rightarrow>
          let key = receiptKey us i d
          in case map_of (cs_receipts s) key of
               None \<Rightarrow> Inr (s\<lparr>cs_receipts := mput key
                   \<lparr>rc_MessageID = i, rc_RecipientDID = d, DeliveredAt = Some now, ReadAt = None\<rparr> (cs_receipts s)\<rparr>)
             | Some r \<Rightarrow>
                 if DeliveredAt r = None
                 then Inr (s\<lparr>cs_receipts := mput key (r\<lparr>DeliveredAt := Some now\<rparr>) (cs_receipts s)\<rparr>)
                 else Inr s)"

definition MarkRead :: "(uuid \<Rightarrow> string) \<Rightarrow> time \<Rightarrow> uuid \<Rightarrow> did \<Rightarrow> ConvStore \<Rightarrow> conv_error + ConvStore" where
  "MarkRead us now i d s =
     (if cs_closed s then Inl ErrStoreClosed
      else case map_of (cs_messages s) i of
        None \<Rightarrow> Inl ErrMessageNotFound
      | Some _ \<Rightarrow>
          let key = receiptKey us i d
          in case map_of (cs_receipts s) key of
               None \<Rightarrow> Inr (s\<lparr>cs_receipts := mput key
                   \<lparr>rc_MessageID = i, rc_RecipientDID = d, DeliveredAt = Some now, ReadAt = Some now\<rparr> (cs_receipts s)\<rparr>)
             | Some r \<Rightarrow>
                 let r1 = (if DeliveredAt r = None then r\<lparr>DeliveredAt := Some now\<rparr> else r)
                 in Inr (s\<lparr>cs_receipts := mput key (r1\<lparr>ReadAt := Some now\<rparr>) (cs_receipts s)\<rparr>))"

definition GetReceipt :: "(uuid \<Rightarrow> string) \<Rightarrow> uuid \<Rightarrow> did \<Rightarrow> ConvStore \<Rightarrow> conv_error + MessageReceipt" where
  "GetReceipt us i d s =
     (if cs_closed s then Inl ErrStoreClosed
      else case map_of (cs_receipts s) (receiptKey us i d) of None \<Rightarrow> Inl ErrReceiptNotFound | Some r \<Rightarrow> Inr r)"

definition GetReceipts ::
  "(uuid \<Rightarrow> string) \<Rightarrow> ((string, MessageReceipt) gomap \<Rightarrow> (string, MessageReceipt) gomap) \<Rightarrow> uuid \<Rightarrow> ConvStore
   \<Rightarrow> conv_error + MessageReceipt list" where
  "GetReceipts us ord i s =
     (if cs_closed s then Inl ErrStoreClosed
      else Inr (map snd (filter (\<lambda>(key, _). length key > 36 \<and> take 37 key = us i @ '':'') (ord (cs_receipts s)))))"

definition CloseConv :: "ConvStore \<Rightarrow> ConvStore" where
  "CloseConv s = s\<lparr>cs_closed := True, cs_threads := [], cs_messages := [], cs_receipts := [], messagesByThread := [],
     threadsByDID := []\<rparr>"

section \<open>Indexes of lists\<close>

text \<open>A map of lists that indexes a relation: every related pair is listed, once.\<close>

definition list_index :: "('k, 'v list) gomap \<Rightarrow> ('k \<Rightarrow> 'v \<Rightarrow> bool) \<Rightarrow> bool" where
  "list_index m R \<longleftrightarrow> (\<forall>k. distinct (mlist m k) \<and> (\<forall>v. v \<in> set (mlist m k) \<longleftrightarrow> R k v))"

lemma list_indexD: "list_index m R \<Longrightarrow> distinct (mlist m k)" "list_index m R \<Longrightarrow> v \<in> set (mlist m k) \<longleftrightarrow> R k v"
  by (simp_all add: list_index_def)

lemma list_index_cong: "list_index m R \<Longrightarrow> (\<And>k v. R k v \<longleftrightarrow> S k v) \<Longrightarrow> list_index m S"
  by (simp add: list_index_def)

lemma delete_at_find: "find_index (\<lambda>x. x = v) xs = Some i \<Longrightarrow> delete_at i xs = remove1 v xs"
  by (induction xs arbitrary: i) (auto simp: delete_at_def split: if_splits)

lemma mlist_index_remove: "mlist (index_remove k v m) k' = (if k' = k then remove1 v (mlist m k) else mlist m k')"
proof (cases "find_index (\<lambda>x. x = v) (mlist m k)")
  case None
  then have "v \<notin> set (mlist m k)" by (auto simp: find_index_None)
  then show ?thesis using None by (simp add: index_remove_def remove1_idem)
next
  case (Some i)
  then show ?thesis by (auto simp: index_remove_def delete_at_find [OF Some] mlist_mput)
qed

lemma list_index_append:
  assumes "list_index m R" and "\<not> R k v"
  shows "list_index (index_append k v m) (\<lambda>k' v'. R k' v' \<or> k' = k \<and> v' = v)"
  using assms by (auto simp: list_index_def index_append_def mlist_mput)

lemma list_index_remove:
  assumes "list_index m R"
  shows "list_index (index_remove k v m) (\<lambda>k' v'. R k' v' \<and> \<not> (k' = k \<and> v' = v))"
  using assms by (auto simp: list_index_def mlist_index_remove)

lemma list_index_fold_append:
  assumes "list_index m R" and "distinct ks" and "\<forall>k \<in> set ks. \<not> R k v"
  shows "list_index (fold (\<lambda>k. index_append k v) ks m) (\<lambda>k' v'. R k' v' \<or> k' \<in> set ks \<and> v' = v)"
  using assms
proof (induction ks arbitrary: m R)
  case (Cons k ks)
  then have "list_index (index_append k v m) (\<lambda>k' v'. R k' v' \<or> k' = k \<and> v' = v)" by (simp add: list_index_append)
  then show ?case using Cons.prems(2,3) by (auto intro!: list_index_cong [OF Cons.IH])
qed simp

lemma list_index_fold_remove:
  assumes "list_index m R"
  shows "list_index (fold (\<lambda>k. index_remove k v) ks m) (\<lambda>k' v'. R k' v' \<and> \<not> (k' \<in> set ks \<and> v' = v))"
  using assms
proof (induction ks arbitrary: m R)
  case (Cons k ks)
  from Cons.IH [OF list_index_remove [OF Cons.prems, of k v]] show ?case
    unfolding fold_simps comp_def by (rule list_index_cong) auto
qed simp

lemma list_index_mdel:
  "list_index m R \<Longrightarrow> list_index (mdel k m) (\<lambda>k' v'. R k' v' \<and> k' \<noteq> k)"
  by (auto simp: list_index_def mlist_mdel)

lemma fold_if_filter: "fold (\<lambda>d ix. if P d then f d ix else ix) ds ix = fold f (filter P ds) ix"
  by (induction ds arbitrary: ix) simp_all

section \<open>Invariant\<close>

text \<open>What the store relies on of the textual form of UUIDs.\<close>

definition uuid_text :: "(uuid \<Rightarrow> string) \<Rightarrow> bool" where
  "uuid_text us \<longleftrightarrow> inj us \<and> (\<forall>i. length (us i) = 36)"

definition in_thread :: "ConvStore \<Rightarrow> uuid \<Rightarrow> uuid \<Rightarrow> bool" where
  "in_thread s t i \<longleftrightarrow> (\<exists>m. map_of (cs_messages s) i = Some m \<and> sm_ThreadID m = t)"

definition takes_part :: "ConvStore \<Rightarrow> did \<Rightarrow> uuid \<Rightarrow> bool" where
  "takes_part s d i \<longleftrightarrow> (\<exists>t. map_of (cs_threads s) i = Some t \<and> d \<in> set (Participants t))"

definition threads_ok :: "ConvStore \<Rightarrow> bool" where
  "threads_ok s \<longleftrightarrow> (\<forall>i t. map_of (cs_threads s) i = Some t \<longrightarrow> th_ID t = i \<and> distinct (Participants t)
     \<and> MessageCount t = int (length (mlist (messagesByThread s) i)))"

definition messages_ok :: "ConvStore \<Rightarrow> bool" where
  "messages_ok s \<longleftrightarrow> (\<forall>i m. map_of (cs_messages s) i = Some m \<longrightarrow> sm_ID m = i \<and> map_of (cs_threads s) (sm_ThreadID m) \<noteq> None)"

definition receipts_ok :: "(uuid \<Rightarrow> string) \<Rightarrow> ConvStore \<Rightarrow> bool" where
  "receipts_ok us s \<longleftrightarrow> (\<forall>k r. map_of (cs_receipts s) k = Some r \<longrightarrow>
     k = receiptKey us (rc_MessageID r) (rc_RecipientDID r) \<and> map_of (cs_messages s) (rc_MessageID r) \<noteq> None \<and> DeliveredAt r \<noteq> None)"

definition conv_inv :: "(uuid \<Rightarrow> string) \<Rightarrow> ConvStore \<Rightarrow> bool" where
  "conv_inv us s \<longleftrightarrow> list_index (threadsByDID s) (takes_part s) \<and> list_index (messagesByThread s) (in_thread s)
     \<and> threads_ok s \<and> messages_ok s \<and> receipts_ok us s \<and> distinct (mkeys (cs_threads s))"

lemma conv_invD:
  assumes "conv_inv us s"
  shows "list_index (threadsByDID s) (takes_part s)" "list_index (messagesByThread s) (in_thread s)"
    "threads_ok s" "messages_ok s" "receipts_ok us s" "distinct (mkeys (cs_threads s))"
  using assms by (simp_all add: conv_inv_def)

lemma conv_inv_New: "conv_inv us (NewConvStore c)"
  by (simp add: conv_inv_def list_index_def mlist_def NewConvStore_def takes_part_def in_thread_def threads_ok_def
      messages_ok_def receipts_ok_def)

lemma in_thread_updates [simp]:
  "in_thread (s\<lparr>cs_threads := a\<rparr>) = in_thread s" "in_thread (s\<lparr>threadsByDID := b\<rparr>) = in_thread s"
  "in_thread (s\<lparr>messagesByThread := c\<rparr>) = in_thread s" "in_thread (s\<lparr>cs_receipts := d\<rparr>) = in_thread s"
  by (simp_all add: in_thread_def fun_eq_iff)

lemma takes_part_updates [simp]:
  "takes_part (s\<lparr>cs_messages := a\<rparr>) = takes_part s" "takes_part (s\<lparr>threadsByDID := b\<rparr>) = takes_part s"
  "takes_part (s\<lparr>messagesByThread := c\<rparr>) = takes_part s" "takes_part (s\<lparr>cs_receipts := d\<rparr>) = takes_part s"
  by (simp_all add: takes_part_def fun_eq_iff)

lemma receipts_ok_updates [simp]:
  "receipts_ok us (s\<lparr>cs_threads := a\<rparr>) = receipts_ok us s" "receipts_ok us (s\<lparr>threadsByDID := b\<rparr>) = receipts_ok us s"
  "receipts_ok us (s\<lparr>messagesByThread := c\<rparr>) = receipts_ok us s"
  by (simp_all add: receipts_ok_def)

lemma messages_okD:
  "messages_ok s \<Longrightarrow> map_of (cs_messages s) i = Some m \<Longrightarrow> sm_ID m = i \<and> map_of (cs_threads s) (sm_ThreadID m) \<noteq> None"
  by (simp add: messages_ok_def)

lemma in_thread_exists: "messages_ok s \<Longrightarrow> in_thread s t i \<Longrightarrow> map_of (cs_threads s) t \<noteq> None"
  using messages_okD by (auto simp: in_thread_def)

lemma threads_okD:
  "threads_ok s \<Longrightarrow> map_of (cs_threads s) i = Some t \<Longrightarrow>
     th_ID t = i \<and> distinct (Participants t) \<and> MessageCount t = int (length (mlist (messagesByThread s) i))"
  by (simp add: threads_ok_def)

lemma receipts_okD:
  "receipts_ok us s \<Longrightarrow> map_of (cs_receipts s) k = Some r \<Longrightarrow>
     k = receiptKey us (rc_MessageID r) (rc_RecipientDID r) \<and> map_of (cs_messages s) (rc_MessageID r) \<noteq> None \<and> DeliveredAt r \<noteq> None"
  by (simp add: receipts_ok_def)

lemma receiptKey_inj:
  assumes "uuid_text us"
  shows "receiptKey us i d = receiptKey us j e \<longleftrightarrow> i = j \<and> d = e"
  using assms by (auto simp: receiptKey_def uuid_text_def dest: injD)

lemma map_of_filter_key: "map_of (filter (\<lambda>(k, _). P k) m) k = (if P k then map_of m k else None)"
  by (induction m) auto

lemma map_of_drop_receipts:
  assumes "uuid_text us"
  shows "map_of (drop_receipts us i rs) (receiptKey us j d) = (if i = j then None else map_of rs (receiptKey us j d))"
proof -
  have "length (receiptKey us j d) > 36" "take 36 (receiptKey us j d) = us j"
    using assms by (simp_all add: receiptKey_def uuid_text_def)
  moreover have "us i = us j \<longleftrightarrow> i = j" using assms by (auto simp: uuid_text_def dest: injD)
  ultimately show ?thesis by (auto simp: drop_receipts_def map_of_filter_key)
qed

lemma map_of_drop_receipts_sub: "map_of (drop_receipts us i rs) k = Some r \<Longrightarrow> map_of rs k = Some r"
  by (auto simp: drop_receipts_def map_of_filter_key split: if_splits)

lemma map_of_fold_mdel: "map_of (fold mdel is m) k = (if k \<in> set is then None else map_of m k)"
  by (induction "is" arbitrary: m) (auto simp: map_of_mdel)

lemma fold_drop_receipts:
  assumes "uuid_text us" and "map_of (fold (drop_receipts us) is rs) k = Some r" and "k = receiptKey us j d"
  shows "map_of rs k = Some r \<and> j \<notin> set is"
  using assms(2)
proof (induction "is" arbitrary: rs)
  case (Cons i "is")
  from Cons.IH [of "drop_receipts us i rs"] Cons.prems have "map_of (drop_receipts us i rs) k = Some r" "j \<notin> set is"
    by simp_all
  then show ?case using map_of_drop_receipts [OF assms(1), of i rs j d] assms(3) by (simp split: if_splits)
qed simp

lemma fold_drop_receipts_sub: "map_of (fold (drop_receipts us) is rs) k = Some r \<Longrightarrow> map_of rs k = Some r"
  by (induction "is" arbitrary: rs) (auto dest: map_of_drop_receipts_sub)

section \<open>Every call keeps the invariant\<close>

lemma CreateThread_inv:
  assumes inv: "conv_inv us s" and "\<not> cs_closed s" and fresh: "map_of (cs_threads s) (th_ID t) = None"
    and t: "distinct (Participants t)" "MessageCount t = 0"
  shows "\<exists>s'. CreateThread t s = Inr s' \<and> conv_inv us s'"
proof -
  let ?s = "s\<lparr>cs_threads := mput (th_ID t) t (cs_threads s),
    threadsByDID := fold (\<lambda>d. index_append d (th_ID t)) (Participants t) (threadsByDID s)\<rparr>"
  note I = conv_invD [OF inv]
  have "list_index (threadsByDID ?s) (takes_part ?s)"
    using list_index_fold_append [OF I(1) t(1), of "th_ID t"] fresh
    by (auto elim!: list_index_cong simp: takes_part_def map_of_mput split: if_splits)
  moreover have none: "\<not> in_thread s (th_ID t) i" for i using in_thread_exists [OF I(4)] fresh by blast
  have "mlist (messagesByThread s) (th_ID t) = []"
    using list_indexD(2) [OF I(2), of _ "th_ID t"] none by (cases "mlist (messagesByThread s) (th_ID t)") auto
  then have "threads_ok ?s" using I(3) t by (auto simp: threads_ok_def map_of_mput)
  moreover have "messages_ok ?s" using I(4) by (auto simp: messages_ok_def map_of_mput)
  moreover have "list_index (messagesByThread ?s) (in_thread ?s)" "receipts_ok us ?s" "distinct (mkeys (cs_threads ?s))"
    using I(2,5,6) by (simp_all add: distinct_update)
  ultimately have "conv_inv us ?s" by (simp only: conv_inv_def)
  then show ?thesis using assms(2) by (simp add: CreateThread_def)
qed

lemma UpdateThread_inv:
  assumes inv: "conv_inv us s" and "\<not> cs_closed s" and old: "map_of (cs_threads s) (th_ID t) = Some old"
    and t: "distinct (Participants t)" "MessageCount t = MessageCount old"
  shows "\<exists>s'. UpdateThread t s = Inr s' \<and> conv_inv us s'"
proof -
  let ?ix1 = "fold (\<lambda>d. index_remove d (th_ID t)) (filter (\<lambda>d. \<not> HasParticipant d t) (Participants old)) (threadsByDID s)"
  let ?ix2 = "fold (\<lambda>d. index_append d (th_ID t)) (filter (\<lambda>d. \<not> HasParticipant d old) (Participants t)) ?ix1"
  let ?s = "s\<lparr>threadsByDID := ?ix2, cs_threads := mput (th_ID t) t (cs_threads s)\<rparr>"
  note I = conv_invD [OF inv]
  note ix1 = list_index_fold_remove [OF I(1), of "th_ID t" "filter (\<lambda>d. \<not> HasParticipant d t) (Participants old)"]
  have "list_index (threadsByDID ?s) (takes_part ?s)"
    using list_index_fold_append [OF ix1, of "filter (\<lambda>d. \<not> HasParticipant d old) (Participants t)" "th_ID t"] t(1) old
    by (auto elim!: list_index_cong simp: takes_part_def map_of_mput HasParticipant_def split: if_splits)
  moreover have "threads_ok ?s" using I(3) old t by (auto simp: threads_ok_def map_of_mput)
  moreover have "messages_ok ?s" using I(4) by (auto simp: messages_ok_def map_of_mput)
  moreover have "list_index (messagesByThread ?s) (in_thread ?s)" "receipts_ok us ?s" "distinct (mkeys (cs_threads ?s))"
    using I(2,5,6) by (simp_all add: distinct_update)
  ultimately have "conv_inv us ?s" by (simp only: conv_inv_def)
  then show ?thesis using assms(2) old
    by (simp add: UpdateThread_def removeThreadFromDID_def fold_if_filter)
qed

lemma removeThreadFromDID_eq: "removeThreadFromDID = index_remove"
  by (intro ext) (simp add: removeThreadFromDID_def)

lemma DeleteThread_inv:
  assumes us: "uuid_text us" and inv: "conv_inv us s" and "\<not> cs_closed s" and t: "map_of (cs_threads s) i = Some t"
  shows "\<exists>s'. DeleteThread us i s = Inr s' \<and> conv_inv us s'"
proof -
  let ?ids = "mlist (messagesByThread s) i"
  let ?s = "s\<lparr>threadsByDID := fold (\<lambda>d. index_remove d i) (Participants t) (threadsByDID s),
     cs_messages := fold mdel ?ids (cs_messages s), cs_receipts := fold (drop_receipts us) ?ids (cs_receipts s),
     messagesByThread := mdel i (messagesByThread s), cs_threads := mdel i (cs_threads s)\<rparr>"
  note I = conv_invD [OF inv]
  have ids: "j \<in> set ?ids \<longleftrightarrow> in_thread s i j" for j by (rule list_indexD(2) [OF I(2)])
  have "list_index (threadsByDID ?s) (takes_part ?s)"
    using list_index_fold_remove [OF I(1), of i "Participants t"] t
    by (auto elim!: list_index_cong simp: takes_part_def map_of_mdel split: if_splits)
  moreover have msgs: "map_of (cs_messages ?s) j = (if in_thread s i j then None else map_of (cs_messages s) j)" for j
    by (simp add: map_of_fold_mdel ids)
  have "in_thread ?s t' j \<longleftrightarrow> in_thread s t' j \<and> t' \<noteq> i" for t' j
    unfolding in_thread_def [of ?s] msgs by (auto simp: in_thread_def)
  then have "list_index (messagesByThread ?s) (in_thread ?s)"
    using list_index_cong [OF list_index_mdel [OF I(2), of i], of "in_thread ?s"] by simp
  moreover have "threads_ok ?s" unfolding threads_ok_def using threads_okD [OF I(3)] by (simp add: map_of_mdel mlist_mdel)
  moreover have "messages_ok ?s"
    unfolding messages_ok_def msgs using messages_okD [OF I(4)] by (auto simp: in_thread_def map_of_mdel)
  moreover have "receipts_ok us ?s"
    unfolding receipts_ok_def
  proof (intro allI impI)
    fix k r assume r: "map_of (cs_receipts ?s) k = Some r"
    then have r: "map_of (fold (drop_receipts us) ?ids (cs_receipts s)) k = Some r" by simp
    note k = receipts_okD [OF I(5) fold_drop_receipts_sub [OF r]]
    then have "rc_MessageID r \<notin> set ?ids" using fold_drop_receipts [OF us r conjunct1 [OF k]] by blast
    then show "k = receiptKey us (rc_MessageID r) (rc_RecipientDID r) \<and> map_of (cs_messages ?s) (rc_MessageID r) \<noteq> None
        \<and> DeliveredAt r \<noteq> None" using k unfolding msgs ids by simp
  qed
  moreover have "distinct (mkeys (cs_threads ?s))" using I(6) by (simp add: distinct_delete)
  ultimately have "conv_inv us ?s" by (simp only: conv_inv_def)
  then show ?thesis using assms(3) t by (simp add: DeleteThread_def removeThreadFromDID_eq Let_def)
qed

lemma SaveMessage_inv:
  assumes inv: "conv_inv us s" and "\<not> cs_closed s" and fresh: "map_of (cs_messages s) (sm_ID m) = None"
    and t: "map_of (cs_threads s) (sm_ThreadID m) = Some t"
  shows "\<exists>s'. SaveMessage now m s = Inr s' \<and> conv_inv us s'"
proof -
  let ?t = "t\<lparr>MessageCount := MessageCount t + 1, LastMessage := Some (sm_Timestamp m), th_UpdatedAt := now\<rparr>"
  let ?s = "s\<lparr>cs_messages := mput (sm_ID m) m (cs_messages s),
    messagesByThread := index_append (sm_ThreadID m) (sm_ID m) (messagesByThread s),
    cs_threads := mput (sm_ThreadID m) ?t (cs_threads s)\<rparr>"
  note I = conv_invD [OF inv]
  have "takes_part ?s d i \<longleftrightarrow> takes_part s d i" for d i using t by (auto simp: takes_part_def map_of_mput)
  then have "list_index (threadsByDID ?s) (takes_part ?s)" using list_index_cong [OF I(1), of "takes_part ?s"] by simp
  moreover have none: "\<not> in_thread s (sm_ThreadID m) (sm_ID m)" using fresh by (simp add: in_thread_def)
  have "in_thread ?s k v \<longleftrightarrow> in_thread s k v \<or> k = sm_ThreadID m \<and> v = sm_ID m" for k v
    using fresh by (auto simp: in_thread_def map_of_mput)
  then have "list_index (messagesByThread ?s) (in_thread ?s)"
    using list_index_cong [OF list_index_append [OF I(2) none], of "in_thread ?s"] by simp
  moreover have "threads_ok ?s"
    unfolding threads_ok_def using threads_okD [OF I(3)] threads_okD [OF I(3) t]
    by (simp add: map_of_mput index_append_def mlist_mput)
  moreover have "messages_ok ?s"
    unfolding messages_ok_def using messages_okD [OF I(4)] by (auto simp: map_of_mput)
  moreover have "receipts_ok us ?s"
    unfolding receipts_ok_def using receipts_okD [OF I(5)] by (simp add: map_of_mput)
  moreover have "distinct (mkeys (cs_threads ?s))" using I(6) by (simp add: distinct_update)
  ultimately have "conv_inv us ?s" by (simp only: conv_inv_def)
  then show ?thesis using assms(2) t by (simp add: SaveMessage_def)
qed

lemma DeleteMessage_inv:
  assumes us: "uuid_text us" and inv: "conv_inv us s" and "\<not> cs_closed s" and m: "map_of (cs_messages s) i = Some m"
  shows "\<exists>s'. DeleteMessage us i s = Inr s' \<and> conv_inv us s'"
proof -
  note I = conv_invD [OF inv]
  obtain t where t: "map_of (cs_threads s) (sm_ThreadID m) = Some t" using messages_okD [OF I(4) m] by blast
  let ?s = "s\<lparr>messagesByThread := index_remove (sm_ThreadID m) i (messagesByThread s),
    cs_threads := mput (sm_ThreadID m) (t\<lparr>MessageCount := MessageCount t - 1\<rparr>) (cs_threads s),
    cs_receipts := drop_receipts us i (cs_receipts s), cs_messages := mdel i (cs_messages s)\<rparr>"
  have "takes_part ?s d j \<longleftrightarrow> takes_part s d j" for d j using t by (auto simp: takes_part_def map_of_mput)
  then have "list_index (threadsByDID ?s) (takes_part ?s)" using list_index_cong [OF I(1), of "takes_part ?s"] by simp
  moreover have "in_thread ?s k v \<longleftrightarrow> in_thread s k v \<and> \<not> (k = sm_ThreadID m \<and> v = i)" for k v
    using m by (auto simp: in_thread_def map_of_mdel)
  then have "list_index (messagesByThread ?s) (in_thread ?s)"
    using list_index_cong [OF list_index_remove [OF I(2), of "sm_ThreadID m" i], of "in_thread ?s"] by simp
  moreover have "i \<in> set (mlist (messagesByThread s) (sm_ThreadID m))"
    using list_indexD(2) [OF I(2)] m by (simp add: in_thread_def)
  then have len: "int (length (remove1 i (mlist (messagesByThread s) (sm_ThreadID m))))
      = int (length (mlist (messagesByThread s) (sm_ThreadID m))) - 1"
    using length_pos_if_in_set [of i "mlist (messagesByThread s) (sm_ThreadID m)"]
    by (simp add: length_remove1 of_nat_diff Suc_le_eq)
  have "threads_ok ?s"
    unfolding threads_ok_def using threads_okD [OF I(3)] threads_okD [OF I(3) t] len
    by (simp add: map_of_mput mlist_index_remove)
  moreover have "messages_ok ?s"
    unfolding messages_ok_def using messages_okD [OF I(4)] by (auto simp: map_of_mput map_of_mdel)
  moreover have "receipts_ok us ?s"
    unfolding receipts_ok_def
  proof (intro allI impI)
    fix k r assume "map_of (cs_receipts ?s) k = Some r"
    then have r: "map_of (drop_receipts us i (cs_receipts s)) k = Some r" by simp
    note k = receipts_okD [OF I(5) map_of_drop_receipts_sub [OF r]]
    then have "rc_MessageID r \<noteq> i"
      using r map_of_drop_receipts [OF us, of i "cs_receipts s" i "rc_RecipientDID r"] by auto
    then show "k = receiptKey us (rc_MessageID r) (rc_RecipientDID r) \<and> map_of (cs_messages ?s) (rc_MessageID r) \<noteq> None
        \<and> DeliveredAt r \<noteq> None" using k by (simp add: map_of_mdel)
  qed
  moreover have "distinct (mkeys (cs_threads ?s))" using I(6) by (simp add: distinct_update)
  ultimately have "conv_inv us ?s" by (simp only: conv_inv_def)
  then show ?thesis using assms(3) m t by (simp add: DeleteMessage_def)
qed

text \<open>The two receipt operations store one receipt of an existing message under its key.\<close>

lemma receipt_inv:
  assumes inv: "conv_inv us s" and "map_of (cs_messages s) (rc_MessageID r) \<noteq> None" and "DeliveredAt r \<noteq> None"
  shows "conv_inv us (s\<lparr>cs_receipts := mput (receiptKey us (rc_MessageID r) (rc_RecipientDID r)) r (cs_receipts s)\<rparr>)" (is "conv_inv us ?s")
proof -
  note I = conv_invD [OF inv]
  have "receipts_ok us ?s"
    unfolding receipts_ok_def using receipts_okD [OF I(5)] assms(2,3) by (auto simp: map_of_mput)
  moreover have "threads_ok ?s" "messages_ok ?s" using I(3,4) by (simp_all add: threads_ok_def messages_ok_def)
  ultimately show ?thesis using I(1,2,6) by (simp add: conv_inv_def)
qed

lemma receipt_of:
  assumes "uuid_text us" and "conv_inv us s" and "map_of (cs_receipts s) (receiptKey us i d) = Some r"
  shows "rc_MessageID r = i \<and> rc_RecipientDID r = d \<and> DeliveredAt r \<noteq> None"
  using receipts_okD [OF conv_invD(5) [OF assms(2)] assms(3)] by (simp add: receiptKey_inj [OF assms(1)])

lemma MarkDelivered_inv:
  assumes "uuid_text us" and "conv_inv us s" and "\<not> cs_closed s" and "map_of (cs_messages s) i \<noteq> None"
  shows "\<exists>s'. MarkDelivered us now i d s = Inr s' \<and> conv_inv us s'"
proof (cases "map_of (cs_receipts s) (receiptKey us i d)")
  case None
  then show ?thesis
    using assms receipt_inv [OF assms(2), of "\<lparr>rc_MessageID = i, rc_RecipientDID = d, DeliveredAt = Some now, ReadAt = None\<rparr>"]
    by (auto simp: MarkDelivered_def Let_def)
next
  case (Some r)
  then show ?thesis using assms receipt_of [OF assms(1,2) Some] by (auto simp: MarkDelivered_def Let_def)
qed

lemma MarkRead_inv:
  assumes "uuid_text us" and "conv_inv us s" and "\<not> cs_closed s" and "map_of (cs_messages s) i \<noteq> None"
  shows "\<exists>s'. MarkRead us now i d s = Inr s' \<and> conv_inv us s'"
proof (cases "map_of (cs_receipts s) (receiptKey us i d)")
  case None
  then show ?thesis
    using assms receipt_inv [OF assms(2), of "\<lparr>rc_MessageID = i, rc_RecipientDID = d, DeliveredAt = Some now, ReadAt = Some now\<rparr>"]
    by (auto simp: MarkRead_def Let_def)
next
  case (Some r)
  have "conv_inv us (s\<lparr>cs_receipts := mput (receiptKey us i d) (r\<lparr>ReadAt := Some now\<rparr>) (cs_receipts s)\<rparr>)"
    using receipt_inv [OF assms(2), of "r\<lparr>ReadAt := Some now\<rparr>"] receipt_of [OF assms(1,2) Some] assms(4) by simp
  then show ?thesis using assms Some receipt_of [OF assms(1,2) Some] by (auto simp: MarkRead_def Let_def)
qed

section \<open>Histories of calls\<close>

datatype conv_call = CallCreateThread Thread | CallUpdateThread Thread | CallDeleteThread uuid
  | CallSaveMessage time StoredMessage | CallDeleteMessage uuid | CallMarkDelivered time uuid did | CallMarkRead time uuid did

text \<open>The store after a call; a call that returns an error changes nothing.\<close>

fun conv_exec :: "(uuid \<Rightarrow> string) \<Rightarrow> conv_call \<Rightarrow> ConvStore \<Rightarrow> ConvStore" where
  "conv_exec us (CallCreateThread t) s = case_sum (\<lambda>_. s) (\<lambda>s'. s') (CreateThread t s)"
| "conv_exec us (CallUpdateThread t) s = case_sum (\<lambda>_. s) (\<lambda>s'. s') (UpdateThread t s)"
| "conv_exec us (CallDeleteThread i) s = case_sum (\<lambda>_. s) (\<lambda>s'. s') (DeleteThread us i s)"
| "conv_exec us (CallSaveMessage now m) s = case_sum (\<lambda>_. s) (\<lambda>s'. s') (SaveMessage now m s)"
| "conv_exec us (CallDeleteMessage i) s = case_sum (\<lambda>_. s) (\<lambda>s'. s') (DeleteMessage us i s)"
| "conv_exec us (CallMarkDelivered now i d) s = case_sum (\<lambda>_. s) (\<lambda>s'. s') (MarkDelivered us now i d s)"
| "conv_exec us (CallMarkRead now i d) s = case_sum (\<lambda>_. s) (\<lambda>s'. s') (MarkRead us now i d s)"

text \<open>What callers have to respect: IDs of new threads and messages are fresh, participants are
  distinct, and an update leaves the message count as it is.\<close>

fun conv_admissible :: "conv_call \<Rightarrow> ConvStore \<Rightarrow> bool" where
  "conv_admissible (CallCreateThread t) s \<longleftrightarrow>
     map_of (cs_threads s) (th_ID t) = None \<and> distinct (Participants t) \<and> MessageCount t = 0"
| "conv_admissible (CallUpdateThread t) s \<longleftrightarrow> distinct (Participants t) \<and>
     (case map_of (cs_threads s) (th_ID t) of None \<Rightarrow> True | Some old \<Rightarrow> MessageCount t = MessageCount old)"
| "conv_admissible (CallSaveMessage now m) s \<longleftrightarrow> map_of (cs_messages s) (sm_ID m) = None"
| "conv_admissible _ s \<longleftrightarrow> True"

fun conv_run :: "(uuid \<Rightarrow> string) \<Rightarrow> conv_call list \<Rightarrow> ConvStore \<Rightarrow> ConvStore" where
  "conv_run us [] s = s"
| "conv_run us (c # cs) s = conv_run us cs (conv_exec us c s)"

fun conv_run_admissible :: "(uuid \<Rightarrow> string) \<Rightarrow> conv_call list \<Rightarrow> ConvStore \<Rightarrow> bool" where
  "conv_run_admissible us [] s \<longleftrightarrow> True"
| "conv_run_admissible us (c # cs) s \<longleftrightarrow> conv_admissible c s \<and> conv_run_admissible us cs (conv_exec us c s)"

lemma conv_closed_errors:
  assumes "cs_closed s"
  shows "conv_exec us c s = s"
  using assms by (cases c) (simp_all add: CreateThread_def UpdateThread_def DeleteThread_def SaveMessage_def DeleteMessage_def
      MarkDelivered_def MarkRead_def)

lemma conv_exec_inv:
  assumes us: "uuid_text us" and inv: "conv_inv us s" and adm: "conv_admissible c s"
  shows "conv_inv us (conv_exec us c s)"
proof (cases "cs_closed s")
  case True
  then show ?thesis using inv by (simp add: conv_closed_errors)
next
  case op: False
  show ?thesis
  proof (cases c)
    case (CallCreateThread t)
    then show ?thesis using CreateThread_inv [OF inv op, of t] adm by auto
  next
    case (CallUpdateThread t)
    then show ?thesis using UpdateThread_inv [OF inv op, of t] adm inv op
      by (cases "map_of (cs_threads s) (th_ID t)") (auto simp: UpdateThread_def)
  next
    case (CallDeleteThread i)
    then show ?thesis using DeleteThread_inv [OF us inv op, of i] inv op
      by (cases "map_of (cs_threads s) i") (auto simp: DeleteThread_def)
  next
    case (CallSaveMessage now m)
    then show ?thesis using SaveMessage_inv [OF inv op, of m _ now] adm inv op
      by (cases "map_of (cs_threads s) (sm_ThreadID m)") (auto simp: SaveMessage_def)
  next
    case (CallDeleteMessage i)
    then show ?thesis using DeleteMessage_inv [OF us inv op, of i] inv op
      by (cases "map_of (cs_messages s) i") (auto simp: DeleteMessage_def)
  next
    case (CallMarkDelivered now i d)
    then show ?thesis using MarkDelivered_inv [OF us inv op, of i now d] inv op
      by (cases "map_of (cs_messages s) i") (auto simp: MarkDelivered_def)
  next
    case (CallMarkRead now i d)
    then show ?thesis using MarkRead_inv [OF us inv op, of i now d] inv op
      by (cases "map_of (cs_messages s) i") (auto simp: MarkRead_def)
  qed
qed

lemma conv_run_inv: "uuid_text us \<Longrightarrow> conv_inv us s \<Longrightarrow> conv_run_admissible us cs s \<Longrightarrow> conv_inv us (conv_run us cs s)"
  by (induction us cs s rule: conv_run.induct) (simp_all add: conv_exec_inv)

section \<open>Listings\<close>

lemma paginate_eq: "paginate offset limit xs = (if limit > 0 then take (nat limit) else (\<lambda>ys. ys)) (drop (nat offset) xs)"
  by (auto simp: paginate_def Let_def)

lemma map_filter_keys:
  assumes "\<forall>i \<in> set ids. \<exists>x. f i = Some x \<and> key x = i"
  shows "map key (List.map_filter f ids) = ids" and "set (List.map_filter f ids) = {x. \<exists>i \<in> set ids. f i = Some x}"
  using assms by (induction ids) (force simp: List.map_filter_simps)+

lemma sort_func_distinct: "sort_func key srt \<Longrightarrow> distinct (srt xs) \<longleftrightarrow> distinct xs"
  by (metis mset_eq_imp_distinct_iff sort_func_mset)

lemma sort_func_set_eq: "sort_func key srt \<Longrightarrow> set (srt xs) = set xs"
  by (metis set_mset_mset sort_func_mset)

lemma thread_ids:
  assumes "conv_inv us s"
  shows "\<forall>i \<in> set (mlist (threadsByDID s) d). \<exists>t. map_of (cs_threads s) i = Some t \<and> th_ID t = i"
  using list_indexD(2) [OF conv_invD(1) [OF assms]] threads_okD [OF conv_invD(3) [OF assms]] by (auto simp: takes_part_def)

lemma message_ids:
  assumes "conv_inv us s"
  shows "\<forall>i \<in> set (mlist (messagesByThread s) t). \<exists>m. map_of (cs_messages s) i = Some m \<and> sm_ID m = i"
  using list_indexD(2) [OF conv_invD(2) [OF assms]] messages_okD [OF conv_invD(4) [OF assms]] by (auto simp: in_thread_def)

lemma message_count:
  assumes "conv_inv us s" and "map_of (cs_threads s) i = Some t"
  shows "MessageCount t = int (card {j. in_thread s i j})"
proof -
  note I = conv_invD [OF assms(1)]
  have "{j. in_thread s i j} = set (mlist (messagesByThread s) i)" using list_indexD(2) [OF I(2)] by blast
  then have "card {j. in_thread s i j} = length (mlist (messagesByThread s) i)"
    by (simp add: distinct_card list_indexD(1) [OF I(2)])
  then show ?thesis using threads_okD [OF I(3) assms(2)] by simp
qed

lemma ListThreads_participant:
  assumes inv: "conv_inv us s" and "\<not> cs_closed s" and srt: "sort_func (\<lambda>t. - th_UpdatedAt t) srt"
    and "tf_ParticipantDID f \<noteq> ''''"
  shows "\<exists>found. ListThreads ord srt f s = Inr (paginate (tf_Offset f) (tf_Limit f) found) \<and> distinct found
    \<and> sorted (map (\<lambda>t. - th_UpdatedAt t) found)
    \<and> set found = {t. \<exists>i. map_of (cs_threads s) i = Some t \<and> tf_ParticipantDID f \<in> set (Participants t) \<and> threadMatchesFilter f t}"
proof -
  let ?ids = "mlist (threadsByDID s) (tf_ParticipantDID f)"
  let ?ts = "List.map_filter (map_of (cs_threads s)) ?ids"
  note keys = map_filter_keys [OF thread_ids [OF inv, of "tf_ParticipantDID f"]]
  have "distinct ?ts" using keys(1) list_indexD(1) [OF conv_invD(1) [OF inv]] by (metis distinct_map)
  moreover have "set ?ts = {t. \<exists>i. map_of (cs_threads s) i = Some t \<and> tf_ParticipantDID f \<in> set (Participants t)}"
    unfolding keys(2) using list_indexD(2) [OF conv_invD(1) [OF inv]] by (auto simp: takes_part_def)
  ultimately show ?thesis
    using assms(2,4) sort_func_sorted [OF srt] sort_func_distinct [OF srt] sort_func_set_eq [OF srt]
    by (intro exI [of _ "srt (filter (threadMatchesFilter f) ?ts)"]) (auto simp: ListThreads_def)
qed

lemma GetMessages_thread:
  assumes inv: "conv_inv us s" and "\<not> cs_closed s" and srt: "sort_func sm_SeqNo srt"
  shows "\<exists>found. GetMessages srt f s = Inr (paginate (mf_Offset f) (mf_Limit f) found) \<and> distinct found \<and> sorted (map sm_SeqNo found)
    \<and> set found = {m. \<exists>i. map_of (cs_messages s) i = Some m \<and> sm_ThreadID m = mf_ThreadID f \<and> messageMatchesFilter f m}"
proof -
  let ?ids = "mlist (messagesByThread s) (mf_ThreadID f)"
  let ?ms = "List.map_filter (map_of (cs_messages s)) ?ids"
  note keys = map_filter_keys [OF message_ids [OF inv, of "mf_ThreadID f"]]
  have "distinct ?ms" using keys(1) list_indexD(1) [OF conv_invD(2) [OF inv]] by (metis distinct_map)
  moreover have "set ?ms = {m. \<exists>i. map_of (cs_messages s) i = Some m \<and> sm_ThreadID m = mf_ThreadID f}"
    unfolding keys(2) using list_indexD(2) [OF conv_invD(2) [OF inv]] by (auto simp: in_thread_def)
  ultimately show ?thesis
    using assms(2) sort_func_sorted [OF srt] sort_func_distinct [OF srt] sort_func_set_eq [OF srt]
    by (intro exI [of _ "srt (filter (messageMatchesFilter f) ?ms)"]) (auto simp: GetMessages_def)
qed


lemma distinct_singleton: "distinct xs \<Longrightarrow> set xs = {a} \<Longrightarrow> xs = [a]"
  by (cases xs; cases "tl xs") auto

text \<open>A textual form of UUIDs for the witness: four bits a character.\<close>

definition sample_text :: "uuid \<Rightarrow> string" where
  "sample_text i = map (\<lambda>k. Char (bit i (4 * k)) (bit i (4 * k + 1)) (bit i (4 * k + 2)) (bit i (4 * k + 3)) False True False False) [0..<36]"

lemma sample_text_ok: "uuid_text sample_text"
  unfolding uuid_text_def
proof
  show "inj sample_text"
  proof (rule injI)
    fix i j :: uuid
    assume "sample_text i = sample_text j"
    then have "\<forall>k < 36. bit i (4 * k) = bit j (4 * k) \<and> bit i (4 * k + 1) = bit j (4 * k + 1)
        \<and> bit i (4 * k + 2) = bit j (4 * k + 2) \<and> bit i (4 * k + 3) = bit j (4 * k + 3)"
      by (simp add: sample_text_def del: upt_rec_numeral)
    then have four: "bit i (4 * k + r) = bit j (4 * k + r)" if "k < 36" "r < 4" for k r
    proof -
      have "r = 0 \<or> r = 1 \<or> r = 2 \<or> r = 3" using that(2) by linarith
      with that(1) \<open>\<forall>k < 36. _ k\<close> show ?thesis by auto
    qed
    have "bit i n = bit j n" if "n < 128" for n using four [of "n div 4" "n mod 4"] that by simp
    then show "i = j" by (intro bit_word_eqI) simp
  qed
qed (simp add: sample_text_def del: upt_rec_numeral)

definition sample_history :: "conv_call list" where
  "sample_history = [CallCreateThread (NewThread 1 10 [''alice'', ''bob'']),
     CallSaveMessage 20 \<lparr>sm_ID = 5, sm_ThreadID = 1, sm_ParentID = None, sm_From = ''alice'', sm_To = ''bob'', sm_Type = ''chat'',
       sm_Body = None, sm_Timestamp = 20, sm_SeqNo = 1, sm_Encrypted = False, sm_Metadata = []\<rparr>]"


end
