(* ===== verification/Identity.thy ===== *)
theory Identity
  imports Go_Prelude
begin

text \<open>
  Keys (\<open>pkg/crypto/keys.go\<close>), encryption (\<open>pkg/crypto/encrypt.go\<close>), identities
  (\<open>pkg/identity/did.go\<close>) and the identities derived for billing tenants
  (\<open>pkg/billing/tenant_did.go\<close>). The primitives of \<open>crypto/ed25519\<close>, \<open>curve25519\<close>,
  \<open>nacl/box\<close> and \<open>sha512\<close>, the DID parser and the JSON codec are fields of an environment;
  predicates over it state what their documentation promises. Random bytes are arguments:
  \<open>None\<close> when the source fails.
\<close>

section \<open>Keys\<close>

datatype crypto_error = ErrInvalidKeySize | ErrDecryptionFailed | ErrRandom | ErrX25519

definition Ed25519PublicKeySize :: nat where "Ed25519PublicKeySize = 32"
definition Ed25519PrivateKeySize :: nat where "Ed25519PrivateKeySize = 64"
definition X25519KeySize :: nat where "X25519KeySize = 32"
definition NonceSize :: nat where "NonceSize = 24"
definition OverheadLen :: nat where "OverheadLen = 16"

lemmas key_sizes = Ed25519PublicKeySize_def Ed25519PrivateKeySize_def X25519KeySize_def NonceSize_def OverheadLen_def

record crypto_env =
  ed_NewKeyFromSeed :: "bytes \<Rightarrow> bytes"
  ed_Public :: "bytes \<Rightarrow> bytes"
  ed_Sign :: "bytes \<Rightarrow> bytes \<Rightarrow> bytes"
  ed_Verify :: "bytes \<Rightarrow> bytes \<Rightarrow> bytes \<Rightarrow> bool"
  X25519 :: "bytes \<Rightarrow> bytes \<Rightarrow> bytes option"
  Basepoint :: bytes
  box_Seal :: "bytes \<Rightarrow> bytes \<Rightarrow> bytes \<Rightarrow> bytes \<Rightarrow> bytes"
  box_Open :: "bytes \<Rightarrow> bytes \<Rightarrow> bytes \<Rightarrow> bytes \<Rightarrow> bytes option"
  Sum512 :: "bytes \<Rightarrow> bytes"

record KeyPair =
  PublicKey :: bytes
  PrivateKey :: bytes

record AgentKeys =
  Signing :: KeyPair
  Encryption :: KeyPair

text \<open>\<open>ed25519.GenerateKey\<close> reads a seed of 32 bytes from the random source.\<close>

definition GenerateSigningKeyPair :: "'a crypto_env_scheme \<Rightarrow> bytes option \<Rightarrow> crypto_error + KeyPair" where
  "GenerateSigningKeyPair e seed =
     (case seed of
        None \<Rightarrow> Inl ErrRandom
      | Some s \<Rightarrow> let priv = ed_NewKeyFromSeed e s in Inr \<lparr>PublicKey = ed_Public e priv, PrivateKey = priv\<rparr>)"

definition GenerateEncryptionKeyPair :: "'a crypto_env_scheme \<Rightarrow> bytes option \<Rightarrow> crypto_error + KeyPair" where
  "GenerateEncryptionKeyPair e random =
     (case random of
        None \<Rightarrow> Inl ErrRandom
      | Some privateKey \<Rightarrow>
          (case X25519 e privateKey (Basepoint e) of
             None \<Rightarrow> Inl ErrX25519
           | Some publicKey \<Rightarrow> Inr \<lparr>PublicKey = publicKey, PrivateKey = privateKey\<rparr>))"

definition GenerateAgentKeys :: "'a crypto_env_scheme \<Rightarrow> bytes option \<Rightarrow> bytes option \<Rightarrow> crypto_error + AgentKeys" where
  "GenerateAgentKeys e r1 r2 =
     (case GenerateSigningKeyPair e r1 of
        Inl err \<Rightarrow> Inl err
      | Inr signing \<Rightarrow>
          (case GenerateEncryptionKeyPair e r2 of
             Inl err \<Rightarrow> Inl err
           | Inr encryption \<Rightarrow> Inr \<lparr>Signing = signing, Encryption = encryption\<rparr>))"

definition Sign :: "'a crypto_env_scheme \<Rightarrow> KeyPair \<Rightarrow> bytes \<Rightarrow> bytes" where
  "Sign e k data = ed_Sign e (PrivateKey k) data"

definition Verify :: "'a crypto_env_scheme \<Rightarrow> KeyPair \<Rightarrow> bytes \<Rightarrow> bytes \<Rightarrow> bool" where
  "Verify e k data signature = ed_Verify e (PublicKey k) data signature"

definition ComputeSharedSecret :: "'a crypto_env_scheme \<Rightarrow> KeyPair \<Rightarrow> bytes \<Rightarrow> crypto_error + bytes" where
  "ComputeSharedSecret e k peer =
     (if length peer \<noteq> X25519KeySize then Inl ErrInvalidKeySize
      else case X25519 e (PrivateKey k) peer of None \<Rightarrow> Inl ErrX25519 | Some s \<Rightarrow> Inr s)"

section \<open>Encryption\<close>

text \<open>\<open>box.Seal(out, ...)\<close> appends the sealed message to \<open>out\<close>.\<close>

definition Encrypt ::
  "'a crypto_env_scheme \<Rightarrow> bytes option \<Rightarrow> bytes \<Rightarrow> bytes \<Rightarrow> bytes \<Rightarrow> crypto_error + bytes" where
  "Encrypt e random plaintext senderPriv recipientPub =
     (if length senderPriv \<noteq> X25519KeySize \<or> length recipientPub \<noteq> X25519KeySize then Inl ErrInvalidKeySize
      else case random of
        None \<Rightarrow> Inl ErrRandom
      | Some nonce \<Rightarrow> Inr (nonce @ box_Seal e plaintext nonce recipientPub senderPriv))"

definition Decrypt :: "'a crypto_env_scheme \<Rightarrow> bytes \<Rightarrow> bytes \<Rightarrow> bytes \<Rightarrow> crypto_error + bytes" where
  "Decrypt e ciphertext recipientPriv senderPub =
     (if length recipientPriv \<noteq> X25519KeySize \<or> length senderPub \<noteq> X25519KeySize then Inl ErrInvalidKeySize
      else if length ciphertext < NonceSize + OverheadLen then Inl ErrDecryptionFailed
      else case box_Open e (drop NonceSize ciphertext) (take NonceSize ciphertext) senderPub recipientPriv of
        None \<Rightarrow> Inl ErrDecryptionFailed
      | Some plaintext \<Rightarrow> Inr plaintext)"

text \<open>\<open>box.GenerateKey\<close> makes an X25519 key pair from the random source.\<close>

definition EncryptAnonymous ::
  "'a crypto_env_scheme \<Rightarrow> bytes option \<Rightarrow> bytes option \<Rightarrow> bytes \<Rightarrow> bytes \<Rightarrow> crypto_error + bytes" where
  "EncryptAnonymous e keyRandom nonceRandom plaintext recipientPub =
     (if length recipientPub \<noteq> X25519KeySize then Inl ErrInvalidKeySize
      else case GenerateEncryptionKeyPair e keyRandom of
        Inl err \<Rightarrow> Inl err
      | Inr ephemeral \<Rightarrow>
          (case nonceRandom of
             None \<Rightarrow> Inl ErrRandom
           | Some nonce \<Rightarrow>
               Inr (PublicKey ephemeral @ nonce @ box_Seal e plaintext nonce recipientPub (PrivateKey ephemeral))))"

definition DecryptAnonymous :: "'a crypto_env_scheme \<Rightarrow> bytes \<Rightarrow> bytes \<Rightarrow> crypto_error + bytes" where
  "DecryptAnonymous e ciphertext recipientPriv =
     (if length recipientPriv \<noteq> X25519KeySize then Inl ErrInvalidKeySize
      else if length ciphertext < X25519KeySize + NonceSize + OverheadLen then Inl ErrDecryptionFailed
      else case box_Open e (drop (X25519KeySize + NonceSize) ciphertext)
             (take NonceSize (drop X25519KeySize ciphertext)) (take X25519KeySize ciphertext) recipientPriv of
        None \<Rightarrow> Inl ErrDecryptionFailed
      | Some plaintext \<Rightarrow> Inr plaintext)"

section \<open>Base58\<close>

definition base58Alphabet :: string where
  "base58Alphabet = ''123456789ABCDEFGHJKLMNPQRSTUVWXYZabcdefghijkmnopqrstuvwxyz''"

text \<open>The inner loop over the buffer, from its last position to its first: the buffer is
  given from the last position on.\<close>

fun base58_carry :: "nat \<Rightarrow> bytes \<Rightarrow> bytes" where
  "base58_carry carry [] = []"
| "base58_carry carry (b # bs) =
     (let c = carry + 256 * unat b in word_of_nat (c mod 58) # base58_carry (c div 58) bs)"

definition base58_buf :: "bytes \<Rightarrow> bytes" where
  "base58_buf data =
     (let size = length data * 138 div 100 + 1
      in fold (\<lambda>b buf. rev (base58_carry (unat b) (rev buf))) data (replicate size 0))"

definition encodeBase58 :: "bytes \<Rightarrow> string" where
  "encodeBase58 data =
     (if data = [] then ''''
      else
        let zeros = length (takeWhile (\<lambda>b. b = 0) data);
            digits = dropWhile (\<lambda>b. b = 0) (base58_buf data)
        in replicate zeros (CHR ''1'') @ map (\<lambda>d. base58Alphabet ! unat d) digits)"

section \<open>Identities\<close>

datatype identity_error = KeyGeneration crypto_error | ParseFailed | ReadFailed | UnmarshalFailed | MarshalFailed | WriteFailed
  | InvalidSigningKeySize nat | InvalidEncryptionKeySize nat | DeriveFailed | InvalidSeedSize nat
  | ErrInvalidDID | ErrUnsupportedMethod

definition MethodWBA :: string where "MethodWBA = ''wba''"

text \<open>A parsed DID as the sources read it, and a document as the calls that build it.\<close>

record parsed_DID =
  did_Method :: string
  did_ID :: string
  did_String :: string

datatype key_type = ED25519VerificationKey2018 | X25519KeyAgreementKey2019

record VerificationMethod =
  vm_DID :: parsed_DID
  vm_Fragment :: string
  vm_Type :: key_type
  vm_Controller :: parsed_DID
  PublicKeyBase58 :: string

datatype document_entry = AddAssertionMethod VerificationMethod | AddAuthenticationMethod VerificationMethod
  | AddKeyAgreement VerificationMethod

record Document =
  doc_ID :: parsed_DID
  doc_Entries :: "document_entry list"

record Identity =
  id_DID :: parsed_DID
  id_Document :: Document
  id_Keys :: AgentKeys

record serializedIdentity =
  SigningPrivateKey :: bytes
  EncryptionPrivateKey :: bytes

text \<open>The DID parser, the JSON codec of the key file and the reading and writing of files.\<close>

record identity_env = crypto_env +
  e_ParseDID :: "string \<Rightarrow> parsed_DID option"
  e_marshal :: "serializedIdentity \<Rightarrow> bytes option"
  e_unmarshal :: "bytes \<Rightarrow> serializedIdentity option"
  e_writable :: "string \<Rightarrow> bool"

definition buildDocument :: "parsed_DID \<Rightarrow> AgentKeys \<Rightarrow> Document" where
  "buildDocument d keys =
     (let signingVM = \<lparr>vm_DID = d, vm_Fragment = ''signing-key'', vm_Type = ED25519VerificationKey2018, vm_Controller = d,
            PublicKeyBase58 = encodeBase58 (PublicKey (Signing keys))\<rparr>;
          encryptionVM = \<lparr>vm_DID = d, vm_Fragment = ''encryption-key'', vm_Type = X25519KeyAgreementKey2019, vm_Controller = d,
            PublicKeyBase58 = encodeBase58 (PublicKey (Encryption keys))\<rparr>
      in \<lparr>doc_ID = d, doc_Entries = [AddAssertionMethod signingVM, AddAuthenticationMethod signingVM, AddKeyAgreement encryptionVM]\<rparr>)"

definition agent_did :: "string \<Rightarrow> string \<Rightarrow> string" where
  "agent_did domain agentID = ''did:'' @ MethodWBA @ '':'' @ domain @ '':agent:'' @ agentID"

definition NewIdentityFromKeys :: "'a identity_env_scheme \<Rightarrow> string \<Rightarrow> string \<Rightarrow> AgentKeys \<Rightarrow> identity_error + Identity" where
  "NewIdentityFromKeys e domain agentID keys =
     (case e_ParseDID e (agent_did domain agentID) of
        None \<Rightarrow> Inl ParseFailed
      | Some d \<Rightarrow> Inr \<lparr>id_DID = d, id_Document = buildDocument d keys, id_Keys = keys\<rparr>)"

definition TenantDIDString :: "string \<Rightarrow> string \<Rightarrow> string" where
  "TenantDIDString domain tenantID = ''did:wba:'' @ domain @ '':tenant:'' @ tenantID"

definition NewIdentityFromKeysTenant :: "'a identity_env_scheme \<Rightarrow> string \<Rightarrow> string \<Rightarrow> AgentKeys \<Rightarrow> identity_error + Identity" where
  "NewIdentityFromKeysTenant e domain tenantID keys =
     (case e_ParseDID e (''did:'' @ MethodWBA @ '':'' @ domain @ '':tenant:'' @ tenantID) of
        None \<Rightarrow> Inl ParseFailed
      | Some d \<Rightarrow> Inr \<lparr>id_DID = d, id_Document = buildDocument d keys, id_Keys = keys\<rparr>)"

definition NewIdentity ::
  "'a identity_env_scheme \<Rightarrow> bytes option \<Rightarrow> bytes option \<Rightarrow> string \<Rightarrow> string \<Rightarrow> identity_error + Identity" where
  "NewIdentity e r1 r2 domain agentID =
     (case GenerateAgentKeys e r1 r2 of
        Inl err \<Rightarrow> Inl (KeyGeneration err)
      | Inr keys \<Rightarrow>
          (case e_ParseDID e (agent_did domain agentID) of
             None \<Rightarrow> Inl ParseFailed
           | Some d \<Rightarrow> Inr \<lparr>id_DID = d, id_Document = buildDocument d keys, id_Keys = keys\<rparr>))"

definition SaveToFile :: "'a identity_env_scheme \<Rightarrow> Identity \<Rightarrow> string \<Rightarrow> (string, bytes) gomap \<Rightarrow> identity_error + (string, bytes) gomap" where
  "SaveToFile e ident path files =
     (case e_marshal e \<lparr>SigningPrivateKey = PrivateKey (Signing (id_Keys ident)),
             EncryptionPrivateKey = PrivateKey (Encryption (id_Keys ident))\<rparr> of
        None \<Rightarrow> Inl MarshalFailed
      | Some data \<Rightarrow> if e_writable e path then Inr (mput path data files) else Inl WriteFailed)"

definition LoadFromFile :: "'a identity_env_scheme \<Rightarrow> string \<Rightarrow> string \<Rightarrow> string \<Rightarrow> (string, bytes) gomap \<Rightarrow> identity_error + Identity" where
  "LoadFromFile e path domain agentID files =
     (case map_of files path of
        None \<Rightarrow> Inl ReadFailed
      | Some data \<Rightarrow>
          (case e_unmarshal e data of
             None \<Rightarrow> Inl UnmarshalFailed
           | Some s \<Rightarrow>
               if length (SigningPrivateKey s) \<noteq> Ed25519PrivateKeySize
               then Inl (InvalidSigningKeySize (length (SigningPrivateKey s)))
               else if length (EncryptionPrivateKey s) \<noteq> X25519KeySize
               then Inl (InvalidEncryptionKeySize (length (EncryptionPrivateKey s)))
               else case X25519 e (EncryptionPrivateKey s) (Basepoint e) of
                 None \<Rightarrow> Inl DeriveFailed
               | Some encryptionPub \<Rightarrow>
                   let keys = \<lparr>Signing = \<lparr>PublicKey = drop 32 (SigningPrivateKey s), PrivateKey = SigningPrivateKey s\<rparr>,
                         Encryption = \<lparr>PublicKey = encryptionPub, PrivateKey = EncryptionPrivateKey s\<rparr>\<rparr>
                   in case e_ParseDID e (agent_did domain agentID) of
                        None \<Rightarrow> Inl ParseFailed
                      | Some d \<Rightarrow> Inr \<lparr>id_DID = d, id_Document = buildDocument d keys, id_Keys = keys\<rparr>))"

definition ParseDID :: "'a identity_env_scheme \<Rightarrow> string \<Rightarrow> identity_error + parsed_DID" where
  "ParseDID e s = (case e_ParseDID e s of None \<Rightarrow> Inl ErrInvalidDID | Some d \<Rightarrow> Inr d)"

definition ValidateDID :: "'a identity_env_scheme \<Rightarrow> string \<Rightarrow> bool" where
  "ValidateDID e s \<longleftrightarrow> e_ParseDID e s \<noteq> None"

text \<open>\<open>url.PathUnescape\<close> of the standard library and the first element of \<open>strings.Split\<close>.\<close>

definition unhex :: "char \<Rightarrow> nat option" where
  "unhex c =
     (let n = of_char c :: nat
      in if 48 \<le> n \<and> n \<le> 57 then Some (n - 48)
         else if 97 \<le> n \<and> n \<le> 102 then Some (n - 87)
         else if 65 \<le> n \<and> n \<le> 70 then Some (n - 55)
         else None)"

fun PathUnescape :: "string \<Rightarrow> string option" where
  "PathUnescape [] = Some []"
| "PathUnescape (c # s) =
     (if c = CHR ''%'' then
        (case s of
           a # b # t \<Rightarrow>
             (case (unhex a, unhex b) of
                (Some x, Some y) \<Rightarrow> map_option ((#) (char_of (16 * x + y))) (PathUnescape t)
              | _ \<Rightarrow> None)
         | _ \<Rightarrow> None)
      else map_option ((#) c) (PathUnescape s))"

definition ExtractDomain :: "parsed_DID \<Rightarrow> identity_error + string" where
  "ExtractDomain d =
     (if did_Method d \<noteq> MethodWBA then Inl ErrUnsupportedMethod
      else case PathUnescape (takeWhile (\<lambda>c. c \<noteq> CHR '':'') (did_ID d)) of
        None \<Rightarrow> Inl ErrInvalidDID
      | Some domain \<Rightarrow> Inr domain)"

definition clamp :: "bytes \<Rightarrow> bytes" where
  "clamp k = (let k1 = k[0 := and (k ! 0) 248]; k2 = k1[31 := and (k1 ! 31) 127] in k2[31 := or (k2 ! 31) 64])"

definition DeriveTenantIdentity :: "'a identity_env_scheme \<Rightarrow> string \<Rightarrow> string \<Rightarrow> bytes \<Rightarrow> identity_error + Identity" where
  "DeriveTenantIdentity e domain tenantID seed =
     (if length seed \<noteq> 32 then Inl (InvalidSeedSize (length seed))
      else
        let priv = ed_NewKeyFromSeed e seed;
            encPriv = clamp (take 32 (Sum512 e seed))
        in case X25519 e encPriv (Basepoint e) of
             None \<Rightarrow> Inl DeriveFailed
           | Some encPub \<Rightarrow>
               NewIdentityFromKeysTenant e domain tenantID
                 \<lparr>Signing = \<lparr>PublicKey = ed_Public e priv, PrivateKey = priv\<rparr>,
                  Encryption = \<lparr>PublicKey = encPub, PrivateKey = encPriv\<rparr>\<rparr>)"

section \<open>Correctness of the Base58 encoder\<close>

text \<open>A digit list from the least significant digit on, read in base \<open>n\<close>.\<close>

abbreviation le_val :: "nat \<Rightarrow> bytes \<Rightarrow> nat" where
  "le_val n ds \<equiv> horner_sum unat n ds"

definition base58_digits :: "bytes \<Rightarrow> bool" where
  "base58_digits ds \<longleftrightarrow> (\<forall>d \<in> set ds. unat d < 58)"

lemma unat_mod58: "unat (word_of_nat (c mod 58) :: byte) = c mod 58"
proof -
  have "c mod 58 < 58" by simp
  also have "58 < (2::nat) ^ 8" by simp
  finally have "c mod 58 < 2 ^ 8" .
  then show ?thesis by (simp add: unsigned_of_nat take_bit_nat_eq_self)
qed

lemma base58_carry_shape [simp]: "length (base58_carry c bs) = length bs" "base58_digits (base58_carry c bs)"
  by (induction c bs rule: base58_carry.induct) (simp_all add: Let_def base58_digits_def unat_mod58)

lemma base58_carry_value: "le_val 58 (base58_carry c bs) = (c + 256 * le_val 58 bs) mod 58 ^ length bs"
proof (induction c bs rule: base58_carry.induct)
  case (2 carry b bs)
  define c where "c = carry + 256 * unat b"
  have "le_val 58 (base58_carry carry (b # bs)) = c mod 58 + 58 * ((c div 58 + 256 * le_val 58 bs) mod 58 ^ length bs)"
    using "2.IH" [OF refl] by (simp add: c_def [symmetric] unat_mod58)
  also have "c mod 58 + 58 * ((c div 58 + x) mod m) = (c + 58 * x) mod (58 * m)" for m x :: nat
    by (simp add: mod_mult2_eq add.commute)
  finally show ?case by (simp add: c_def algebra_simps)
qed simp

text \<open>The carry of the inner loop stays below 256, so the Go \<open>int\<close> that holds it never overflows.\<close>

lemma base58_carry_bound: "carry < 256 \<Longrightarrow> d < 58 \<Longrightarrow> (carry + 256 * d) div 58 < (256::nat)"
  by (simp add: div_less_iff_less_mult)

lemma base58_fold:
  assumes "length buf = n" and "le_val 58 (rev buf) < 58 ^ n"
  shows "le_val 58 (rev (fold (\<lambda>b buf. rev (base58_carry (unat b) (rev buf))) data buf))
      = (le_val 58 (rev buf) * 256 ^ length data + le_val 256 (rev data)) mod 58 ^ n
    \<and> length (fold (\<lambda>b buf. rev (base58_carry (unat b) (rev buf))) data buf) = n"
  using assms
proof (induction data arbitrary: buf)
  case (Cons b data)
  let ?buf = "rev (base58_carry (unat b) (rev buf))"
  have v: "le_val 58 (rev ?buf) = (unat b + 256 * le_val 58 (rev buf)) mod 58 ^ n"
    using base58_carry_value [of "unat b" "rev buf"] Cons.prems(1) by simp
  have "le_val 58 (rev ?buf) < 58 ^ n" unfolding v by simp
  with Cons.IH [of ?buf] Cons.prems(1)
  have IH: "le_val 58 (rev (fold (\<lambda>b buf. rev (base58_carry (unat b) (rev buf))) data ?buf))
      = ((unat b + 256 * le_val 58 (rev buf)) mod 58 ^ n * 256 ^ length data + le_val 256 (rev data)) mod 58 ^ n
    \<and> length (fold (\<lambda>b buf. rev (base58_carry (unat b) (rev buf))) data ?buf) = n"
    unfolding v by simp
  have "(a mod m * y + z) mod m = (a * y + z) mod m" for m a y z :: nat
    by (metis mod_add_left_eq mod_mult_left_eq)
  note IH [unfolded this]
  moreover have "(unat b + 256 * x) * y + z = x * (256 * y) + (z + y * unat b)" for x y z :: nat
    by (simp add: algebra_simps)
  ultimately show ?case by (simp add: horner_sum_append)
qed simp

lemma horner_replicate_zero [simp]: "le_val n (replicate k 0) = 0"
  by (induction k) simp_all

lemma le_val_less: "le_val 256 bs < 256 ^ length bs"
proof (induction bs)
  case (Cons b bs)
  have "unat b + 256 * le_val 256 bs < 256 + 256 * le_val 256 bs" using unsigned_less [of b, where 'a = nat] by simp
  also have "\<dots> \<le> 256 * 256 ^ length bs" using Cons by simp
  finally show ?case by simp
qed simp

text \<open>The buffer is large enough: 138 digits in base 58 hold 100 bytes.\<close>

lemma base58_size: "256 ^ n < (58::nat) ^ (n * 138 div 100 + 1)"
proof (rule power_less_imp_less_base)
  have "((256::nat) ^ n) ^ 100 = (256 ^ 100) ^ n" by (simp only: power_mult [symmetric] mult.commute)
  also have "\<dots> \<le> (58 ^ 138) ^ n" by (rule power_mono) simp_all
  also have "\<dots> = 58 ^ (n * 138)" by (simp only: power_mult [symmetric] mult.commute)
  also have "\<dots> < 58 ^ ((n * 138 div 100 + 1) * 100)" by (rule power_strict_increasing) simp_all
  finally show "((256::nat) ^ n) ^ 100 < (58 ^ (n * 138 div 100 + 1)) ^ 100" by (simp only: power_mult)
qed simp

lemma base58_buf_value: "le_val 58 (rev (base58_buf data)) = le_val 256 (rev data)"
proof -
  let ?n = "length data * 138 div 100 + 1"
  have "le_val 256 (rev data) < 58 ^ ?n"
    using le_val_less [of "rev data"] base58_size [of "length data"] by simp
  moreover have "le_val 58 (rev (replicate ?n 0)) < 58 ^ ?n" by (simp only: rev_replicate horner_replicate_zero) simp
  ultimately show ?thesis
    using base58_fold [of "replicate ?n 0" ?n data] unfolding base58_buf_def Let_def
    by (simp only: length_replicate rev_replicate horner_replicate_zero) simp
qed

lemma base58_buf_digits: "base58_digits (base58_buf data)"
proof -
  have "base58_digits buf \<Longrightarrow> base58_digits (fold (\<lambda>b buf. rev (base58_carry (unat b) (rev buf))) data buf)" for buf
  proof (induction data arbitrary: buf)
    case (Cons b data)
    have "base58_digits (rev (base58_carry (unat b) (rev buf)))"
      using base58_carry_shape(2) [of "unat b" "rev buf"] by (simp add: base58_digits_def)
    from Cons.IH [OF this] show ?case by simp
  qed simp
  moreover have "base58_digits (replicate k 0)" for k by (simp add: base58_digits_def)
  ultimately show ?thesis unfolding base58_buf_def Let_def by blast
qed

text \<open>A reference decoder: leading ones are zero bytes, the rest is a number written in base 256.\<close>

fun base256 :: "nat \<Rightarrow> bytes" where
  "base256 n = (if n = 0 then [] else word_of_nat (n mod 256) # base256 (n div 256))"

declare base256.simps [simp del]

definition decodeBase58 :: "string \<Rightarrow> bytes option" where
  "decodeBase58 s =
     (let ones = takeWhile (\<lambda>c. c = CHR ''1'') s;
          digits = map (\<lambda>c. find_index (\<lambda>x. x = c) base58Alphabet) (drop (length ones) s)
      in if None \<in> set digits then None
         else Some (replicate (length ones) 0 @ rev (base256 (horner_sum the 58 (rev digits)))))"

lemma base256_value: "(bs \<noteq> [] \<Longrightarrow> last bs \<noteq> 0) \<Longrightarrow> base256 (le_val 256 bs) = bs"
proof (induction bs)
  case (Cons b bs)
  have b: "unat b < 256" using unsigned_less [of b, where 'a = nat] by simp
  have "(unat b + 256 * le_val 256 bs) mod 256 = unat b" "(unat b + 256 * le_val 256 bs) div 256 = le_val 256 bs"
    using b by simp_all
  moreover have IH: "base256 (le_val 256 bs) = bs" by (rule Cons.IH) (use Cons.prems in simp)
  moreover have "unat b + 256 * le_val 256 bs \<noteq> 0"
  proof
    assume "unat b + 256 * le_val 256 bs = 0"
    then have "b = 0" "bs = []" using IH by (simp_all add: unsigned_eq_0_iff base256.simps)
    then show False using Cons.prems by simp
  qed
  ultimately show ?case by (subst base256.simps) simp
qed (simp add: base256.simps)

lemma le_val_strip: "le_val n (rev (dropWhile (\<lambda>b. b = 0) bs)) = le_val n (rev bs)"
  by (induction bs) (simp_all add: horner_sum_append)

lemma find_index_distinct: "distinct xs \<Longrightarrow> i < length xs \<Longrightarrow> find_index (\<lambda>x. x = xs ! i) xs = Some i"
proof (induction xs arbitrary: i)
  case (Cons x xs)
  then show ?case by (cases i) auto
qed simp

lemma base58Alphabet_length [simp]: "length base58Alphabet = 58"
  by (simp add: base58Alphabet_def)

lemma base58Alphabet_distinct: "distinct base58Alphabet"
  unfolding base58Alphabet_def by code_simp

lemma base58_index: "unat d < 58 \<Longrightarrow> find_index (\<lambda>x. x = base58Alphabet ! unat d) base58Alphabet = Some (unat d)"
  by (rule find_index_distinct) (simp_all add: base58Alphabet_distinct)

lemma base58_one: "unat d < 58 \<Longrightarrow> d \<noteq> 0 \<Longrightarrow> base58Alphabet ! unat d \<noteq> CHR ''1''"
proof -
  assume "unat d < 58" "d \<noteq> 0"
  moreover have "base58Alphabet ! 0 = CHR ''1''" by (simp add: base58Alphabet_def)
  ultimately show ?thesis
    using nth_eq_iff_index_eq [OF base58Alphabet_distinct, of "unat d" 0] by (simp add: unsigned_eq_0_iff)
qed

text \<open>
  Property C26. Base58 encoding loses nothing. Every character of an encoded key is one of the 58
  of the alphabet, the buffer of \<open>len * 138 / 100 + 1\<close> digits is always large enough, and a decoder
  recovers the bytes: so different keys have different texts in the DID documents.
\<close>

theorem base58_roundtrip:
  "decodeBase58 (encodeBase58 data) = Some data \<and> set (encodeBase58 data) \<subseteq> set base58Alphabet"
proof (cases "data = []")
  case False
  let ?z = "length (takeWhile (\<lambda>b. b = 0) data)"
  define digits where "digits = dropWhile (\<lambda>b. b = 0) (base58_buf data)"
  let ?text = "map (\<lambda>d. base58Alphabet ! unat d) digits"
  have small: "unat d < 58" if "d \<in> set digits" for d
    using base58_buf_digits [of data] set_dropWhileD [OF that [unfolded digits_def]] by (simp add: base58_digits_def)
  have enc: "encodeBase58 data = replicate ?z (CHR ''1'') @ ?text"
    using False by (simp add: encodeBase58_def digits_def)
  have "takeWhile (\<lambda>c. c = CHR ''1'') ?text = []"
  proof (cases digits)
    case (Cons d ds)
    then have "d \<noteq> 0" using hd_dropWhile [of "\<lambda>b. b = 0" "base58_buf data"] by (simp add: digits_def)
    then show ?thesis using base58_one [of d] small [of d] Cons by simp
  qed simp
  then have ones: "takeWhile (\<lambda>c. c = CHR ''1'') (encodeBase58 data) = replicate ?z (CHR ''1'')"
    by (simp add: enc takeWhile_append)
  have idx: "map (\<lambda>c. find_index (\<lambda>x. x = c) base58Alphabet) ?text = map (\<lambda>d. Some (unat d)) digits"
    using base58_index [OF small] by simp
  have "horner_sum the 58 (rev (map (\<lambda>d. Some (unat d)) digits)) = le_val 58 (rev digits)"
    by (simp only: rev_map horner_sum_foldr foldr_map o_def option.sel)
  also have "\<dots> = le_val 256 (rev (dropWhile (\<lambda>b. b = 0) data))"
    by (simp add: digits_def le_val_strip base58_buf_value)
  finally have "rev (base256 (horner_sum the 58 (rev (map (\<lambda>d. Some (unat d)) digits)))) = dropWhile (\<lambda>b. b = 0) data"
    using base256_value [of "rev (dropWhile (\<lambda>b. b = 0) data)"] hd_dropWhile [of "\<lambda>b. b = 0" data]
    by (simp add: last_rev)
  moreover have "replicate ?z 0 = takeWhile (\<lambda>b. b = 0) data"
    by (rule replicate_length_same) (auto dest: set_takeWhileD)
  ultimately have "decodeBase58 (encodeBase58 data) = Some data"
    unfolding decodeBase58_def Let_def ones
    by (simp add: enc idx del: map_map) (auto simp: takeWhile_dropWhile_id)
  moreover have "base58Alphabet ! 0 = CHR ''1''" by (simp add: base58Alphabet_def)
  then have "CHR ''1'' \<in> set base58Alphabet" using nth_mem [of 0 base58Alphabet] by simp
  then have "set (encodeBase58 data) \<subseteq> set base58Alphabet"
    unfolding enc using small by (auto simp: set_replicate_conv_if)
  ultimately show ?thesis by blast
qed (simp add: encodeBase58_def decodeBase58_def base256.simps)

section \<open>What the primitives promise\<close>

text \<open>An Ed25519 private key is the seed followed by the public key, and signatures verify.\<close>

definition ed25519_ok :: "'a crypto_env_scheme \<Rightarrow> bool" where
  "ed25519_ok e \<longleftrightarrow> (\<forall>seed. length seed = 32 \<longrightarrow>
     length (ed_NewKeyFromSeed e seed) = 64 \<and> drop 32 (ed_NewKeyFromSeed e seed) = ed_Public e (ed_NewKeyFromSeed e seed)
     \<and> (\<forall>data. ed_Verify e (ed_Public e (ed_NewKeyFromSeed e seed)) data (ed_Sign e (ed_NewKeyFromSeed e seed) data)))"

text \<open>X25519 gives 32 bytes, and two parties agree on the shared secret.\<close>

definition x25519_ok :: "'a crypto_env_scheme \<Rightarrow> bool" where
  "x25519_ok e \<longleftrightarrow> (\<forall>k p r. X25519 e k p = Some r \<longrightarrow> length r = 32)
     \<and> (\<forall>a b pa pb. X25519 e a (Basepoint e) = Some pa \<longrightarrow> X25519 e b (Basepoint e) = Some pb \<longrightarrow> X25519 e a pb = X25519 e b pa)"

text \<open>A sealed message is 16 bytes longer and its recipient can open it with the sender's public key.\<close>

definition box_ok :: "'a crypto_env_scheme \<Rightarrow> bool" where
  "box_ok e \<longleftrightarrow> (\<forall>m n p k. length (box_Seal e m n p k) = length m + 16)
     \<and> (\<forall>m n a b pa pb. X25519 e a (Basepoint e) = Some pa \<longrightarrow> X25519 e b (Basepoint e) = Some pb \<longrightarrow> length n = 24 \<longrightarrow>
          box_Open e (box_Seal e m n pb a) n pa b = Some m)"

definition codec_ok :: "'a identity_env_scheme \<Rightarrow> bool" where
  "codec_ok e \<longleftrightarrow> (\<forall>s data. e_marshal e s = Some data \<longrightarrow> e_unmarshal e data = Some s)"

text \<open>A parsed DID has the method and the method-specific part of its text.\<close>

definition parser_ok :: "'a identity_env_scheme \<Rightarrow> bool" where
  "parser_ok e \<longleftrightarrow> (\<forall>s d. e_ParseDID e s = Some d \<longrightarrow>
     s = ''did:'' @ did_Method d @ '':'' @ did_ID d \<and> CHR '':'' \<notin> set (did_Method d) \<and> did_String d = s)"

lemma GenerateEncryptionKeyPair_iff:
  "GenerateEncryptionKeyPair e (Some r) = Inr k \<longleftrightarrow> PrivateKey k = r \<and> X25519 e r (Basepoint e) = Some (PublicKey k)"
  by (cases k) (auto simp: GenerateEncryptionKeyPair_def split: option.split)

lemma x25519_length: "x25519_ok e \<Longrightarrow> X25519 e k p = Some r \<Longrightarrow> length r = 32"
  unfolding x25519_ok_def by blast

lemma box_opens:
  "box_ok e \<Longrightarrow> X25519 e a (Basepoint e) = Some pa \<Longrightarrow> X25519 e b (Basepoint e) = Some pb \<Longrightarrow> length n = 24 \<Longrightarrow>
   box_Open e (box_Seal e m n pb a) n pa b = Some m"
  "box_ok e \<Longrightarrow> length (box_Seal e m n p k) = length m + 16"
  unfolding box_ok_def by blast+

section \<open>Encryption and identities\<close>

text \<open>
  Messages can be read by their recipient. For two generated key pairs, what one
  encrypts for the other decrypts to the plaintext and is 40 bytes longer, the same holds for an
  anonymous message, which is 72 bytes longer, and both compute the same shared secret.
\<close>

theorem encryption_roundtrip:
  assumes "x25519_ok e" and "box_ok e" and "length ra = 32" and "length rb = 32" and "length rk = 32" and "length n = 24"
    and a: "GenerateEncryptionKeyPair e (Some ra) = Inr a" and b: "GenerateEncryptionKeyPair e (Some rb) = Inr b"
    and k: "GenerateEncryptionKeyPair e (Some rk) = Inr k"
  shows "(\<exists>c. Encrypt e (Some n) m (PrivateKey a) (PublicKey b) = Inr c \<and> length c = length m + 40
        \<and> Decrypt e c (PrivateKey b) (PublicKey a) = Inr m)
    \<and> (\<exists>c. EncryptAnonymous e (Some rk) (Some n) m (PublicKey b) = Inr c \<and> length c = length m + 72
        \<and> DecryptAnonymous e c (PrivateKey b) = Inr m)
    \<and> ComputeSharedSecret e a (PublicKey b) = ComputeSharedSecret e b (PublicKey a)"
proof -
  note keys = a [unfolded GenerateEncryptionKeyPair_iff] b [unfolded GenerateEncryptionKeyPair_iff] k [unfolded GenerateEncryptionKeyPair_iff]
  note pub = x25519_length [OF assms(1) keys(1) [THEN conjunct2]] x25519_length [OF assms(1) keys(2) [THEN conjunct2]]
    x25519_length [OF assms(1) keys(3) [THEN conjunct2]]
  note opens = box_opens(1) [OF assms(2) keys(1) [THEN conjunct2] keys(2) [THEN conjunct2] assms(6)]
    box_opens(1) [OF assms(2) keys(3) [THEN conjunct2] keys(2) [THEN conjunct2] assms(6)]
  note sizes = box_opens(2) [OF assms(2)] key_sizes pub assms(3-6)
  have "X25519 e ra (PublicKey b) = X25519 e rb (PublicKey a)"
    using assms(1) keys unfolding x25519_ok_def by blast
  then show ?thesis
    using keys opens by (simp add: Encrypt_def Decrypt_def EncryptAnonymous_def DecryptAnonymous_def ComputeSharedSecret_def k sizes)
qed

text \<open>
  An identity survives its key file. An identity that was created and saved is what
  loading the file gives, with the same DID, document and keys; its signatures verify under
  its public key; and the domain of its DID is the domain it was created for, when that has
  neither a colon nor a percent sign.
\<close>

theorem identity_file_roundtrip:
  assumes "ed25519_ok e" and "codec_ok e" and "parser_ok e" and "length r1 = 32" and "length r2 = 32"
    and new: "NewIdentity e (Some r1) (Some r2) domain agentID = Inr i" and save: "SaveToFile e i path files = Inr files'"
    and plain: "CHR '':'' \<notin> set domain" "CHR ''%'' \<notin> set domain"
  shows "LoadFromFile e path domain agentID files' = Inr i
    \<and> Verify e (Signing (id_Keys i)) data (Sign e (Signing (id_Keys i)) data)
    \<and> ExtractDomain (id_DID i) = Inr domain \<and> did_String (id_DID i) = agent_did domain agentID"
proof -
  let ?priv = "ed_NewKeyFromSeed e r1"
  from new obtain pub d where i: "X25519 e r2 (Basepoint e) = Some pub" "e_ParseDID e (agent_did domain agentID) = Some d"
      "id_Keys i = \<lparr>Signing = \<lparr>PublicKey = ed_Public e ?priv, PrivateKey = ?priv\<rparr>, Encryption = \<lparr>PublicKey = pub, PrivateKey = r2\<rparr>\<rparr>"
      "id_DID i = d" "id_Document i = buildDocument d (id_Keys i)"
    by (auto simp: NewIdentity_def GenerateAgentKeys_def GenerateSigningKeyPair_def GenerateEncryptionKeyPair_def Let_def
        split: option.splits)
  have ed: "length ?priv = 64" "drop 32 ?priv = ed_Public e ?priv" "ed_Verify e (ed_Public e ?priv) data (ed_Sign e ?priv data)"
    using assms(1,4) unfolding ed25519_ok_def by blast+
  from save obtain content where f: "files' = mput path content files"
      "e_marshal e \<lparr>SigningPrivateKey = ?priv, EncryptionPrivateKey = r2\<rparr> = Some content"
    by (auto simp: SaveToFile_def i(3) split: option.splits if_splits)
  then have "e_unmarshal e content = Some \<lparr>SigningPrivateKey = ?priv, EncryptionPrivateKey = r2\<rparr>"
    using assms(2) unfolding codec_ok_def by blast
  moreover have "did_Method d = ''wba'' \<and> did_ID d = domain @ '':agent:'' @ agentID \<and> did_String d = agent_did domain agentID"
  proof -
    have eq: "''did:'' @ did_Method d @ '':'' @ did_ID d = agent_did domain agentID" "CHR '':'' \<notin> set (did_Method d)"
        "did_String d = agent_did domain agentID"
      using assms(3) i(2) unfolding parser_ok_def by metis+
    then have "did_Method d @ CHR '':'' # did_ID d = ''wba'' @ CHR '':'' # (domain @ '':agent:'' @ agentID)"
      by (simp add: agent_did_def MethodWBA_def)
    then have "did_Method d = ''wba'' \<and> did_ID d = domain @ '':agent:'' @ agentID"
      by (rule split_at_first [rotated 2]) (simp_all add: eq(2))
    then show ?thesis using eq(3) by blast
  qed
  moreover have "PathUnescape s = Some s" if "CHR ''%'' \<notin> set s" for s
    using that by (induction s rule: PathUnescape.induct) auto
  moreover have "takeWhile (\<lambda>c. c \<noteq> CHR '':'') (domain @ '':agent:'' @ agentID) = domain"
    using plain(1) by (simp add: takeWhile_tail) (metis takeWhile_eq_all_conv)
  ultimately show ?thesis
    using i ed plain(2) assms(5)
    by (cases i) (simp add: f LoadFromFile_def map_of_simps key_sizes Verify_def Sign_def ExtractDomain_def MethodWBA_def Let_def)
qed

text \<open>The key derived for a tenant is a clamped X25519 scalar and depends on the seed only.\<close>

lemma DeriveTenantIdentity_clamped:
  assumes "DeriveTenantIdentity e domain tenantID seed = Inr i" and "length (Sum512 e seed) = 64"
  shows "let k = PrivateKey (Encryption (id_Keys i)) in length k = 32 \<and> and (k ! 0) 7 = 0 \<and> \<not> bit (k ! 31) 7 \<and> bit (k ! 31) 6
      \<and> k = clamp (take 32 (Sum512 e seed)) \<and> PrivateKey (Signing (id_Keys i)) = ed_NewKeyFromSeed e seed"
proof -
  let ?k = "clamp (take 32 (Sum512 e seed))"
  have k: "PrivateKey (Encryption (id_Keys i)) = ?k \<and> PrivateKey (Signing (id_Keys i)) = ed_NewKeyFromSeed e seed"
    using assms(1) by (auto simp: DeriveTenantIdentity_def NewIdentityFromKeysTenant_def Let_def split: if_splits option.splits)
  have low: "and (and x 248) 7 = (0 :: byte)" and high: "\<not> bit (or (and x 127) 64) 7 \<and> bit (or (and x 127) 64 :: byte) 6" for x
    by (simp add: and.assoc, simp add: bit_simps)
  have "length ?k = 32" "?k ! 0 = and (Sum512 e seed ! 0) 248" "?k ! 31 = or (and (Sum512 e seed ! 31) 127) 64"
    using assms(2) by (simp_all add: clamp_def Let_def)
  then show ?thesis using k low high by (simp add: Let_def)
qed

text \<open>
  A concrete environment for the witnesses: the shared secret is the exclusive or of the keys, a
  sealed message carries half of it.
\<close>

definition sample_x25519 :: "bytes \<Rightarrow> bytes \<Rightarrow> bytes option" where
  "sample_x25519 k p = (if length k = 32 \<and> length p = 32 then Some (map2 (\<lambda>x y. xor x y) k p) else None)"

definition sample_crypto :: identity_env where
  "sample_crypto = \<lparr>ed_NewKeyFromSeed = (\<lambda>s. s @ s), ed_Public = drop 32, ed_Sign = (\<lambda>k data. k @ data),
     ed_Verify = (\<lambda>p data s. drop 32 s = p @ data), X25519 = sample_x25519, Basepoint = replicate 32 0,
     box_Seal = (\<lambda>m n p k. take 16 (map2 (\<lambda>x y. xor x y) k p @ replicate 16 0) @ m),
     box_Open = (\<lambda>c n p k. if take 16 c = take 16 (map2 (\<lambda>x y. xor x y) k p @ replicate 16 0) then Some (drop 16 c) else None),
     Sum512 = (\<lambda>s. take 64 (s @ replicate 64 0)),
     e_ParseDID = (\<lambda>s. if take 8 s = ''did:wba:'' then Some \<lparr>did_Method = ''wba'', did_ID = drop 8 s, did_String = s\<rparr> else None),
     e_marshal = (\<lambda>s. if length (SigningPrivateKey s) = 64 then Some (SigningPrivateKey s @ EncryptionPrivateKey s) else None),
     e_unmarshal = (\<lambda>b. Some \<lparr>SigningPrivateKey = take 64 b, EncryptionPrivateKey = drop 64 b\<rparr>),
     e_writable = (\<lambda>p. True)\<rparr>"

lemma map2_xor_zero: "length k = n \<Longrightarrow> map2 (\<lambda>x y. xor x y) k (replicate n 0) = (k :: bytes)"
  by (induction k arbitrary: n) auto

lemma map2_xor_commute: "map2 (\<lambda>x y. xor x y) a b = map2 (\<lambda>x y. xor x y) b (a :: bytes)"
  by (induction a b rule: list_induct2') (simp_all add: xor.commute)

lemma sample_public: "sample_x25519 k (replicate 32 0) = Some p \<longleftrightarrow> length k = 32 \<and> p = k"
  using map2_xor_zero [of k 32] unfolding sample_x25519_def by (metis length_replicate option.inject option.distinct(1))

lemma sample_crypto_ok:
  "ed25519_ok sample_crypto" "x25519_ok sample_crypto" "box_ok sample_crypto" "codec_ok sample_crypto" "parser_ok sample_crypto"
proof -
  show "ed25519_ok sample_crypto" by (simp add: ed25519_ok_def sample_crypto_def)
  show "x25519_ok sample_crypto"
    unfolding x25519_ok_def
    by (auto simp: sample_crypto_def sample_public)
      (auto simp: sample_x25519_def map2_xor_commute split: if_splits)
  show "box_ok sample_crypto"
    unfolding box_ok_def
    by (auto simp: sample_crypto_def sample_public)
      (simp add: map2_xor_commute)
  show "codec_ok sample_crypto"
    by (auto simp: codec_ok_def sample_crypto_def split: if_splits)
  show "parser_ok sample_crypto"
    unfolding parser_ok_def
  proof (intro allI impI)
    fix s d
    assume "e_ParseDID sample_crypto s = Some d"
    then have "take 8 s = ''did:wba:''" "d = \<lparr>did_Method = ''wba'', did_ID = drop 8 s, did_String = s\<rparr>"
      by (auto simp: sample_crypto_def split: if_splits)
    then show "s = ''did:'' @ did_Method d @ '':'' @ did_ID d \<and> CHR '':'' \<notin> set (did_Method d) \<and> did_String d = s"
      using append_take_drop_id [of 8 s] by simp
  qed
qed

theorem encryption_roundtrip_witness:
  "\<exists>c. Encrypt sample_crypto (Some (replicate 24 9)) [1, 2, 3] (replicate 32 5) (replicate 32 6) = Inr c
     \<and> Decrypt sample_crypto c (replicate 32 6) (replicate 32 5) = Inr [1, 2, 3]"
proof -
  have gen: "GenerateEncryptionKeyPair sample_crypto (Some (replicate 32 x)) = Inr \<lparr>PublicKey = replicate 32 x, PrivateKey = replicate 32 x\<rparr>" for x
    unfolding GenerateEncryptionKeyPair_iff by (simp add: sample_crypto_def sample_public)
  show ?thesis
    using encryption_roundtrip [OF sample_crypto_ok(2,3) _ _ _ _ gen [of 5] gen [of 6] gen [of 7],
        of "replicate 24 9" "[1, 2, 3]", THEN conjunct1] by auto
qed

theorem identity_file_roundtrip_witness:
  "\<exists>i files. NewIdentity sample_crypto (Some (replicate 32 1)) (Some (replicate 32 2)) ''example.com'' ''alice'' = Inr i
     \<and> SaveToFile sample_crypto i ''key.json'' [] = Inr files
     \<and> LoadFromFile sample_crypto ''key.json'' ''example.com'' ''alice'' files = Inr i"
proof -
  have x: "X25519 sample_crypto (replicate 32 2) (Basepoint sample_crypto) = Some (replicate 32 2)"
    by (simp add: sample_crypto_def sample_public)
  obtain d where d: "e_ParseDID sample_crypto (agent_did ''example.com'' ''alice'') = Some d"
    by (simp add: sample_crypto_def agent_did_def MethodWBA_def)
  obtain i where i: "NewIdentity sample_crypto (Some (replicate 32 1)) (Some (replicate 32 2)) ''example.com'' ''alice'' = Inr i"
      "length (PrivateKey (Signing (id_Keys i))) = 64"
    by (simp add: NewIdentity_def GenerateAgentKeys_def GenerateSigningKeyPair_def GenerateEncryptionKeyPair_def x d Let_def
       ) (simp add: sample_crypto_def)
  obtain files where f: "SaveToFile sample_crypto i ''key.json'' [] = Inr files"
    using i(2) by (simp add: SaveToFile_def sample_crypto_def)
  show ?thesis
    using identity_file_roundtrip [OF sample_crypto_ok(1,4,5) _ _ i(1) f] i(1) f by auto
qed

end
