(* ===== verification/Billing_Accounts.thy ===== *)
theory Billing_Accounts
  imports Billing_Tenants
begin

text \<open>
  API keys (\<open>pkg/billing/apikey.go\<close>, \<open>helpers.go\<close>), the in-memory account store
  (\<open>MemoryStore\<close> of \<open>pkg/billing/store.go\<close>), the limiter of failed authentications
  (\<open>auth_limiter.go\<close>) and the HTTP middleware that authenticates requests
  (\<open>middleware.go\<close>, \<open>oauth_middleware.go\<close>). SHA-256 is an argument. A handler runs as
  one step with one reading of the clock; stored tenants and keys are values, which stands
  for the pointers of the source because every change goes through the store.
\<close>

section \<open>The strings and encodings the keys use\<close>

definition to_lower :: "char \<Rightarrow> char" where
  "to_lower c = (let n = of_char c :: nat in if 65 \<le> n \<and> n \<le> 90 then char_of (n + 32) else c)"

definition ToLower :: "string \<Rightarrow> string" where
  "ToLower s = map to_lower s"

definition EqualFold :: "string \<Rightarrow> string \<Rightarrow> bool" where
  "EqualFold s t \<longleftrightarrow> ToLower s = ToLower t"

text \<open>\<open>strings.SplitN(s, sep, 2)\<close> for a separator of one character.\<close>

definition SplitN2 :: "char \<Rightarrow> string \<Rightarrow> string list" where
  "SplitN2 sep s =
     (if sep \<in> set s then [takeWhile (\<lambda>c. c \<noteq> sep) s, tl (dropWhile (\<lambda>c. c \<noteq> sep) s)] else [s])"

text \<open>\<open>base64.RawURLEncoding\<close>: three bytes make four characters, no padding.\<close>

definition base64url_alphabet :: string where
  "base64url_alphabet = ''ABCDEFGHIJKLMNOPQRSTUVWXYZabcdefghijklmnopqrstuvwxyz0123456789-_''"

definition base64url_char :: "nat \<Rightarrow> char" where
  "base64url_char n = base64url_alphabet ! (n mod 64)"

fun base64url :: "bytes \<Rightarrow> string" where
  "base64url (a # b # c # bs) =
     (let n = unat a * 65536 + unat b * 256 + unat c
      in base64url_char (n div 262144) # base64url_char (n div 4096) # base64url_char (n div 64) # base64url_char n # base64url bs)"
| "base64url [a, b] =
     (let n = unat a * 1024 + unat b * 4 in [base64url_char (n div 4096), base64url_char (n div 64), base64url_char n])"
| "base64url [a] = (let n = unat a * 16 in [base64url_char (n div 64), base64url_char n])"
| "base64url [] = []"

text \<open>\<open>%08x\<close> of a 32-bit number.\<close>

fun hex_digits :: "nat \<Rightarrow> nat \<Rightarrow> string" where
  "hex_digits 0 n = []"
| "hex_digits (Suc k) n = hex_digits k (n div 16) @ [''0123456789abcdef'' ! (n mod 16)]"

definition newID :: "32 word \<Rightarrow> string \<Rightarrow> string" where
  "newID r prefix = prefix @ ''_'' @ hex_digits 8 (unat r)"

section \<open>API keys\<close>

datatype billing_error = ErrTenantNotFound | ErrTenantSuspended | ErrAPIKeyNotFound | ErrAPIKeyRevoked | ErrInvalidAPIKey
  | ErrOAuthIdentityNotFound | ErrTokenNotFound

abbreviation apiKeyPrefixLive :: string where "apiKeyPrefixLive \<equiv> ''sk_live_''"
abbreviation apiKeyPrefixTest :: string where "apiKeyPrefixTest \<equiv> ''sk_test_''"
abbreviation apiKeyPrefixLegacy :: string where "apiKeyPrefixLegacy \<equiv> ''msg2a_''"

text \<open>The value of \<open>MSG2AGENT_ENV\<close> is an argument.\<close>

definition keyEnvPrefix :: "string \<Rightarrow> string" where
  "keyEnvPrefix env =
     (if ToLower env \<in> {''test'', ''development'', ''dev''} then apiKeyPrefixTest else apiKeyPrefixLive)"

record APIKey =
  ak_ID :: string
  ak_TenantID :: string
  ak_Name :: string
  KeyHash :: string
  ak_Prefix :: string
  ak_CreatedAt :: time
  ak_ExpiresAt :: "time option"
  RevokedAt :: "time option"

definition KeyIsValid :: "time \<Rightarrow> APIKey \<Rightarrow> bool" where
  "KeyIsValid now k =
     (if RevokedAt k \<noteq> None then False
      else case ak_ExpiresAt k of Some t \<Rightarrow> \<not> now > t | None \<Rightarrow> True)"

definition IsAPIKeyToken :: "string \<Rightarrow> bool" where
  "IsAPIKeyToken token \<longleftrightarrow>
     HasPrefix token apiKeyPrefixLive \<or> HasPrefix token apiKeyPrefixTest \<or> HasPrefix token apiKeyPrefixLegacy"

definition HashAPIKey :: "(string \<Rightarrow> string) \<Rightarrow> string \<Rightarrow> billing_error + string" where
  "HashAPIKey hashKey plaintext =
     (if HasPrefix plaintext apiKeyPrefixLive \<or> HasPrefix plaintext apiKeyPrefixTest \<or> HasPrefix plaintext apiKeyPrefixLegacy
      then Inr (hashKey plaintext) else Inl ErrInvalidAPIKey)"

text \<open>\<open>None\<close> when the random source fails or the encoded key is too short.\<close>

definition GenerateAPIKey ::
  "(string \<Rightarrow> string) \<Rightarrow> string \<Rightarrow> bytes option \<Rightarrow> 32 word \<Rightarrow> time \<Rightarrow> string \<Rightarrow> string \<Rightarrow> (string \<times> APIKey) option" where
  "GenerateAPIKey hashKey env raw idRandom now tenantID nm =
     (case raw of
        None \<Rightarrow> None
      | Some r \<Rightarrow>
          let encoded = base64url r; plaintext = keyEnvPrefix env @ encoded
          in if length encoded < 8 then None
             else Some (plaintext, \<lparr>ak_ID = newID idRandom ''k'', ak_TenantID = tenantID, ak_Name = nm, KeyHash = hashKey plaintext,
               ak_Prefix = take 8 encoded, ak_CreatedAt = now, ak_ExpiresAt = None, RevokedAt = None\<rparr>))"

section \<open>The account store\<close>

record memEmailToken =
  et_tenantID :: string
  et_email :: string
  et_expiresAt :: time

record AccountStore =
  as_tenants :: "(string, Tenant) gomap"
  as_keys :: "(string, APIKey) gomap"
  oauthIds :: "(string, string) gomap"
  stripeEventsSeen :: "(string, unit) gomap"
  emailTokens :: "(string, memEmailToken) gomap"

definition NewAccountStore :: AccountStore where
  "NewAccountStore = \<lparr>as_tenants = [], as_keys = [], oauthIds = [], stripeEventsSeen = [], emailTokens = []\<rparr>"

definition PutTenant :: "Tenant \<Rightarrow> AccountStore \<Rightarrow> AccountStore" where
  "PutTenant t s = s\<lparr>as_tenants := mput (tn_ID t) t (as_tenants s)\<rparr>"

definition GetTenant :: "string \<Rightarrow> AccountStore \<Rightarrow> billing_error + Tenant" where
  "GetTenant i s = (case map_of (as_tenants s) i of None \<Rightarrow> Inl ErrTenantNotFound | Some t \<Rightarrow> Inr t)"

type_synonym tenant_order = "(string, Tenant) gomap \<Rightarrow> (string, Tenant) gomap"

definition ListTenants :: "tenant_order \<Rightarrow> AccountStore \<Rightarrow> Tenant list" where
  "ListTenants ord s = map snd (ord (as_tenants s))"

definition UpdateTenant :: "time \<Rightarrow> Tenant \<Rightarrow> AccountStore \<Rightarrow> billing_error + AccountStore" where
  "UpdateTenant now t s =
     (case map_of (as_tenants s) (tn_ID t) of
        None \<Rightarrow> Inl ErrTenantNotFound
      | Some _ \<Rightarrow> Inr (s\<lparr>as_tenants := mput (tn_ID t) (t\<lparr>tn_UpdatedAt := now\<rparr>) (as_tenants s)\<rparr>))"

definition GetTenantByEmail :: "tenant_order \<Rightarrow> string \<Rightarrow> AccountStore \<Rightarrow> billing_error + Tenant" where
  "GetTenantByEmail ord email s =
     (case find (\<lambda>t. Email t = email \<and> tn_Status t \<noteq> TenantStatusDeleted) (map snd (ord (as_tenants s))) of
        None \<Rightarrow> Inl ErrTenantNotFound
      | Some t \<Rightarrow> Inr t)"

definition SuspendTenant :: "time \<Rightarrow> string \<Rightarrow> AccountStore \<Rightarrow> billing_error + AccountStore" where
  "SuspendTenant now i s =
     (case map_of (as_tenants s) i of
        None \<Rightarrow> Inl ErrTenantNotFound
      | Some t \<Rightarrow> Inr (s\<lparr>as_tenants := mput i (t\<lparr>tn_Status := TenantStatusSuspended, tn_UpdatedAt := now\<rparr>) (as_tenants s)\<rparr>))"

definition PutAPIKey :: "APIKey \<Rightarrow> AccountStore \<Rightarrow> AccountStore" where
  "PutAPIKey k s = s\<lparr>as_keys := mput (KeyHash k) k (as_keys s)\<rparr>"

definition GetAPIKeyByHash :: "string \<Rightarrow> AccountStore \<Rightarrow> billing_error + APIKey" where
  "GetAPIKeyByHash hash s = (case map_of (as_keys s) hash of None \<Rightarrow> Inl ErrAPIKeyNotFound | Some k \<Rightarrow> Inr k)"

type_synonym key_order = "(string, APIKey) gomap \<Rightarrow> (string, APIKey) gomap"

definition ListAPIKeys :: "key_order \<Rightarrow> string \<Rightarrow> AccountStore \<Rightarrow> APIKey list" where
  "ListAPIKeys ord tenantID s = filter (\<lambda>k. ak_TenantID k = tenantID) (map snd (ord (as_keys s)))"

definition ListAPIKeysActive :: "key_order \<Rightarrow> time \<Rightarrow> string \<Rightarrow> AccountStore \<Rightarrow> APIKey list" where
  "ListAPIKeysActive ord now tenantID s =
     filter (\<lambda>k. ak_TenantID k = tenantID \<and> KeyIsValid now k) (map snd (ord (as_keys s)))"

definition RevokeAPIKey :: "key_order \<Rightarrow> time \<Rightarrow> string \<Rightarrow> AccountStore \<Rightarrow> billing_error + AccountStore" where
  "RevokeAPIKey ord now i s =
     (case find (\<lambda>(_, k). ak_ID k = i) (ord (as_keys s)) of
        None \<Rightarrow> Inl ErrAPIKeyNotFound
      | Some (hash, k) \<Rightarrow> Inr (s\<lparr>as_keys := mput hash (k\<lparr>RevokedAt := Some now\<rparr>) (as_keys s)\<rparr>))"

definition PutEmailVerificationToken :: "string \<Rightarrow> string \<Rightarrow> string \<Rightarrow> time \<Rightarrow> AccountStore \<Rightarrow> AccountStore" where
  "PutEmailVerificationToken tokenHash tenantID email expiresAt s =
     s\<lparr>emailTokens := mput tokenHash \<lparr>et_tenantID = tenantID, et_email = email, et_expiresAt = expiresAt\<rparr> (emailTokens s)\<rparr>"

definition ConsumeEmailVerificationToken ::
  "time \<Rightarrow> string \<Rightarrow> AccountStore \<Rightarrow> (billing_error + string \<times> string) \<times> AccountStore" where
  "ConsumeEmailVerificationToken now tokenHash s =
     (let s' = s\<lparr>emailTokens := mdel tokenHash (emailTokens s)\<rparr>
      in case map_of (emailTokens s) tokenHash of
           None \<Rightarrow> (Inl ErrTokenNotFound, s')
         | Some tok \<Rightarrow>
             if now > et_expiresAt tok then (Inl ErrTokenNotFound, s')
             else (Inr (et_tenantID tok, et_email tok), s'))"

definition MarkTenantEmailVerified :: "time \<Rightarrow> string \<Rightarrow> time \<Rightarrow> AccountStore \<Rightarrow> billing_error + AccountStore" where
  "MarkTenantEmailVerified now tenantID verified s =
     (case map_of (as_tenants s) tenantID of
        None \<Rightarrow> Inl ErrTenantNotFound
      | Some t \<Rightarrow> Inr (s\<lparr>as_tenants := mput tenantID (t\<lparr>EmailVerifiedAt := Some verified, tn_UpdatedAt := now\<rparr>) (as_tenants s)\<rparr>))"

definition PutOAuthIdentity :: "string \<Rightarrow> string \<Rightarrow> string \<Rightarrow> AccountStore \<Rightarrow> AccountStore" where
  "PutOAuthIdentity provider sub tenantID s = s\<lparr>oauthIds := mput (provider @ '':'' @ sub) tenantID (oauthIds s)\<rparr>"

definition GetOAuthIdentityTenant :: "string \<Rightarrow> string \<Rightarrow> AccountStore \<Rightarrow> billing_error + string" where
  "GetOAuthIdentityTenant provider sub s =
     (case map_of (oauthIds s) (provider @ '':'' @ sub) of None \<Rightarrow> Inl ErrOAuthIdentityNotFound | Some i \<Rightarrow> Inr i)"

definition MarkStripeEventProcessed :: "string \<Rightarrow> AccountStore \<Rightarrow> bool \<times> AccountStore" where
  "MarkStripeEventProcessed eventID s =
     (case map_of (stripeEventsSeen s) eventID of
        Some _ \<Rightarrow> (False, s)
      | None \<Rightarrow> (True, s\<lparr>stripeEventsSeen := mput eventID () (stripeEventsSeen s)\<rparr>))"

section \<open>The limiter of failed authentications\<close>

record authBucket =
  ab_tokens :: rat
  ab_lastUpdate :: time
  ab_lastSeen :: time

type_synonym authLimiter = "(string, authBucket) gomap"

definition authBucketCapacity :: rat where "authBucketCapacity = 10"
definition authBucketRate :: rat where "authBucketRate = 1"
definition authBucketGCIdle :: duration where "authBucketGCIdle = 3600 * 1000000000"

text \<open>\<open>getOrCreate\<close> and \<open>refill\<close> change the bucket in place.\<close>

definition getOrCreate :: "time \<Rightarrow> string \<Rightarrow> authLimiter \<Rightarrow> authBucket" where
  "getOrCreate now ip al =
     (case map_of al ip of
        None \<Rightarrow> \<lparr>ab_tokens = authBucketCapacity, ab_lastUpdate = now, ab_lastSeen = now\<rparr>
      | Some b \<Rightarrow> b\<lparr>ab_lastSeen := now\<rparr>)"

definition refill :: "time \<Rightarrow> authBucket \<Rightarrow> authBucket" where
  "refill now b =
     (let elapsed = seconds (now - ab_lastUpdate b);
          b1 = b\<lparr>ab_lastUpdate := now, ab_tokens := ab_tokens b + elapsed * authBucketRate\<rparr>
      in if ab_tokens b1 > authBucketCapacity then b1\<lparr>ab_tokens := authBucketCapacity\<rparr> else b1)"

definition AuthAllow :: "time \<Rightarrow> string \<Rightarrow> authLimiter \<Rightarrow> bool \<times> authLimiter" where
  "AuthAllow now ip al = (let b = refill now (getOrCreate now ip al) in (ab_tokens b \<ge> 1, mput ip b al))"

definition Consume :: "time \<Rightarrow> string \<Rightarrow> authLimiter \<Rightarrow> authLimiter" where
  "Consume now ip al =
     (let b = refill now (getOrCreate now ip al)
      in mput ip (if ab_tokens b \<ge> 1 then b\<lparr>ab_tokens := ab_tokens b - 1\<rparr> else b) al)"

text \<open>One tick of \<open>gcLoop\<close>.\<close>

definition gc_tick :: "time \<Rightarrow> authLimiter \<Rightarrow> authLimiter" where
  "gc_tick now al = filter (\<lambda>(ip, b). \<not> ab_lastSeen b < now - authBucketGCIdle) al"

section \<open>The client address\<close>

text \<open>The parts of a request the middleware reads; a header that is not set is empty.\<close>

record http_request =
  URL_Path :: string
  Authorization :: string
  X_Real_IP :: string
  X_Forwarded_For :: string
  RemoteAddr :: string

definition is_blank :: "char \<Rightarrow> bool" where
  "is_blank c \<longleftrightarrow> c = CHR '' '' \<or> c = CHR 0x09"

definition trim :: "string \<Rightarrow> string" where
  "trim s = rev (dropWhile is_blank (rev (dropWhile is_blank s)))"

text \<open>The loop of \<open>splitHeader\<close>, with the text since \<open>start\<close> as its first argument.\<close>

fun split_loop :: "string \<Rightarrow> string \<Rightarrow> string list" where
  "split_loop seg [] = (if trim seg \<noteq> '''' then [trim seg] else [])"
| "split_loop seg (c # cs) =
     (if c = CHR '','' then (if trim seg \<noteq> '''' then [trim seg] else []) @ split_loop '''' cs
      else split_loop (seg @ [c]) cs)"

definition splitHeader :: "string \<Rightarrow> string list" where
  "splitHeader v = split_loop '''' v"

text \<open>The host part of \<open>net.SplitHostPort\<close>; \<open>None\<close> is an error.\<close>

definition SplitHostPort :: "string \<Rightarrow> string option" where
  "SplitHostPort hp =
     (if CHR '':'' \<notin> set hp then None
      else
        let i = length hp - 1 - length (takeWhile (\<lambda>c. c \<noteq> CHR '':'') (rev hp))
        in if hp ! 0 = CHR ''['' then
             if CHR '']'' \<notin> set hp then None
             else
               let e = length (takeWhile (\<lambda>c. c \<noteq> CHR '']'') hp)
               in if e + 1 \<noteq> i then None
                  else if CHR ''['' \<in> set (drop 1 hp) \<or> CHR '']'' \<in> set (drop (e + 1) hp) then None
                  else Some (drop 1 (take e hp))
           else if CHR '':'' \<in> set (take i hp) \<or> CHR ''['' \<in> set hp \<or> CHR '']'' \<in> set hp then None
           else Some (take i hp))"

definition realIP :: "http_request \<Rightarrow> string" where
  "realIP r =
     (if X_Real_IP r \<noteq> '''' then X_Real_IP r
      else
        let remote = (case SplitHostPort (RemoteAddr r) of None \<Rightarrow> RemoteAddr r | Some host \<Rightarrow> host)
        in if X_Forwarded_For r \<noteq> '''' then
             (case splitHeader (X_Forwarded_For r) of p # _ \<Rightarrow> p | [] \<Rightarrow> remote)
           else remote)"

section \<open>Middleware\<close>

text \<open>A request is handed to the next handler, with a tenant or without, or refused.\<close>

datatype outcome = Serve "Tenant option" | Refuse nat string

text \<open>The configured public base URL is an argument.\<close>

definition paymentRequiredMessage :: "string \<Rightarrow> string" where
  "paymentRequiredMessage env =
     (let base = rev (dropWhile (\<lambda>c. c = CHR ''/'') (rev env))
      in if base = '''' then ''payment required: update your payment method''
         else ''payment required: update your payment method at '' @ base @ ''/app/'')"

text \<open>The status checks after a tenant was found.\<close>

definition serve_tenant :: "string \<Rightarrow> Tenant \<Rightarrow> outcome" where
  "serve_tenant env tenant =
     (if BillingStatus tenant = ''incomplete'' \<or> BillingStatus tenant = ''past_due'' then Refuse 402 (paymentRequiredMessage env)
      else if \<not> IsActive tenant then Refuse 403 ''tenant account is suspended''
      else Serve (Some tenant))"

text \<open>The token of a bearer header.\<close>

definition bearer_token :: "string \<Rightarrow> string option" where
  "bearer_token header =
     (case SplitN2 (CHR '' '') header of
        [scheme, token] \<Rightarrow> if EqualFold scheme ''bearer'' then Some token else None
      | _ \<Rightarrow> None)"

text \<open>Resolving an API key: on failure, whether the failure is counted and the error text.\<close>

definition key_tenant :: "(string \<Rightarrow> string) \<Rightarrow> time \<Rightarrow> AccountStore \<Rightarrow> string \<Rightarrow> (bool \<times> string) + Tenant" where
  "key_tenant hashKey now s token =
     (case HashAPIKey hashKey token of
        Inl _ \<Rightarrow> Inl (True, ''invalid API key format'')
      | Inr hash \<Rightarrow>
          (case GetAPIKeyByHash hash s of
             Inl _ \<Rightarrow> Inl (True, ''invalid or unknown API key'')
           | Inr key \<Rightarrow>
               if \<not> KeyIsValid now key then Inl (True, ''API key has been revoked'')
               else case GetTenant (ak_TenantID key) s of
                 Inl _ \<Rightarrow> Inl (False, ''tenant not found'')
               | Inr t \<Rightarrow> Inr t))"

definition bearer_tenant ::
  "(string \<Rightarrow> string) \<Rightarrow> (string \<Rightarrow> string option) option \<Rightarrow> time \<Rightarrow> AccountStore \<Rightarrow> string \<Rightarrow> (bool \<times> string) + Tenant" where
  "bearer_tenant hashKey jwtVal now s token =
     (case (HasPrefix token ''eyJ'', jwtVal) of
        (True, Some validate) \<Rightarrow>
          (case validate token of
             None \<Rightarrow> Inl (True, ''invalid or expired access token'')
           | Some tenantID \<Rightarrow>
               (case GetTenant tenantID s of Inl _ \<Rightarrow> Inl (True, ''tenant not found'') | Inr t \<Rightarrow> Inr t))
      | _ \<Rightarrow>
          if IsAPIKeyToken token then key_tenant hashKey now s token
          else Inl (True, ''unrecognized token format''))"

definition authenticate ::
  "(time \<Rightarrow> AccountStore \<Rightarrow> string \<Rightarrow> (bool \<times> string) + Tenant) \<Rightarrow> string \<Rightarrow> string \<Rightarrow> bool \<Rightarrow> time \<Rightarrow> AccountStore
   \<Rightarrow> http_request \<Rightarrow> authLimiter \<Rightarrow> outcome \<times> authLimiter" where
  "authenticate resolve format env allowAnon now s r al0 =
     (let ip = realIP r; (ok, al) = AuthAllow now ip al0
      in if \<not> ok then (Refuse 429 ''too many failed authentication attempts'', al)
         else if Authorization r = '''' then
           if allowAnon then (Serve None, al) else (Refuse 401 ''missing Authorization header'', al)
         else case bearer_token (Authorization r) of
           None \<Rightarrow> (Refuse 401 format, Consume now ip al)
         | Some token \<Rightarrow>
             (case resolve now s token of
                Inl (counted, text) \<Rightarrow> (Refuse 401 text, if counted then Consume now ip al else al)
              | Inr tenant \<Rightarrow> (serve_tenant env tenant, al)))"

definition BearerMiddleware ::
  "(string \<Rightarrow> string) \<Rightarrow> (string \<Rightarrow> string option) option \<Rightarrow> string \<Rightarrow> bool \<Rightarrow> time \<Rightarrow> AccountStore
   \<Rightarrow> http_request \<Rightarrow> authLimiter \<Rightarrow> outcome \<times> authLimiter" where
  "BearerMiddleware hashKey jwtVal env allowAnon now s r al =
     (if HasPrefix (URL_Path r) ''/health'' \<or> HasPrefix (URL_Path r) ''/.well-known/'' \<or> HasPrefix (URL_Path r) ''/oauth/''
      then (Serve None, al)
      else authenticate (bearer_tenant hashKey jwtVal) ''invalid Authorization format; expected: Bearer <token>'' env allowAnon now s r al)"

definition APIKeyMiddleware ::
  "(string \<Rightarrow> string) \<Rightarrow> string \<Rightarrow> bool \<Rightarrow> time \<Rightarrow> AccountStore \<Rightarrow> http_request \<Rightarrow> authLimiter \<Rightarrow> outcome \<times> authLimiter" where
  "APIKeyMiddleware hashKey env allowAnon now s r al =
     (if HasPrefix (URL_Path r) ''/health'' \<or> HasPrefix (URL_Path r) ''/.well-known/'' then (Serve None, al)
      else authenticate (key_tenant hashKey) ''invalid Authorization format; expected: Bearer sk_live_...'' env allowAnon now s r al)"

record OAuthClaims =
  Subject :: string
  Issuer :: string
  claims_Email :: string

text \<open>
  The identity provider's validator gives an error text or claims; the new tenant's ID and seed
  are arguments. The middleware never reads the tenant of an earlier one.
\<close>

definition OAuth2Middleware ::
  "(string \<Rightarrow> string + OAuthClaims) \<Rightarrow> (string, QuotaConfig) gomap \<Rightarrow> string \<Rightarrow> bytes option \<Rightarrow> Plan \<Rightarrow> time
   \<Rightarrow> http_request \<Rightarrow> AccountStore \<Rightarrow> outcome \<times> AccountStore" where
  "OAuth2Middleware validator overrides newTenantID seed autoProvisionPlan now r s =
     (if Authorization r = '''' then (Serve None, s)
      else case bearer_token (Authorization r) of
        None \<Rightarrow> (Serve None, s)
      | Some token \<Rightarrow>
          if IsAPIKeyToken token then (Serve None, s)
          else case validator token of
            Inl err \<Rightarrow> (Refuse 401 (''invalid OAuth2 token: '' @ err), s)
          | Inr claims \<Rightarrow>
              let resolved =
                (case GetOAuthIdentityTenant (Issuer claims) (Subject claims) s of
                   Inr tenantID \<Rightarrow> Inr (tenantID, s)
                 | Inl err \<Rightarrow>
                     if err = ErrOAuthIdentityNotFound \<and> autoProvisionPlan \<noteq> '''' then
                       (case NewTenant overrides newTenantID seed now (claims_Email claims) (claims_Email claims) autoProvisionPlan of
                          None \<Rightarrow> Inl (Refuse 500 ''failed to create tenant'')
                        | Some t \<Rightarrow>
                            Inr (tn_ID t, PutOAuthIdentity (Issuer claims) (Subject claims) (tn_ID t) (PutTenant t s)))
                     else Inl (Refuse 403 ''OAuth identity not registered; contact support''))
              in case resolved of
                   Inl refusal \<Rightarrow> (refusal, s)
                 | Inr (tenantID, s') \<Rightarrow>
                     (case GetTenant tenantID s' of
                        Inl _ \<Rightarrow> (Refuse 401 ''tenant not found'', s')
                      | Inr tenant \<Rightarrow>
                          if \<not> IsActive tenant then (Refuse 403 ''tenant account is suspended'', s')
                          else (Serve (Some tenant), s')))"

text \<open>The chain the MCP server installs when an identity provider is configured.\<close>

definition mcp_auth_chain ::
  "(string \<Rightarrow> string + OAuthClaims) \<Rightarrow> (string, QuotaConfig) gomap \<Rightarrow> string \<Rightarrow> bytes option \<Rightarrow> Plan
   \<Rightarrow> (string \<Rightarrow> string) \<Rightarrow> (string \<Rightarrow> string option) option \<Rightarrow> string \<Rightarrow> time
   \<Rightarrow> http_request \<Rightarrow> AccountStore \<Rightarrow> authLimiter \<Rightarrow> outcome \<times> AccountStore \<times> authLimiter" where
  "mcp_auth_chain validator overrides newTenantID seed plan hashKey jwtVal env now r s al =
     (case OAuth2Middleware validator overrides newTenantID seed plan now r s of
        (Refuse code text, s') \<Rightarrow> (Refuse code text, s', al)
      | (Serve outer, s') \<Rightarrow>
          (case BearerMiddleware hashKey jwtVal env False now s' r al of
             (Refuse code text, al') \<Rightarrow> (Refuse code text, s', al')
           | (Serve inner, al') \<Rightarrow> (Serve (case inner of Some t \<Rightarrow> Some t | None \<Rightarrow> outer), s', al')))"

section \<open>Who is served\<close>

definition public_path :: "http_request \<Rightarrow> bool" where
  "public_path r \<longleftrightarrow> HasPrefix (URL_Path r) ''/health'' \<or> HasPrefix (URL_Path r) ''/.well-known/'' \<or> HasPrefix (URL_Path r) ''/oauth/''"

lemma IsAPIKeyToken_not_JWT: "IsAPIKeyToken token \<Longrightarrow> \<not> HasPrefix token ''eyJ''"
  by (auto simp: IsAPIKeyToken_def HasPrefix_iff)

lemma serve_tenant_iff:
  "serve_tenant env t = Serve u \<longleftrightarrow> u = Some t \<and> tn_Status t = TenantStatusActive \<and> BillingStatus t \<noteq> ''incomplete'' \<and> BillingStatus t \<noteq> ''past_due''"
  by (auto simp: serve_tenant_def IsActive_def)

lemma key_tenant_iff:
  "key_tenant hashKey now s token = Inr t \<longleftrightarrow> IsAPIKeyToken token
     \<and> (\<exists>k. map_of (as_keys s) (hashKey token) = Some k \<and> KeyIsValid now k \<and> map_of (as_tenants s) (ak_TenantID k) = Some t)"
  by (auto simp: key_tenant_def HashAPIKey_def IsAPIKeyToken_def GetAPIKeyByHash_def GetTenant_def split: option.splits if_splits)

lemma bearer_tenant_iff:
  "bearer_tenant hashKey jwtVal now s token = Inr t \<longleftrightarrow>
     (\<exists>validate i. HasPrefix token ''eyJ'' \<and> jwtVal = Some validate \<and> validate token = Some i \<and> map_of (as_tenants s) i = Some t)
     \<or> key_tenant hashKey now s token = Inr t"
  using IsAPIKeyToken_not_JWT [of token] key_tenant_iff [of hashKey now s token t]
  by (auto simp: bearer_tenant_def GetTenant_def split: option.splits bool.splits)

lemma authenticate_iff:
  "fst (authenticate resolve format env allowAnon now s r al) = Serve u \<longleftrightarrow>
     fst (AuthAllow now (realIP r) al)
     \<and> (if Authorization r = '''' then allowAnon \<and> u = None
        else \<exists>token t. bearer_token (Authorization r) = Some token \<and> resolve now s token = Inr t \<and> serve_tenant env t = Serve u)"
  by (auto simp: authenticate_def Let_def split_beta split: option.split sum.split)

text \<open>
  Property C23. Exactly the authenticated are served. Outside the public paths the bearer
  middleware hands a request on with tenant \<open>t\<close> exactly when the address has not exhausted its
  failed attempts, the request carries a bearer token that is either an access token the
  validator accepts for \<open>t\<close> or an API key whose hash is stored for \<open>t\<close>, neither revoked nor expired,
  and \<open>t\<close> is active and not behind with payment; and without a tenant exactly when the path is
  public or anonymous requests are allowed and the request carries no credentials.
\<close>

theorem BearerMiddleware_serves:
  "(fst (BearerMiddleware hashKey jwtVal env allowAnon now s r al) = Serve (Some t) \<longleftrightarrow>
      \<not> public_path r \<and> fst (AuthAllow now (realIP r) al) \<and> Authorization r \<noteq> ''''
      \<and> (\<exists>token. bearer_token (Authorization r) = Some token
          \<and> ((\<exists>validate i. HasPrefix token ''eyJ'' \<and> jwtVal = Some validate \<and> validate token = Some i \<and> map_of (as_tenants s) i = Some t)
             \<or> (\<exists>k. IsAPIKeyToken token \<and> map_of (as_keys s) (hashKey token) = Some k \<and> RevokedAt k = None
                  \<and> (case ak_ExpiresAt k of Some x \<Rightarrow> now \<le> x | None \<Rightarrow> True) \<and> map_of (as_tenants s) (ak_TenantID k) = Some t)))
      \<and> tn_Status t = TenantStatusActive \<and> BillingStatus t \<noteq> ''incomplete'' \<and> BillingStatus t \<noteq> ''past_due'')
   \<and> (fst (BearerMiddleware hashKey jwtVal env allowAnon now s r al) = Serve None \<longleftrightarrow>
      public_path r \<or> (fst (AuthAllow now (realIP r) al) \<and> Authorization r = '''' \<and> allowAnon))"
proof -
  have valid: "KeyIsValid now k \<longleftrightarrow> RevokedAt k = None \<and> (case ak_ExpiresAt k of Some x \<Rightarrow> now \<le> x | None \<Rightarrow> True)" for k
    by (auto simp: KeyIsValid_def split: option.split)
  show ?thesis
    unfolding BearerMiddleware_def public_path_def [symmetric]
    by (auto simp: authenticate_iff serve_tenant_iff bearer_tenant_iff key_tenant_iff valid)
qed

text \<open>
  Two issuers exclude each other. With an identity provider configured, the MCP server
  chains the two middlewares over the same header, so a token that is not an API key is served
  only if the identity provider's validator and the validator of the own authorization server
  both accept it; a token that only one of them accepts is refused.
\<close>

theorem mcp_chain_needs_both:
  assumes "bearer_token (Authorization r) = Some token" and "Authorization r \<noteq> ''''" and "\<not> IsAPIKeyToken token" and "\<not> public_path r"
  shows "(fst (mcp_auth_chain validator ov i seed plan hashKey jwtVal env now r s al) = Serve u \<longrightarrow>
      (\<exists>claims. validator token = Inr claims)
      \<and> (\<exists>validate tid. HasPrefix token ''eyJ'' \<and> jwtVal = Some validate \<and> validate token = Some tid))
    \<and> (validator token = Inl e \<or> jwtVal = None \<longrightarrow>
        (\<exists>code text. fst (mcp_auth_chain validator ov i seed plan hashKey jwtVal env now r s al) = Refuse code text))"
proof -
  let ?oauth = "OAuth2Middleware validator ov i seed plan now r s"
  let ?chain = "fst (mcp_auth_chain validator ov i seed plan hashKey jwtVal env now r s al)"
  have outer: "\<exists>claims. validator token = Inr claims" if "fst ?oauth = Serve v" for v
    using that assms(1-3) by (cases "validator token") (auto simp: OAuth2Middleware_def)
  have inner: "\<exists>validate tid. HasPrefix token ''eyJ'' \<and> jwtVal = Some validate \<and> validate token = Some tid"
    if "fst (BearerMiddleware hashKey jwtVal env False now s' r al) = Serve v" for s' v
    using that assms unfolding BearerMiddleware_def public_path_def [symmetric]
    by (auto simp: authenticate_iff bearer_tenant_iff key_tenant_iff)
  have both: "(\<exists>claims. validator token = Inr claims)
      \<and> (\<exists>validate tid. HasPrefix token ''eyJ'' \<and> jwtVal = Some validate \<and> validate token = Some tid)" if "?chain = Serve v" for v
    using that outer inner unfolding mcp_auth_chain_def
    by (auto split: prod.splits outcome.splits; metis fst_conv)
  moreover have "\<exists>code text. ?chain = Refuse code text" if "validator token = Inl e \<or> jwtVal = None"
    using that both by (cases ?chain) auto
  ultimately show ?thesis by blast
qed

definition sample_request :: "string \<Rightarrow> http_request" where
  "sample_request token = \<lparr>URL_Path = ''/mcp'', Authorization = ''Bearer '' @ token, X_Real_IP = '''', X_Forwarded_For = '''',
     RemoteAddr = ''192.0.2.1:4711''\<rparr>"

lemma EqualFold_Bearer: "EqualFold ''Bearer'' ''bearer''"
  by code_simp

lemma bearer_token_Bearer [simp]: "bearer_token (''Bearer '' @ token) = Some token"
  using EqualFold_Bearer by (simp add: bearer_token_def SplitN2_def)

theorem mcp_chain_needs_both_witness:
  "\<exists>code text. fst (mcp_auth_chain (\<lambda>t. Inr \<lparr>Subject = ''u'', Issuer = ''https://idp'', claims_Email = ''u@x''\<rparr>) [] ''t1'' (Some []) ''free''
     (\<lambda>t. t) None '''' 0 (sample_request ''eyJx'') NewAccountStore []) = Refuse code text"
  using mcp_chain_needs_both [of "sample_request ''eyJx''" "''eyJx''"]
  by (simp add: sample_request_def bearer_token_Bearer [simplified] IsAPIKeyToken_def public_path_def HasPrefix_def)

section \<open>The bound on failed attempts\<close>

text \<open>The tokens an address has at a time.\<close>

definition auth_level :: "time \<Rightarrow> authLimiter \<Rightarrow> string \<Rightarrow> rat" where
  "auth_level now al ip =
     (case map_of al ip of
        None \<Rightarrow> authBucketCapacity
      | Some b \<Rightarrow> min authBucketCapacity (ab_tokens b + seconds (now - ab_lastUpdate b)))"

definition auth_inv :: "time \<Rightarrow> authLimiter \<Rightarrow> bool" where
  "auth_inv now al \<longleftrightarrow> distinct (mkeys al)
     \<and> (\<forall>ip b. map_of al ip = Some b \<longrightarrow> 0 \<le> ab_tokens b \<and> ab_lastSeen b = ab_lastUpdate b \<and> ab_lastUpdate b \<le> now)"

lemma auth_invD:
  "auth_inv now al \<Longrightarrow> distinct (mkeys al)"
  "auth_inv now al \<Longrightarrow> map_of al ip = Some b \<Longrightarrow> 0 \<le> ab_tokens b \<and> ab_lastSeen b = ab_lastUpdate b \<and> ab_lastUpdate b \<le> now"
  by (auto simp: auth_inv_def)

lemma auth_inv_later: "auth_inv t0 al \<Longrightarrow> t0 \<le> now \<Longrightarrow> auth_inv now al"
  unfolding auth_inv_def by (meson order_trans)

lemma auth_inv_put:
  "auth_inv now al \<Longrightarrow> 0 \<le> ab_tokens b \<Longrightarrow> ab_lastSeen b = now \<Longrightarrow> ab_lastUpdate b = now \<Longrightarrow> auth_inv now (mput ip b al)"
  by (auto simp: auth_inv_def gomap)

lemma refill_fields [simp]: "ab_lastUpdate (refill now b) = now" "ab_lastSeen (refill now b) = ab_lastSeen b"
  by (simp_all add: refill_def Let_def)

lemma getOrCreate_fields [simp]: "ab_lastSeen (getOrCreate now ip al) = now"
  by (simp add: getOrCreate_def split: option.split)

lemma seconds_zero [simp]: "seconds 0 = 0"
  by (simp add: seconds_def)

lemma refilled_tokens: "ab_tokens (refill now (getOrCreate now ip al)) = auth_level now al ip"
  by (simp add: refill_def getOrCreate_def auth_level_def authBucketRate_def Let_def min_def split: option.split)

lemma auth_level_put:
  "ab_lastUpdate b = now \<Longrightarrow> auth_level now (mput ip b al) ip' = (if ip' = ip then min authBucketCapacity (ab_tokens b) else auth_level now al ip')"
  by (simp add: auth_level_def map_of_simps)

lemma auth_level_cap: "auth_level now al ip \<le> authBucketCapacity"
  by (simp add: auth_level_def split: option.split)

lemma auth_level_nonneg: "auth_inv now al \<Longrightarrow> 0 \<le> auth_level now al ip"
  using auth_invD(2) [of now al ip] seconds_mono [of _ now]
  by (auto simp: auth_level_def authBucketCapacity_def seconds_diff split: option.split)

lemma auth_level_later:
  assumes "t0 \<le> now"
  shows "auth_level now al ip \<le> auth_level t0 al ip + seconds (now - t0)"
  using seconds_mono [OF assms] by (auto simp: auth_level_def seconds_diff min_def split: option.split)

lemma AuthAllow_level:
  "fst (AuthAllow now ip al) \<longleftrightarrow> 1 \<le> auth_level now al ip"
  "auth_level now (snd (AuthAllow now ip al)) ip' = auth_level now al ip'"
  "auth_inv now al \<Longrightarrow> auth_inv now (snd (AuthAllow now ip al))"
  using auth_level_cap [of now al ip] auth_level_nonneg [of now al ip]
  by (auto simp: AuthAllow_def Let_def refilled_tokens auth_level_put min_def intro: auth_inv_put)

lemma Consume_level:
  "auth_level now (Consume now ip al) ip' = auth_level now al ip' - of_bool (ip' = ip \<and> 1 \<le> auth_level now al ip)"
  "auth_inv now al \<Longrightarrow> auth_inv now (Consume now ip al)"
  using auth_level_cap [of now al ip] auth_level_nonneg [of now al ip]
  by (auto simp: Consume_def Let_def refilled_tokens auth_level_put min_def intro: auth_inv_put)

text \<open>Dropping idle buckets changes nothing: an idle bucket is full.\<close>

lemma gc_tick_level:
  assumes "auth_inv now al"
  shows "auth_level now (gc_tick now al) ip = auth_level now al ip" "auth_inv now (gc_tick now al)"
proof -
  note gc = map_of_filter_distinct [OF auth_invD(1) [OF assms], of "\<lambda>(ip, b). \<not> ab_lastSeen b < now - authBucketGCIdle"]
  have "authBucketCapacity \<le> ab_tokens b + seconds (now - ab_lastUpdate b)"
    if "map_of al ip = Some b" "ab_lastSeen b < now - authBucketGCIdle" for b
  proof -
    have "3600 \<le> seconds (now - ab_lastUpdate b)"
      using auth_invD(2) [OF assms that(1)] that(2) by (auto simp: seconds_def authBucketGCIdle_def field_simps)
    then show ?thesis using auth_invD(2) [OF assms that(1)] by (simp add: authBucketCapacity_def)
  qed
  then show "auth_level now (gc_tick now al) ip = auth_level now al ip"
    by (auto simp: auth_level_def gc_tick_def gc min_def split: option.split)
  show "auth_inv now (gc_tick now al)"
    using assms by (auto simp: auth_inv_def gc_tick_def gc distinct_map_filter split: option.splits if_splits)
qed

text \<open>Credentials that do not authenticate, as the middleware counts them.\<close>

definition bad_credentials ::
  "(time \<Rightarrow> AccountStore \<Rightarrow> string \<Rightarrow> (bool \<times> string) + Tenant) \<Rightarrow> time \<Rightarrow> AccountStore \<Rightarrow> http_request \<Rightarrow> bool" where
  "bad_credentials resolve now s r \<longleftrightarrow> Authorization r \<noteq> ''''
     \<and> (case bearer_token (Authorization r) of
          None \<Rightarrow> True
        | Some token \<Rightarrow> (case resolve now s token of Inl (counted, _) \<Rightarrow> counted | Inr _ \<Rightarrow> False))"

text \<open>
  A history of requests and of ticks of the garbage collector, with the account store each request
  finds, and the attempts with bad credentials from an address that were looked at, that is not
  answered with 429.
\<close>

datatype auth_event = Request time AccountStore http_request | GC time

fun event_time :: "auth_event \<Rightarrow> time" where
  "event_time (Request now s r) = now"
| "event_time (GC now) = now"

fun auth_step ::
  "(string \<Rightarrow> string) \<Rightarrow> (string \<Rightarrow> string option) option \<Rightarrow> string \<Rightarrow> auth_event \<Rightarrow> authLimiter \<Rightarrow> outcome option \<times> authLimiter" where
  "auth_step hashKey jwtVal env (Request now s r) al =
     (let (res, al') = BearerMiddleware hashKey jwtVal env False now s r al in (Some res, al'))"
| "auth_step hashKey jwtVal env (GC now) al = (None, gc_tick now al)"

fun failed_attempt ::
  "(string \<Rightarrow> string) \<Rightarrow> (string \<Rightarrow> string option) option \<Rightarrow> string \<Rightarrow> auth_event \<Rightarrow> outcome option \<Rightarrow> bool" where
  "failed_attempt hashKey jwtVal ip (Request now s r) res \<longleftrightarrow>
     realIP r = ip \<and> \<not> public_path r \<and> bad_credentials (bearer_tenant hashKey jwtVal) now s r
     \<and> (case res of Some (Refuse code _) \<Rightarrow> code \<noteq> 429 | _ \<Rightarrow> True)"
| "failed_attempt hashKey jwtVal ip (GC now) res \<longleftrightarrow> False"

fun failed_attempts ::
  "(string \<Rightarrow> string) \<Rightarrow> (string \<Rightarrow> string option) option \<Rightarrow> string \<Rightarrow> string \<Rightarrow> auth_event list \<Rightarrow> authLimiter \<Rightarrow> nat" where
  "failed_attempts hashKey jwtVal env ip [] al = 0"
| "failed_attempts hashKey jwtVal env ip (ev # evs) al =
     (let (res, al') = auth_step hashKey jwtVal env ev al
      in of_bool (failed_attempt hashKey jwtVal ip ev res) + failed_attempts hashKey jwtVal env ip evs al')"

fun auth_outcomes ::
  "(string \<Rightarrow> string) \<Rightarrow> (string \<Rightarrow> string option) option \<Rightarrow> string \<Rightarrow> auth_event list \<Rightarrow> authLimiter \<Rightarrow> outcome option list" where
  "auth_outcomes hashKey jwtVal env [] al = []"
| "auth_outcomes hashKey jwtVal env (ev # evs) al =
     (let (res, al') = auth_step hashKey jwtVal env ev al in res # auth_outcomes hashKey jwtVal env evs al')"

lemma authenticate_level:
  assumes "auth_inv now al"
  shows "auth_inv now (snd (authenticate resolve format env False now s r al))"
    and "auth_level now (snd (authenticate resolve format env False now s r al)) ip = auth_level now al ip
        - of_bool (ip = realIP r \<and> bad_credentials resolve now s r \<and> 1 \<le> auth_level now al ip)"
    and "\<not> 1 \<le> auth_level now al (realIP r) \<Longrightarrow>
      fst (authenticate resolve format env False now s r al) = Refuse 429 ''too many failed authentication attempts''"
proof -
  note lv = AuthAllow_level [where now = now and al = al and ip = "realIP r"]
    Consume_level [where now = now and al = "snd (AuthAllow now (realIP r) al)" and ip = "realIP r"]
  show "auth_inv now (snd (authenticate resolve format env False now s r al))"
    using assms lv by (auto simp: authenticate_def Let_def split_beta split: option.split sum.split)
  show "auth_level now (snd (authenticate resolve format env False now s r al)) ip = auth_level now al ip
        - of_bool (ip = realIP r \<and> bad_credentials resolve now s r \<and> 1 \<le> auth_level now al ip)"
    using lv by (auto simp: authenticate_def bad_credentials_def Let_def split_beta split: option.split sum.split)
  show "\<not> 1 \<le> auth_level now al (realIP r) \<Longrightarrow>
      fst (authenticate resolve format env False now s r al) = Refuse 429 ''too many failed authentication attempts''"
    using lv by (simp add: authenticate_def Let_def split_beta)
qed

lemma auth_step_level:
  assumes "auth_inv (event_time ev) al"
  shows "auth_inv (event_time ev) (snd (auth_step hashKey jwtVal env ev al))"
    and "auth_level (event_time ev) (snd (auth_step hashKey jwtVal env ev al)) ip
      + of_bool (failed_attempt hashKey jwtVal ip ev (fst (auth_step hashKey jwtVal env ev al))) \<le> auth_level (event_time ev) al ip"
proof -
  consider (req) now s r where "ev = Request now s r" "\<not> public_path r" | (pub) now s r where "ev = Request now s r" "public_path r"
    | (gc) now where "ev = GC now"
    by (cases ev) blast+
  note cases = this
  show "auth_inv (event_time ev) (snd (auth_step hashKey jwtVal env ev al))"
    using cases by cases (use assms authenticate_level(1) gc_tick_level(2) in
      \<open>auto simp: BearerMiddleware_def public_path_def [symmetric] split_beta Let_def\<close>)
  show "auth_level (event_time ev) (snd (auth_step hashKey jwtVal env ev al)) ip
      + of_bool (failed_attempt hashKey jwtVal ip ev (fst (auth_step hashKey jwtVal env ev al))) \<le> auth_level (event_time ev) al ip"
    using cases
  proof cases
    case req
    note lv = authenticate_level(2,3) [where now = now and al = al and resolve = "bearer_tenant hashKey jwtVal"
        and format = "''invalid Authorization format; expected: Bearer <token>''" and env = env and s = s and r = r]
    show ?thesis
      using req assms lv(1) [of ip] lv(2)
      by (cases "1 \<le> auth_level now al (realIP r)")
        (auto simp: BearerMiddleware_def public_path_def [symmetric] split_beta Let_def)
  qed (use assms gc_tick_level(1) in \<open>auto simp: BearerMiddleware_def public_path_def [symmetric]\<close>)
qed



lemma serve_tenant_code: "serve_tenant env t = Refuse code msg \<Longrightarrow> code = 402 \<or> code = 403"
  by (auto simp: serve_tenant_def split: if_splits)

lemma authenticate_looks:
  assumes "1 \<le> auth_level now al (realIP r)"
  shows "fst (authenticate resolve format env allowAnon now s r al) \<noteq> Refuse 429 msg"
proof -
  have "fst (AuthAllow now (realIP r) al)" using assms by (simp add: AuthAllow_level)
  then show ?thesis
    using serve_tenant_code [of env _ 429 msg]
    by (auto simp: authenticate_def Let_def split_beta split: option.split sum.split)
qed

lemma authenticate_frame:
  assumes "i \<noteq> realIP r"
  shows "map_of (snd (authenticate resolve format env allowAnon now s r al)) i = map_of al i"
proof -
  have "map_of (snd (AuthAllow now (realIP r) al)) i = map_of al i"
      "map_of (Consume now (realIP r) al') i = map_of al' i" for al'
    using assms by (simp_all add: AuthAllow_def Consume_def Let_def map_of_simps)
  then show ?thesis by (simp add: authenticate_def Let_def split_beta split: option.split sum.split)
qed

text \<open>
  The address is what the client says. The limiter keys on the header \<open>X-Real-IP\<close>
  whoever sent it: requests that carry a different value each time are never answered with 429,
  however many of them fail and whatever connection they come from.
\<close>

theorem spoofed_addresses_unlimited:
  assumes "distinct (map (\<lambda>(now, s, r). X_Real_IP r) reqs)" and "\<forall>(now, s, r) \<in> set reqs. X_Real_IP r \<noteq> '''' \<and> map_of al (X_Real_IP r) = None"
  shows "\<forall>res \<in> set (auth_outcomes hashKey jwtVal env (map (\<lambda>(now, s, r). Request now s r) reqs) al). \<forall>text. res \<noteq> Some (Refuse 429 text)"
  using assms
proof (induction reqs arbitrary: al)
  case (Cons q reqs)
  obtain now s r where q: "q = (now, s, r)" by (cases q)
  let ?out = "BearerMiddleware hashKey jwtVal env False now s r al"
  have "X_Real_IP r \<noteq> ''''" "map_of al (X_Real_IP r) = None" using Cons.prems(2) by (simp_all add: q)
  then have ip: "realIP r = X_Real_IP r" "map_of al (realIP r) = None" by (simp_all add: realIP_def)
  have "1 \<le> auth_level now al (realIP r)" using ip(2) by (simp add: auth_level_def authBucketCapacity_def)
  from authenticate_looks [OF this] have "fst ?out \<noteq> Refuse 429 msg" for msg by (simp add: BearerMiddleware_def)
  have "map_of (snd ?out) i = map_of al i" if "i \<noteq> X_Real_IP r" for i
    using authenticate_frame [of i r] that ip(1) by (simp add: BearerMiddleware_def)
  then have "\<forall>(now, s, r) \<in> set reqs. X_Real_IP r \<noteq> '''' \<and> map_of (snd ?out) (X_Real_IP r) = None"
  proof (intro ballI)
    fix p
    assume p: "p \<in> set reqs"
    obtain n s' r' where p': "p = (n, s', r')" by (cases p)
    have "X_Real_IP r' \<noteq> X_Real_IP r" using Cons.prems(1) p unfolding p' q by (auto simp: image_iff)
    moreover have "X_Real_IP r' \<noteq> ''''" "map_of al (X_Real_IP r') = None" using Cons.prems(2) p unfolding p' by auto
    ultimately show "case p of (now, s, r) \<Rightarrow> X_Real_IP r \<noteq> '''' \<and> map_of (snd ?out) (X_Real_IP r) = None"
      using \<open>\<And>i. i \<noteq> X_Real_IP r \<Longrightarrow> map_of (snd ?out) i = map_of al i\<close> by (simp add: p')
  qed
  note IH = Cons.IH [OF _ this]
  have "distinct (map (\<lambda>(now, s, r). X_Real_IP r) reqs)" using Cons.prems(1) by simp
  note IH [OF this]
  moreover obtain res al' where out: "?out = (res, al')" by (cases ?out)
  ultimately show ?case using \<open>\<And>msg. fst ?out \<noteq> Refuse 429 msg\<close> by (simp add: q out)
qed simp

theorem spoofed_addresses_unlimited_witness:
  "auth_outcomes (\<lambda>t. t) None '''' (map (\<lambda>n. Request 0 NewAccountStore ((sample_request ''sk_live_guess'')\<lparr>X_Real_IP := replicate n (CHR ''1'')\<rparr>)) [1..<100]) []
     ! 50 \<noteq> Some (Refuse 429 ''too many failed authentication attempts'')"
proof -
  let ?q = "\<lambda>n. (0 :: time, NewAccountStore, (sample_request ''sk_live_guess'')\<lparr>X_Real_IP := replicate n (CHR ''1'')\<rparr>)"
  have "distinct (map (\<lambda>(now, s, r). X_Real_IP r) (map ?q [1..<100]))"
    by (simp add: distinct_map inj_on_def replicate_eq_replicate del: upt_rec_numeral)
  moreover have "\<forall>(now, s, r) \<in> set (map ?q [1..<100]). X_Real_IP r \<noteq> '''' \<and> map_of [] (X_Real_IP r) = None"
    by (auto simp del: upt_rec_numeral)
  ultimately have "\<forall>res \<in> set (auth_outcomes (\<lambda>t. t) None '''' (map (\<lambda>(now, s, r). Request now s r) (map ?q [1..<100])) []).
      \<forall>text. res \<noteq> Some (Refuse 429 text)"
    by (rule spoofed_addresses_unlimited)
  moreover have "length (auth_outcomes (\<lambda>t. t) None '''' evs al) = length evs" for evs al
    by (induction evs arbitrary: al) (simp_all add: split_beta Let_def)
  ultimately show ?thesis by (auto simp: all_set_conv_all_nth o_def simp del: upt_rec_numeral)
qed

section \<open>Issued keys\<close>

lemma base64url_length: "length (base64url bs) = (4 * length bs + 2) div 3"
proof (induction bs rule: base64url.induct)
  case (1 a b c bs)
  have "length (base64url (a # b # c # bs)) = 4 + length (base64url bs)" by (simp add: Let_def)
  moreover have "(4 * length (a # b # c # bs) + 2) div 3 = 4 + (4 * length bs + 2) div 3" by simp
  ultimately show ?case using 1 by simp
qed (simp_all add: Let_def)

lemma GenerateAPIKey_text:
  assumes "length raw = 32"
  shows "GenerateAPIKey hashKey menv (Some raw) idRandom created tenantID nm = Some (keyEnvPrefix menv @ base64url raw,
      \<lparr>ak_ID = newID idRandom ''k'', ak_TenantID = tenantID, ak_Name = nm, KeyHash = hashKey (keyEnvPrefix menv @ base64url raw),
       ak_Prefix = take 8 (base64url raw), ak_CreatedAt = created, ak_ExpiresAt = None, RevokedAt = None\<rparr>)"
    and "length (keyEnvPrefix menv @ base64url raw) = 51" and "IsAPIKeyToken (keyEnvPrefix menv @ base64url raw)"
proof -
  have len: "length (base64url raw) = 43" by (simp add: base64url_length assms)
  then show "GenerateAPIKey hashKey menv (Some raw) idRandom created tenantID nm = Some (keyEnvPrefix menv @ base64url raw,
      \<lparr>ak_ID = newID idRandom ''k'', ak_TenantID = tenantID, ak_Name = nm, KeyHash = hashKey (keyEnvPrefix menv @ base64url raw),
       ak_Prefix = take 8 (base64url raw), ak_CreatedAt = created, ak_ExpiresAt = None, RevokedAt = None\<rparr>)"
    by (simp add: GenerateAPIKey_def Let_def)
  have "length (keyEnvPrefix menv) = 8" by (simp add: keyEnvPrefix_def)
  then show "length (keyEnvPrefix menv @ base64url raw) = 51" using len by simp
  have "HasPrefix (p @ u) p" for p u by (auto simp: HasPrefix_iff)
  then show "IsAPIKeyToken (keyEnvPrefix menv @ base64url raw)" unfolding IsAPIKeyToken_def keyEnvPrefix_def by presburger
qed

text \<open>The answer to a request with an API key, when its address is not exhausted.\<close>

lemma key_request:
  assumes "Authorization r = ''Bearer '' @ token" and "IsAPIKeyToken token" and "\<not> public_path r" and "1 \<le> auth_level now al (realIP r)"
  shows "fst (BearerMiddleware hashKey jwtVal env allowAnon now s r al) =
    (case key_tenant hashKey now s token of Inl (_, msg) \<Rightarrow> Refuse 401 msg | Inr t \<Rightarrow> serve_tenant env t)"
proof -
  have tenant: "bearer_tenant hashKey jwtVal now s token = key_tenant hashKey now s token"
    using assms(2) IsAPIKeyToken_not_JWT [OF assms(2)] by (simp add: bearer_tenant_def)
  have allow: "fst (AuthAllow now (realIP r) al)" using assms(4) by (simp add: AuthAllow_level)
  have header: "Authorization r \<noteq> ''''" "bearer_token (Authorization r) = Some token"
    unfolding assms(1) by (simp, rule bearer_token_Bearer)
  show ?thesis
    using assms(3) unfolding BearerMiddleware_def public_path_def [symmetric] authenticate_def Let_def
    by (simp add: header tenant allow split_beta split: sum.split)
qed

text \<open>
  Property C25. An issued key works until it is revoked. A key generated from 32 random bytes has
  43 characters after its prefix; once stored it authenticates its tenant if that is active and
  paid, unless the address is exhausted; and after its revocation requests with it are refused.
\<close>

theorem issued_key_lifecycle:
  assumes raw: "length raw = 32" and tenant: "map_of (as_tenants s) tenantID = Some t" "tn_Status t = TenantStatusActive" "BillingStatus t = ''active''"
    and req: "\<not> public_path r" "1 \<le> auth_level now al (realIP r)" and ord: "range_order ord"
    and fresh: "\<forall>k \<in> set (map snd (as_keys s)). ak_ID k \<noteq> newID idRandom ''k''" "distinct (mkeys (as_keys s))"
  shows "\<exists>plaintext k. GenerateAPIKey hashKey menv (Some raw) idRandom created tenantID nm = Some (plaintext, k)
    \<and> length plaintext = 51 \<and> IsAPIKeyToken plaintext
    \<and> (Authorization r = ''Bearer '' @ plaintext \<longrightarrow>
         fst (BearerMiddleware hashKey jwtVal env False now (PutAPIKey k s) r al) = Serve (Some t)
       \<and> (\<exists>s'. RevokeAPIKey ord now (ak_ID k) (PutAPIKey k s) = Inr s'
            \<and> fst (BearerMiddleware hashKey jwtVal env False now s' r al) = Refuse 401 ''API key has been revoked''))"
proof -
  define plain where "plain = keyEnvPrefix menv @ base64url raw"
  define k where "k = \<lparr>ak_ID = newID idRandom ''k'', ak_TenantID = tenantID, ak_Name = nm, KeyHash = hashKey plain,
       ak_Prefix = take 8 (base64url raw), ak_CreatedAt = created, ak_ExpiresAt = None, RevokedAt = None\<rparr>"
  note gen = GenerateAPIKey_text [OF raw, where menv = menv, folded plain_def]
  have gen1: "GenerateAPIKey hashKey menv (Some raw) idRandom created tenantID nm = Some (plain, k)" unfolding k_def by (rule gen(1))
  have fields: "ak_ID k = newID idRandom ''k''" "ak_TenantID k = tenantID" "KeyHash k = hashKey plain" "KeyIsValid now k"
    by (simp_all add: k_def KeyIsValid_def)
  define ks where "ks = mput (hashKey plain) k (as_keys s)"
  have s: "PutAPIKey k s = s\<lparr>as_keys := ks\<rparr>" by (simp add: PutAPIKey_def fields ks_def)
  have key: "map_of ks (hashKey plain) = Some k" by (simp add: ks_def map_of_simps)
  have hash: "HashAPIKey hashKey plain = Inr (hashKey plain)" using gen(3) by (simp add: HashAPIKey_def IsAPIKeyToken_def)
  have uniq: "q = (hashKey plain, k)" if "q \<in> set (ord ks)" "case q of (_, k) \<Rightarrow> ak_ID k = newID idRandom ''k''" for q
  proof -
    have "q = (hashKey plain, k) \<or> q \<in> set (as_keys s)"
      using that(1) unfolding range_order_set [OF ord] ks_def set_mput [OF fresh(2)] by blast
    then show ?thesis using fresh(1) that(2) by (auto split: prod.splits)
  qed
  have "(hashKey plain, k) \<in> set (ord ks)" unfolding range_order_set [OF ord] by (rule map_of_SomeD [OF key])
  moreover have "case (hashKey plain, k) of (_, k) \<Rightarrow> ak_ID k = newID idRandom ''k''" by (simp add: fields)
  ultimately have find: "find (\<lambda>(_, k). ak_ID k = newID idRandom ''k'') (ord ks) = Some (hashKey plain, k)"
    by (rule find_unique) (rule uniq)
  let ?s' = "s\<lparr>as_keys := mput (hashKey plain) (k\<lparr>RevokedAt := Some now\<rparr>) ks\<rparr>"
  have revoke: "RevokeAPIKey ord now (ak_ID k) (PutAPIKey k s) = Inr ?s'" by (simp add: RevokeAPIKey_def s find fields)
  have served: "key_tenant hashKey now (PutAPIKey k s) plain = Inr t"
    by (simp add: key_tenant_def hash GetAPIKeyByHash_def s key fields GetTenant_def tenant(1))
  have refused: "key_tenant hashKey now ?s' plain = Inl (True, ''API key has been revoked'')"
    by (simp add: key_tenant_def hash GetAPIKeyByHash_def map_of_simps KeyIsValid_def)
  have serve: "serve_tenant env t = Serve (Some t)" by (simp add: serve_tenant_iff tenant)
  have "fst (BearerMiddleware hashKey jwtVal env False now (PutAPIKey k s) r al) = Serve (Some t)
      \<and> fst (BearerMiddleware hashKey jwtVal env False now ?s' r al) = Refuse 401 ''API key has been revoked''"
    if "Authorization r = ''Bearer '' @ plain"
    unfolding key_request [OF that gen(3) req] served refused by (simp add: serve)
  with gen1 gen(2,3) revoke show ?thesis by blast
qed

theorem issued_key_lifecycle_witness:
  "\<exists>plaintext k. GenerateAPIKey (\<lambda>t. t) '''' (Some (replicate 32 1)) 7 0 ''t1'' ''laptop'' = Some (plaintext, k)
     \<and> fst (BearerMiddleware (\<lambda>t. t) None '''' False 0
         (PutAPIKey k (PutTenant (sample_tenant ''t1'' 1 2) NewAccountStore)) (sample_request plaintext) []) = Serve (Some (sample_tenant ''t1'' 1 2))"
proof -
  let ?raw = "replicate 32 1 :: bytes" and ?t = "sample_tenant ''t1'' 1 2"
  define plain where "plain = keyEnvPrefix '''' @ base64url ?raw"
  let ?r = "sample_request plain" and ?s = "PutTenant ?t NewAccountStore"
  have t: "map_of (as_tenants ?s) ''t1'' = Some ?t" "tn_Status ?t = TenantStatusActive" "BillingStatus ?t = ''active''"
    by (simp_all add: PutTenant_def NewAccountStore_def sample_tenant_def NewTenant_def)
  have r: "\<not> public_path ?r" "1 \<le> auth_level 0 [] (realIP ?r)" "Authorization ?r = ''Bearer '' @ plain"
    by (simp_all add: sample_request_def public_path_def HasPrefix_def auth_level_def authBucketCapacity_def)
  have keys: "as_keys ?s = []" by (simp add: PutTenant_def NewAccountStore_def)
  obtain p k where *: "GenerateAPIKey (\<lambda>t. t) '''' (Some ?raw) 7 0 ''t1'' ''laptop'' = Some (p, k)"
      "Authorization ?r = ''Bearer '' @ p \<longrightarrow> fst (BearerMiddleware (\<lambda>t. t) None '''' False 0 (PutAPIKey k ?s) ?r []) = Serve (Some ?t)"
    using issued_key_lifecycle [of ?raw ?s "''t1''" ?t ?r 0 "[]" "\<lambda>m. m" 7 "\<lambda>t. t" "''''" 0 "''laptop''" None "''''", OF _ t r(1,2) range_order_id] keys
    by auto
  then have "p = plain" using GenerateAPIKey_text(1) [of ?raw "\<lambda>t. t" "''''" 7 0 "''t1''" "''laptop''"] by (simp add: plain_def)
  with * r(3) show ?thesis by blast
qed

end
