(* ===== verification/Billing_Meter.thy ===== *)
theory Billing_Meter
  imports Billing_Accounts
begin

text \<open>
  The usage meter (\<open>pkg/billing/meter.go\<close>, \<open>errors.go\<close>), the quota notifications
  (\<open>notifier.go\<close>), the reconciliation with Stripe (\<open>reconciler.go\<close>) and the aggregates table
  the meter is flushed to and restored from (\<open>store.go\<close>). Counters are 64-bit integers;
  ratios are exact. Metrics and logging are left out. A notification the code sends from a
  goroutine is an entry of the meter's outbox.
\<close>

section \<open>Counters\<close>

type_synonym UsageEvent = string

abbreviation EventToolCall :: UsageEvent where "EventToolCall \<equiv> ''tool_call''"
abbreviation EventMessage :: UsageEvent where "EventMessage \<equiv> ''message''"

definition periodKey :: "time \<Rightarrow> string" where
  "periodKey t = padded 4 (Year t) @ ''-'' @ padded 2 (Month t)"

record counterKey =
  ck_tenantID :: string
  ck_period :: string
  ck_event :: UsageEvent

type_synonym int64 = "64 word"

record auditEvent =
  ae_tenantID :: string
  ae_event :: string
  toolName :: string
  requestID :: string

record NotifyEvent =
  ne_TenantID :: string
  ne_Period :: string
  ne_Event :: UsageEvent
  EventType :: string
  ne_Current :: int
  Limit :: int
  Ratio :: rat
  ne_Timestamp :: time

record notifierState =
  lastNotified :: "(counterKey, rat) gomap"
  warnThreshold :: rat

text \<open>
  The channel to the audit writer is nil without a store; the outbox is absent without a notifier.
\<close>

record UsageMeter =
  counters :: "(counterKey, int64) gomap"
  eventCh :: "auditEvent list option"
  notifySt :: "notifierState option"
  outbox :: "NotifyEvent list"

definition NewUsageMeter :: UsageMeter where
  "NewUsageMeter = \<lparr>counters = [], eventCh = None, notifySt = None, outbox = []\<rparr>"

text \<open>The parsed value of \<open>BILLING_QUOTA_WARN_RATIO\<close>, if it is set and parses, is an argument.\<close>

definition newNotifierState :: "rat option \<Rightarrow> notifierState" where
  "newNotifierState env =
     \<lparr>lastNotified = [],
      warnThreshold = (case env of Some f \<Rightarrow> if 0 < f \<and> f < 1 then f else 8 / 10 | None \<Rightarrow> 8 / 10)\<rparr>"

definition WithNotifier :: "rat option \<Rightarrow> UsageMeter \<Rightarrow> UsageMeter" where
  "WithNotifier env m = m\<lparr>notifySt := Some (newNotifierState env)\<rparr>"

definition shouldNotify :: "counterKey \<Rightarrow> rat \<Rightarrow> notifierState \<Rightarrow> string option \<times> notifierState" where
  "shouldNotify k ratio ns =
     (let last = (case map_of (lastNotified ns) k of Some r \<Rightarrow> r | None \<Rightarrow> 0)
      in if ratio \<ge> 1 \<and> last < 1 then (Some ''quota_exceeded'', ns\<lparr>lastNotified := mput k ratio (lastNotified ns)\<rparr>)
         else if ratio \<ge> warnThreshold ns \<and> ratio < 1 \<and> last < warnThreshold ns
         then (Some ''quota_warning'', ns\<lparr>lastNotified := mput k ratio (lastNotified ns)\<rparr>)
         else (None, ns))"

definition counter_key :: "time \<Rightarrow> string \<Rightarrow> UsageEvent \<Rightarrow> counterKey" where
  "counter_key now tenantID event = \<lparr>ck_tenantID = tenantID, ck_period = periodKey now, ck_event = event\<rparr>"

definition maybeNotify :: "time \<Rightarrow> string \<Rightarrow> UsageEvent \<Rightarrow> int \<Rightarrow> rat \<Rightarrow> UsageMeter \<Rightarrow> UsageMeter" where
  "maybeNotify now tenantID event limit ratio m =
     (case notifySt m of
        None \<Rightarrow> m
      | Some ns \<Rightarrow>
          (case shouldNotify (counter_key now tenantID event) ratio ns of
             (None, ns') \<Rightarrow> m\<lparr>notifySt := Some ns'\<rparr>
           | (Some evType, ns') \<Rightarrow>
               m\<lparr>notifySt := Some ns',
                 outbox := outbox m @ [\<lparr>ne_TenantID = tenantID, ne_Period = periodKey now, ne_Event = event, EventType = evType,
                   ne_Current = truncate_rat (ratio * of_int limit), Limit = limit, Ratio = ratio, ne_Timestamp = now\<rparr>]\<rparr>))"

text \<open>\<open>getOrCreateCounter\<close>: the meter with the counter in it, and its value.\<close>

definition getOrCreateCounter :: "counterKey \<Rightarrow> UsageMeter \<Rightarrow> int64 \<times> UsageMeter" where
  "getOrCreateCounter k m =
     (case map_of (counters m) k of
        Some c \<Rightarrow> (c, m)
      | None \<Rightarrow> (0, m\<lparr>counters := mput k 0 (counters m)\<rparr>))"

definition counter_Add :: "counterKey \<Rightarrow> int64 \<Rightarrow> UsageMeter \<Rightarrow> int64 \<times> UsageMeter" where
  "counter_Add k delta m =
     (let (c, m1) = getOrCreateCounter k m; v = c + delta in (v, m1\<lparr>counters := mput k v (counters m1)\<rparr>))"

definition Record :: "time \<Rightarrow> string \<Rightarrow> UsageEvent \<Rightarrow> int64 \<Rightarrow> UsageMeter \<Rightarrow> UsageMeter" where
  "Record now tenantID event delta m = snd (counter_Add (counter_key now tenantID event) delta m)"

text \<open>The test of \<open>TryConsume\<close> on the new value.\<close>

definition over_limit :: "int64 \<Rightarrow> int64 \<Rightarrow> bool" where
  "over_limit limit newVal \<longleftrightarrow> sint limit > 0 \<and> sint newVal > sint limit"

definition TryConsume :: "time \<Rightarrow> string \<Rightarrow> UsageEvent \<Rightarrow> int64 \<Rightarrow> int64 \<Rightarrow> UsageMeter \<Rightarrow> bool \<times> UsageMeter" where
  "TryConsume now tenantID event limit delta m =
     (let k = counter_key now tenantID event; (newVal, m1) = counter_Add k delta m
      in if over_limit limit newVal then
           (False, maybeNotify now tenantID event (sint limit) 1 (snd (counter_Add k (- delta) m1)))
         else if sint limit > 0 then
           (True, maybeNotify now tenantID event (sint limit) (of_int (sint newVal) / of_int (sint limit)) m1)
         else (True, m1))"

definition ReleaseQuota :: "time \<Rightarrow> string \<Rightarrow> UsageEvent \<Rightarrow> int64 \<Rightarrow> UsageMeter \<Rightarrow> UsageMeter" where
  "ReleaseQuota now tenantID event delta m = snd (counter_Add (counter_key now tenantID event) (- delta) m)"

definition audit_capacity :: nat where "audit_capacity = 1000"

definition queueAudit :: "string \<Rightarrow> UsageEvent \<Rightarrow> string \<Rightarrow> string \<Rightarrow> UsageMeter \<Rightarrow> UsageMeter" where
  "queueAudit tenantID event tool request m =
     (case eventCh m of
        None \<Rightarrow> m
      | Some ch \<Rightarrow>
          if length ch < audit_capacity
          then m\<lparr>eventCh := Some (ch @ [\<lparr>ae_tenantID = tenantID, ae_event = event, toolName = tool, requestID = request\<rparr>])\<rparr>
          else m)"

definition RecordAudit :: "time \<Rightarrow> string \<Rightarrow> UsageEvent \<Rightarrow> string \<Rightarrow> string \<Rightarrow> int64 \<Rightarrow> UsageMeter \<Rightarrow> UsageMeter" where
  "RecordAudit now tenantID event tool request delta m = queueAudit tenantID event tool request (Record now tenantID event delta m)"

definition ResetTenant :: "time \<Rightarrow> string \<Rightarrow> UsageMeter \<Rightarrow> UsageMeter" where
  "ResetTenant now tenantID m =
     m\<lparr>counters := map (\<lambda>(k, c). (k, if ck_tenantID k = tenantID \<and> ck_period k = periodKey now then 0 else c)) (counters m)\<rparr>"

definition Current :: "time \<Rightarrow> string \<Rightarrow> UsageEvent \<Rightarrow> UsageMeter \<Rightarrow> int64" where
  "Current now tenantID event m =
     (case map_of (counters m) (counter_key now tenantID event) of None \<Rightarrow> 0 | Some c \<Rightarrow> c)"

definition CheckQuota :: "time \<Rightarrow> string \<Rightarrow> UsageEvent \<Rightarrow> int64 \<Rightarrow> UsageMeter \<Rightarrow> bool" where
  "CheckQuota now tenantID event limit m =
     (if sint limit \<le> 0 then True else \<not> sint (Current now tenantID event m) \<ge> sint limit)"

section \<open>Aggregates\<close>

record UsageSnapshot =
  us_TenantID :: string
  us_Period :: string
  us_Event :: UsageEvent
  us_Count :: int64

definition Snapshot :: "((counterKey, int64) gomap \<Rightarrow> (counterKey, int64) gomap) \<Rightarrow> UsageMeter \<Rightarrow> UsageSnapshot list" where
  "Snapshot ord m =
     map (\<lambda>(k, c). \<lparr>us_TenantID = ck_tenantID k, us_Period = ck_period k, us_Event = ck_event k, us_Count = c\<rparr>)
       (filter (\<lambda>(k, c). sint c > 0) (ord (counters m)))"

text \<open>The rows of \<open>usage_aggregates\<close>, unique in tenant, period and event.\<close>

type_synonym aggregates = "(counterKey, int64) gomap"

definition snapshot_key :: "UsageSnapshot \<Rightarrow> counterKey" where
  "snapshot_key s = \<lparr>ck_tenantID = us_TenantID s, ck_period = us_Period s, ck_event = us_Event s\<rparr>"

definition FlushAggregates :: "UsageSnapshot list \<Rightarrow> aggregates \<Rightarrow> aggregates" where
  "FlushAggregates snaps db = fold (\<lambda>s. mput (snapshot_key s) (us_Count s)) snaps db"

definition LoadAggregates :: "aggregates \<Rightarrow> UsageSnapshot list" where
  "LoadAggregates db =
     map (\<lambda>(k, c). \<lparr>us_TenantID = ck_tenantID k, us_Period = ck_period k, us_Event = ck_event k, us_Count = c\<rparr>) db"

definition restore_one :: "UsageSnapshot \<Rightarrow> UsageMeter \<Rightarrow> UsageMeter" where
  "restore_one s m =
     (case map_of (counters m) (snapshot_key s) of
        Some _ \<Rightarrow> m
      | None \<Rightarrow> m\<lparr>counters := mput (snapshot_key s) (us_Count s) (counters m)\<rparr>)"

definition RestoreFromAggregates :: "aggregates \<Rightarrow> UsageMeter \<Rightarrow> UsageMeter" where
  "RestoreFromAggregates db m = fold restore_one (LoadAggregates db) m"

definition ExportCSV :: "string \<Rightarrow> aggregates \<Rightarrow> string" where
  "ExportCSV period db =
     ''tenant_id,period,event,count'' @ [CHR 0x0A]
     @ concat (map (\<lambda>s. us_TenantID s @ '','' @ us_Period s @ '','' @ us_Event s @ '','' @ int_string (sint (us_Count s)) @ [CHR 0x0A])
         (filter (\<lambda>s. \<not> (period \<noteq> '''' \<and> us_Period s \<noteq> period)) (LoadAggregates db)))"

section \<open>The audit writer\<close>

text \<open>The goroutine \<open>WithStore\<close> starts: its batch, the events it gave to the store and the aggregates.\<close>

record audit_writer =
  batch :: "auditEvent list"
  recorded :: "auditEvent list"
  aggregated :: aggregates

definition WithStore :: "UsageMeter \<Rightarrow> UsageMeter" where
  "WithStore m = m\<lparr>eventCh := Some []\<rparr>"

definition writer_flush ::
  "((counterKey, int64) gomap \<Rightarrow> (counterKey, int64) gomap) \<Rightarrow> UsageMeter \<Rightarrow> audit_writer \<Rightarrow> audit_writer" where
  "writer_flush ord m w =
     (if batch w = [] then w
      else w\<lparr>recorded := recorded w @ batch w, batch := [], aggregated := FlushAggregates (Snapshot ord m) (aggregated w)\<rparr>)"

text \<open>One pass of its loop that receives an event; a tick and the end of the context flush.\<close>

definition writer_receive ::
  "((counterKey, int64) gomap \<Rightarrow> (counterKey, int64) gomap) \<Rightarrow> UsageMeter \<Rightarrow> audit_writer \<Rightarrow> UsageMeter \<times> audit_writer" where
  "writer_receive ord m w =
     (case eventCh m of
        Some (ev # ch) \<Rightarrow>
          let m' = m\<lparr>eventCh := Some ch\<rparr>; w' = w\<lparr>batch := batch w @ [ev]\<rparr>
          in (m', if length (batch w') \<ge> 100 then writer_flush ord m' w' else w')
      | _ \<Rightarrow> (m, w))"

section \<open>Metered tool calls\<close>

record QuotaErrorData =
  qe_Plan :: string
  qe_Current :: int
  qe_Limit :: int
  UpgradeHint :: string

definition FormatQuotaErrorData :: "string \<Rightarrow> string \<Rightarrow> int \<Rightarrow> int \<Rightarrow> QuotaErrorData" where
  "FormatQuotaErrorData plan tenantID current limit =
     \<lparr>qe_Plan = plan, qe_Current = current, qe_Limit = limit,
      UpgradeHint = ''billing-admin set-plan --tenant '' @ tenantID @ '' --plan team''\<rparr>"

definition NewQuotaErrorToolResult :: "UsageEvent \<Rightarrow> QuotaErrorData \<Rightarrow> string \<times> QuotaErrorData" where
  "NewQuotaErrorToolResult event data =
     (''billing quota exceeded: '' @ event @ '' limit '' @ int_string (qe_Limit data) @ '' reached (current ''
        @ int_string (qe_Current data) @ '', plan '' @ qe_Plan data @ ''). '' @ UpgradeHint data, data)"

definition messageTools :: "string set" where
  "messageTools = {''send_message'', ''submit_task'', ''send_task_input''}"

datatype 'r tool_outcome = ToolResult "string + 'r" | QuotaError string QuotaErrorData

text \<open>
  The next handler runs between the two readings of the clock; it returns an error or a result, and
  the meter as it and the calls running beside it leave it.
\<close>

definition tool_event :: "string \<Rightarrow> UsageEvent" where
  "tool_event tool = (if tool \<in> messageTools then EventMessage else EventToolCall)"

definition tool_limit :: "Tenant \<Rightarrow> UsageEvent \<Rightarrow> int64" where
  "tool_limit t event = word_of_int (if event = EventMessage then MaxMessagesPerMonth (Quota t) else MaxToolCallsPerMonth (Quota t))"

definition MCPToolMeterMiddleware ::
  "time \<Rightarrow> time \<Rightarrow> Tenant option \<Rightarrow> string \<Rightarrow> (UsageMeter \<Rightarrow> (string + 'r) \<times> UsageMeter) \<Rightarrow> UsageMeter \<Rightarrow> 'r tool_outcome \<times> UsageMeter" where
  "MCPToolMeterMiddleware now later tenant tool run m =
     (case tenant of
        None \<Rightarrow> (let (res, m') = run m in (ToolResult res, m'))
      | Some t \<Rightarrow>
          let event = tool_event tool; limit = tool_limit t event; (ok, m1) = TryConsume now (tn_ID t) event limit 1 m
          in if \<not> ok then
               (let (txt, data) = NewQuotaErrorToolResult event
                      (FormatQuotaErrorData (tn_Plan t) (tn_ID t) (sint (Current now (tn_ID t) event m1)) (sint limit))
                in (QuotaError txt data, m1))
             else
               let (res, m2) = run m1
               in (ToolResult res,
                   case res of
                     Inl _ \<Rightarrow> ReleaseQuota later (tn_ID t) event 1 m2
                   | Inr _ \<Rightarrow> queueAudit (tn_ID t) event tool '''' m2))"

section \<open>Rollover and reconciliation\<close>

text \<open>One hourly tick over the tenants the store lists.\<close>

definition checkRollover :: "time \<Rightarrow> Tenant list \<Rightarrow> UsageMeter \<Rightarrow> UsageMeter" where
  "checkRollover now tenants m =
     fold (\<lambda>t m. case CurrentPeriodEnd t of
         Some e \<Rightarrow> if now > e then ResetTenant now (tn_ID t) m else m
       | None \<Rightarrow> if Day now = 1 \<and> Hour now = 0 then ResetTenant now (tn_ID t) m else m) tenants m"

record StripeSubscriptionState =
  sub_Status :: string
  sub_CurrentPeriodEnd :: "time option"

definition reconcile_one ::
  "(string \<Rightarrow> StripeSubscriptionState option) \<Rightarrow> bool \<Rightarrow> time \<Rightarrow> Tenant \<Rightarrow> AccountStore \<Rightarrow> AccountStore" where
  "reconcile_one GetSubscription autoFix now t s =
     (if StripeSubscriptionID t = '''' then s
      else case GetSubscription (StripeSubscriptionID t) of
        None \<Rightarrow> s
      | Some st \<Rightarrow>
          if autoFix \<and> BillingStatus t \<noteq> sub_Status st then
            (case UpdateTenant now (t\<lparr>BillingStatus := sub_Status st, CurrentPeriodEnd := sub_CurrentPeriodEnd st\<rparr>) s of
               Inl _ \<Rightarrow> s
             | Inr s' \<Rightarrow> s')
          else s)"

definition runReconciliation ::
  "(string \<Rightarrow> StripeSubscriptionState option) \<Rightarrow> bool \<Rightarrow> time \<Rightarrow> tenant_order \<Rightarrow> AccountStore \<Rightarrow> AccountStore" where
  "runReconciliation GetSubscription autoFix now ord s = fold (reconcile_one GetSubscription autoFix now) (ListTenants ord s) s"

section \<open>Webhook delivery\<close>

datatype webhook_response = TransportError | StatusCode nat

datatype webhook_result = Delivered | ClientError nat | Exhausted webhook_response

definition maxWebhookAttempts :: nat where "maxWebhookAttempts = 3"

definition webhook_backoff :: "nat \<Rightarrow> duration" where
  "webhook_backoff attempt = [1000000000, 2000000000] ! attempt"

text \<open>
  The attempts from number \<open>attempt\<close> on, with \<open>n\<close> left: the result, the number of requests and the
  times slept. The response to each attempt is an argument.
\<close>

fun webhook_loop :: "(nat \<Rightarrow> webhook_response) \<Rightarrow> nat \<Rightarrow> nat \<Rightarrow> webhook_response \<Rightarrow> webhook_result \<times> nat \<times> duration list" where
  "webhook_loop resp attempt 0 lastErr = (Exhausted lastErr, 0, [])"
| "webhook_loop resp attempt (Suc n) lastErr =
     (let retry = (let (res, reqs, sleeps) = webhook_loop resp (Suc attempt) n (resp attempt)
                   in (res, Suc reqs, (if attempt < maxWebhookAttempts - 1 then [webhook_backoff attempt] else []) @ sleeps))
      in case resp attempt of
           TransportError \<Rightarrow> retry
         | StatusCode c \<Rightarrow>
             if 200 \<le> c \<and> c < 300 then (Delivered, 1, [])
             else if 400 \<le> c \<and> c < 500 then (ClientError c, 1, [])
             else retry)"

definition Notify :: "(nat \<Rightarrow> webhook_response) \<Rightarrow> webhook_result \<times> nat \<times> duration list" where
  "Notify resp = webhook_loop resp 0 maxWebhookAttempts TransportError"

section \<open>The counters of a meter\<close>

text \<open>The value of a counter; a counter that does not exist counts as zero.\<close>

definition count_of :: "counterKey \<Rightarrow> UsageMeter \<Rightarrow> int64" where
  "count_of k m = (case map_of (counters m) k of None \<Rightarrow> 0 | Some c \<Rightarrow> c)"

lemma Current_count: "Current now t ev m = count_of (counter_key now t ev) m"
  by (simp add: Current_def count_of_def)

lemma counter_Add_count:
  "fst (counter_Add k d m) = count_of k m + d"
  "count_of k' (snd (counter_Add k d m)) = (if k' = k then count_of k m + d else count_of k' m)"
  by (auto simp: counter_Add_def getOrCreateCounter_def count_of_def Let_def map_of_simps split: option.split)

lemma maybeNotify_counters [simp]: "counters (maybeNotify now t ev limit r m) = counters m" "eventCh (maybeNotify now t ev limit r m) = eventCh m"
  by (simp_all add: maybeNotify_def split: option.split prod.split)

lemma count_of_cong: "counters m = counters m' \<Longrightarrow> count_of k m = count_of k m'"
  by (simp add: count_of_def)

lemma queueAudit_count [simp]: "count_of k (queueAudit t ev tool r m) = count_of k m"
  by (rule count_of_cong) (simp add: queueAudit_def split: option.split)

text \<open>A call that runs alone: it counts exactly when it is granted.\<close>

lemma TryConsume_count:
  "fst (TryConsume now t ev limit d m) \<longleftrightarrow> \<not> over_limit limit (count_of (counter_key now t ev) m + d)"
  "count_of k (snd (TryConsume now t ev limit d m)) =
     count_of k m + (if k = counter_key now t ev \<and> fst (TryConsume now t ev limit d m) then d else 0)"
proof -
  let ?k = "counter_key now t ev" and ?add = "snd (counter_Add (counter_key now t ev) d m)"
  have notify: "count_of k (maybeNotify now t ev l r m') = count_of k m'" for k l r m' by (rule count_of_cong) simp
  show ok: "fst (TryConsume now t ev limit d m) \<longleftrightarrow> \<not> over_limit limit (count_of ?k m + d)"
    by (simp add: TryConsume_def Let_def split_beta counter_Add_count)
  show "count_of k (snd (TryConsume now t ev limit d m)) = count_of k m + (if k = ?k \<and> fst (TryConsume now t ev limit d m) then d else 0)"
    unfolding ok by (simp add: TryConsume_def Let_def split_beta counter_Add_count notify)
qed

section \<open>Concurrent calls\<close>

text \<open>
  The atomic operations of concurrent \<open>TryConsume\<close> and \<open>ReleaseQuota\<close> calls on one counter: a call
  adds its delta and is granted or over the limit; a call over the limit takes its delta back
  before it is denied; a granted call may be released.
\<close>

datatype phase = Ready int64 | Over int64 | Granted int64 | Denied | Released

inductive quota_step :: "int64 \<Rightarrow> int64 \<times> phase list \<Rightarrow> int64 \<times> phase list \<Rightarrow> bool" for limit where
  grant: "i < length ps \<Longrightarrow> ps ! i = Ready d \<Longrightarrow> \<not> over_limit limit (c + d) \<Longrightarrow> quota_step limit (c, ps) (c + d, ps[i := Granted d])"
| over: "i < length ps \<Longrightarrow> ps ! i = Ready d \<Longrightarrow> over_limit limit (c + d) \<Longrightarrow> quota_step limit (c, ps) (c + d, ps[i := Over d])"
| rollback: "i < length ps \<Longrightarrow> ps ! i = Over d \<Longrightarrow> quota_step limit (c, ps) (c + (- d), ps[i := Denied])"
| release: "i < length ps \<Longrightarrow> ps ! i = Granted d \<Longrightarrow> quota_step limit (c, ps) (c + (- d), ps[i := Released])"

inductive_cases quota_stepE: "quota_step limit (c, ps) (c', ps')"

text \<open>A call that is not disturbed takes these steps.\<close>

lemma TryConsume_steps:
  "(quota_step limit)\<^sup>*\<^sup>* (count_of (counter_key now t ev) m, [Ready d])
     (count_of (counter_key now t ev) (snd (TryConsume now t ev limit d m)),
      [if fst (TryConsume now t ev limit d m) then Granted d else Denied])"
proof (cases "over_limit limit (count_of (counter_key now t ev) m + d)")
  case True
  let ?c = "count_of (counter_key now t ev) m"
  have "quota_step limit (?c, [Ready d]) (?c + d, [Over d])" using quota_step.over [of 0 "[Ready d]" d limit ?c] True by simp
  moreover have "quota_step limit (?c + d, [Over d]) (?c, [Denied])" using quota_step.rollback [of 0 "[Over d]" d limit "?c + d"] by simp
  ultimately show ?thesis using True by (simp add: TryConsume_count)
next
  case False
  let ?c = "count_of (counter_key now t ev) m"
  have "quota_step limit (?c, [Ready d]) (?c + d, [Granted d])" using quota_step.grant [of 0 "[Ready d]" d limit ?c] False by simp
  then show ?thesis using False by (simp add: TryConsume_count r_into_rtranclp)
qed

fun granted :: "phase \<Rightarrow> int" where
  "granted (Granted d) = sint d"
| "granted _ = 0"

fun pending :: "phase \<Rightarrow> int" where
  "pending (Over d) = sint d"
| "pending _ = 0"

fun waiting :: "phase \<Rightarrow> int" where
  "waiting (Ready d) = sint d"
| "waiting _ = 0"

fun phase_delta :: "phase \<Rightarrow> int64" where
  "phase_delta (Ready d) = d"
| "phase_delta (Over d) = d"
| "phase_delta (Granted d) = d"
| "phase_delta Denied = 0"
| "phase_delta Released = 0"

abbreviation total :: "(phase \<Rightarrow> int) \<Rightarrow> phase list \<Rightarrow> int" where
  "total f ps \<equiv> sum_list (map f ps)"

lemma total_update: "i < length ps \<Longrightarrow> total f (ps[i := p]) = total f ps - f (ps ! i) + f p"
proof (induction ps arbitrary: i)
  case (Cons q ps)
  then show ?case by (cases i) simp_all
qed simp

lemma total_nonneg: "(\<And>p. p \<in> set ps \<Longrightarrow> 0 \<le> f p) \<Longrightarrow> 0 \<le> total f ps"
  by (rule sum_list_nonneg) auto

lemma sint_add_exact:
  assumes "- (2 ^ 63) \<le> sint a + sint b" "sint a + sint b < 2 ^ 63"
  shows "sint (a + b :: int64) = sint a + sint b"
  using assms by (simp add: sint_word_ariths(1) signed_take_bit_int_eq_self)

text \<open>The counter is the start value plus what is granted and what is over the limit but not yet taken back.\<close>

definition quota_inv :: "int64 \<Rightarrow> int64 \<Rightarrow> int \<Rightarrow> int64 \<times> phase list \<Rightarrow> bool" where
  "quota_inv limit c0 sm st \<longleftrightarrow> (case st of (c, ps) \<Rightarrow>
     sint c = sint c0 + total granted ps + total pending ps
     \<and> sint c0 + total granted ps \<le> sint limit
     \<and> total pending ps + total waiting ps \<le> sm
     \<and> (\<forall>p \<in> set ps. 0 \<le> sint (phase_delta p)))"

lemma phase_part_nonneg:
  "0 \<le> sint (phase_delta p) \<Longrightarrow> 0 \<le> granted p \<and> 0 \<le> pending p \<and> 0 \<le> waiting p"
  by (cases p) auto

lemma total_ge: "i < length ps \<Longrightarrow> (\<And>p. p \<in> set ps \<Longrightarrow> 0 \<le> f p) \<Longrightarrow> f (ps ! i) \<le> total f ps"
proof (induction ps arbitrary: i)
  case (Cons q ps)
  have "0 \<le> total f ps" by (rule total_nonneg) (use Cons.prems(2) in simp)
  with Cons show ?case by (cases i) force+
qed simp

lemma quota_invD:
  assumes "quota_inv limit c0 sm (c, ps)"
  shows "sint c = sint c0 + total granted ps + total pending ps" "sint c0 + total granted ps \<le> sint limit"
    "total pending ps + total waiting ps \<le> sm"
    "0 \<le> total granted ps" "0 \<le> total pending ps" "0 \<le> total waiting ps"
    "i < length ps \<Longrightarrow> 0 \<le> sint (phase_delta (ps ! i))"
    "i < length ps \<Longrightarrow> granted (ps ! i) \<le> total granted ps" "i < length ps \<Longrightarrow> pending (ps ! i) \<le> total pending ps"
    "i < length ps \<Longrightarrow> waiting (ps ! i) \<le> total waiting ps"
    "0 \<le> sint (phase_delta q) \<Longrightarrow> \<forall>p \<in> set (ps[i := q]). 0 \<le> sint (phase_delta p)"
proof -
  have pos: "0 \<le> sint (phase_delta p)" if "p \<in> set ps" for p using assms that by (simp add: quota_inv_def)
  note parts = phase_part_nonneg [OF pos]
  show "sint c = sint c0 + total granted ps + total pending ps" "sint c0 + total granted ps \<le> sint limit"
    "total pending ps + total waiting ps \<le> sm"
    using assms by (simp_all add: quota_inv_def)
  show "0 \<le> total granted ps" "0 \<le> total pending ps" "0 \<le> total waiting ps"
    by (rule total_nonneg, use parts in blast)+
  show "i < length ps \<Longrightarrow> 0 \<le> sint (phase_delta (ps ! i))" using pos by simp
  show "i < length ps \<Longrightarrow> granted (ps ! i) \<le> total granted ps" "i < length ps \<Longrightarrow> pending (ps ! i) \<le> total pending ps"
    "i < length ps \<Longrightarrow> waiting (ps ! i) \<le> total waiting ps"
    by (rule total_ge, assumption, use parts in blast)+
  show "0 \<le> sint (phase_delta q) \<Longrightarrow> \<forall>p \<in> set (ps[i := q]). 0 \<le> sint (phase_delta p)"
    using pos set_update_subset_insert [of ps i q] by blast
qed

lemma sint_sub_exact:
  assumes "0 \<le> sint b" "sint b \<le> sint a"
  shows "sint (a + (- b) :: int64) = sint a - sint b"
proof -
  have "- (2 ^ 63) \<le> sint a - sint b" "sint a - sint b < 2 ^ 63" using assms sint_lt [of a] by simp_all
  then show ?thesis by (simp add: sint_word_ariths(2) signed_take_bit_int_eq_self)
qed

lemma quota_step_inv:
  assumes "quota_step limit st st'" and "quota_inv limit c0 sm st"
    and bounds: "0 < sint limit" "0 \<le> sint c0" "sint limit + sm < 2 ^ 63"
  shows "quota_inv limit c0 sm st'"
  using assms(1,2)
proof (induction rule: quota_step.induct)
  case (grant i ps d c)
  note inv = quota_invD [OF grant(4)] and d = quota_invD(7,10) [OF grant(4,1), unfolded grant(2), simplified]
  have "sint (c + d) = sint c + sint d" by (rule sint_add_exact) (use inv(1-6) d bounds in linarith)+
  moreover have "sint (c + d) \<le> sint limit" using grant(3) bounds(1) by (simp add: over_limit_def)
  ultimately show ?case
    using inv(1-6) d inv(11) [of "Granted d" i] grant(2) by (simp add: quota_inv_def total_update [OF grant(1)])
next
  case (over i ps d c)
  note inv = quota_invD [OF over(4)] and d = quota_invD(7,10) [OF over(4,1), unfolded over(2), simplified]
  have "sint (c + d) = sint c + sint d" by (rule sint_add_exact) (use inv(1-6) d bounds in linarith)+
  then show ?case
    using inv(1-6) d inv(11) [of "Over d" i] over(2) by (simp add: quota_inv_def total_update [OF over(1)])
next
  case (rollback i ps d c)
  note inv = quota_invD [OF rollback(3)] and d = quota_invD(7,9) [OF rollback(3,1), unfolded rollback(2), simplified]
  have "sint (c + (- d)) = sint c - sint d" by (rule sint_sub_exact) (use inv(1-6) d bounds in linarith)+
  then show ?case
    using inv(1-6) d inv(11) [of Denied i] rollback(2) by (simp add: quota_inv_def total_update [OF rollback(1)])
next
  case (release i ps d c)
  note inv = quota_invD [OF release(3)] and d = quota_invD(7,8) [OF release(3,1), unfolded release(2), simplified]
  have "sint (c + (- d)) = sint c - sint d" by (rule sint_sub_exact) (use inv(1-6) d bounds in linarith)+
  then show ?case
    using inv(1-6) d inv(11) [of Released i] release(2) by (simp add: quota_inv_def total_update [OF release(1)])
qed



section \<open>Restart\<close>

lemma snapshot_key_of [simp]:
  "snapshot_key \<lparr>us_TenantID = ck_tenantID k, us_Period = ck_period k, us_Event = ck_event k, us_Count = c\<rparr> = k"
  by (simp add: snapshot_key_def)

lemma fold_mput_distinct:
  assumes "distinct (map fst xs)"
  shows "map_of (fold (\<lambda>(k, v). mput k v) xs db) k = (case map_of xs k of Some v \<Rightarrow> Some v | None \<Rightarrow> map_of db k)"
  using assms
proof (induction xs arbitrary: db)
  case (Cons p xs)
  obtain k' v where p: "p = (k', v)" by force
  have "map_of xs k' = None" using Cons.prems by (simp add: p map_of_eq_None_iff)
  then show ?case using Cons.IH [of "mput k' v db"] Cons.prems by (cases "k = k'") (simp_all add: p map_of_mput split: option.split)
qed simp

lemma FlushAggregates_Snapshot:
  assumes "distinct (mkeys (counters m))" and "range_order ord"
  shows "map_of (FlushAggregates (Snapshot ord m) db) k =
    (case map_of (counters m) k of Some c \<Rightarrow> if sint c > 0 then Some c else map_of db k | None \<Rightarrow> map_of db k)"
proof -
  let ?xs = "filter (\<lambda>(k, c). sint c > 0) (ord (counters m))"
  have d: "distinct (map fst (ord (counters m)))" using range_order_distinct [OF assms(2)] assms(1) by blast
  have "FlushAggregates (Snapshot ord m) db = fold (\<lambda>(k, v). mput k v) ?xs db"
    by (simp add: FlushAggregates_def Snapshot_def fold_map o_def case_prod_unfold)
  moreover have "distinct (map fst ?xs)" using d by (rule distinct_map_filter)
  ultimately have "map_of (FlushAggregates (Snapshot ord m) db) k = (case map_of ?xs k of Some v \<Rightarrow> Some v | None \<Rightarrow> map_of db k)"
    by (simp add: fold_mput_distinct)
  also have "map_of ?xs k = (case map_of (ord (counters m)) k of Some c \<Rightarrow> if sint c > 0 then Some c else None | None \<Rightarrow> None)"
    by (simp add: map_of_filter_distinct [OF d] split: option.split)
  also have "map_of (ord (counters m)) k = map_of (counters m) k"
    using map_of_inject_set [OF d assms(1)] range_order_set [OF assms(2)] by (metis (no_types))
  finally show ?thesis by (simp split: option.split)
qed

lemma Restore_fresh:
  assumes "distinct (mkeys db)"
  shows "count_of k (RestoreFromAggregates db NewUsageMeter) = (case map_of db k of Some c \<Rightarrow> c | None \<Rightarrow> 0)"
proof -
  have "map_of (counters (fold restore_one (LoadAggregates db) m)) k = (case map_of (counters m) k of Some c \<Rightarrow> Some c | None \<Rightarrow> map_of db k)"
    if "distinct (mkeys db)" for m db
    using that
  proof (induction db arbitrary: m)
    case (Cons p db)
    obtain k' c where p: "p = (k', c)" by force
    have "map_of db k' = None" using Cons.prems by (simp add: p map_of_eq_None_iff)
    then show ?case
      using Cons.IH [of "restore_one \<lparr>us_TenantID = ck_tenantID k', us_Period = ck_period k', us_Event = ck_event k', us_Count = c\<rparr> m"] Cons.prems
      by (auto simp: LoadAggregates_def p restore_one_def map_of_simps split: option.split)
  qed (simp add: LoadAggregates_def split: option.split)
  from this [OF assms, of NewUsageMeter] show ?thesis
    by (simp add: RestoreFromAggregates_def count_of_def NewUsageMeter_def split: option.split)
qed

lemma FlushAggregates_distinct: "distinct (mkeys db) \<Longrightarrow> distinct (mkeys (FlushAggregates snaps db))"
  unfolding FlushAggregates_def by (induction snaps arbitrary: db) (simp_all add: gomap)

text \<open>
  What a restart restores. After a flush, a restarted meter has every positive counter
  with its value; but a counter that is zero or negative is not written, so the restarted meter
  has the count that was stored for it before. Since a reset sets the counters to zero, it does
  not survive a restart.
\<close>

theorem usage_restart:
  assumes "distinct (mkeys (counters m))" and "distinct (mkeys db)" and "range_order ord"
  shows "count_of k (RestoreFromAggregates (FlushAggregates (Snapshot ord m) db) NewUsageMeter) =
      (if sint (count_of k m) > 0 then count_of k m else case map_of db k of Some c \<Rightarrow> c | None \<Rightarrow> 0)
    \<and> (ck_tenantID k = t \<and> ck_period k = periodKey now \<longrightarrow>
        count_of k (ResetTenant now t m) = 0
        \<and> count_of k (RestoreFromAggregates (FlushAggregates (Snapshot ord (ResetTenant now t m)) db) NewUsageMeter)
          = (case map_of db k of Some c \<Rightarrow> c | None \<Rightarrow> 0))"
proof -
  have restart: "count_of k (RestoreFromAggregates (FlushAggregates (Snapshot ord m) db) NewUsageMeter) =
      (if sint (count_of k m) > 0 then count_of k m else case map_of db k of Some c \<Rightarrow> c | None \<Rightarrow> 0)"
    if "distinct (mkeys (counters m))" for m
    using Restore_fresh [OF FlushAggregates_distinct [OF assms(2)]] FlushAggregates_Snapshot [OF that assms(3)]
    by (auto simp: count_of_def split: option.split)
  have "map_of (map (\<lambda>(k, c). (k, if ck_tenantID k = t \<and> ck_period k = periodKey now then 0 else c)) xs) k
      = map_option (\<lambda>c. if ck_tenantID k = t \<and> ck_period k = periodKey now then 0 else c) (map_of xs k)" for xs :: "(counterKey, int64) gomap"
    by (induction xs) auto
  then have zero: "count_of k (ResetTenant now t m) = 0" if "ck_tenantID k = t \<and> ck_period k = periodKey now"
    using that by (simp add: count_of_def ResetTenant_def split: option.split)
  have "distinct (mkeys (counters (ResetTenant now t m)))"
    using assms(1) by (simp add: ResetTenant_def o_def split_beta)
  from restart [OF assms(1)] restart [OF this] zero show ?thesis by simp
qed

section \<open>Notifications\<close>

definition notifications :: "counterKey \<Rightarrow> string \<Rightarrow> NotifyEvent list \<Rightarrow> NotifyEvent list" where
  "notifications k kind evs =
     filter (\<lambda>e. ne_TenantID e = ck_tenantID k \<and> ne_Period e = ck_period k \<and> ne_Event e = ck_event k \<and> EventType e = kind) evs"

definition last_ratio :: "counterKey \<Rightarrow> notifierState \<Rightarrow> rat" where
  "last_ratio k ns = (case map_of (lastNotified ns) k of Some r \<Rightarrow> r | None \<Rightarrow> 0)"

text \<open>Per counter and period each kind was sent at most once, and only when the recorded ratio says so.\<close>

definition notified_once :: "notifierState \<Rightarrow> NotifyEvent list \<Rightarrow> counterKey \<Rightarrow> bool" where
  "notified_once ns evs k \<longleftrightarrow>
     length (notifications k ''quota_exceeded'' evs) = (if last_ratio k ns < 1 then 0 else 1)
     \<and> length (notifications k ''quota_warning'' evs) \<le> (if last_ratio k ns < warnThreshold ns then 0 else 1)"

definition notify_inv :: "UsageMeter \<Rightarrow> bool" where
  "notify_inv m \<longleftrightarrow> (case notifySt m of
     None \<Rightarrow> outbox m = []
   | Some ns \<Rightarrow> 0 < warnThreshold ns \<and> warnThreshold ns < 1 \<and> (\<forall>k. notified_once ns (outbox m) k))"

lemma shouldNotify_alt:
  "shouldNotify k ratio ns =
     (if ratio \<ge> 1 \<and> last_ratio k ns < 1 then (Some ''quota_exceeded'', ns\<lparr>lastNotified := mput k ratio (lastNotified ns)\<rparr>)
      else if ratio \<ge> warnThreshold ns \<and> ratio < 1 \<and> last_ratio k ns < warnThreshold ns
      then (Some ''quota_warning'', ns\<lparr>lastNotified := mput k ratio (lastNotified ns)\<rparr>)
      else (None, ns))"
  by (simp add: shouldNotify_def last_ratio_def Let_def)

lemma shouldNotify_cases:
  obtains (exceeded) "ratio \<ge> 1" "last_ratio k ns < 1"
      "shouldNotify k ratio ns = (Some ''quota_exceeded'', ns\<lparr>lastNotified := mput k ratio (lastNotified ns)\<rparr>)"
  | (warning) "ratio \<ge> warnThreshold ns" "ratio < 1" "last_ratio k ns < warnThreshold ns"
      "shouldNotify k ratio ns = (Some ''quota_warning'', ns\<lparr>lastNotified := mput k ratio (lastNotified ns)\<rparr>)"
  | (none) "shouldNotify k ratio ns = (None, ns)"
  by (cases "ratio \<ge> 1 \<and> last_ratio k ns < 1"; cases "ratio \<ge> warnThreshold ns \<and> ratio < 1 \<and> last_ratio k ns < warnThreshold ns")
    (auto simp: shouldNotify_alt)

lemma last_ratio_put: "last_ratio k' (ns\<lparr>lastNotified := mput k r (lastNotified ns)\<rparr>) = (if k' = k then r else last_ratio k' ns)"
  by (simp add: last_ratio_def map_of_simps)

lemma notifications_snoc:
  "notifications k kind (evs @ [\<lparr>ne_TenantID = t, ne_Period = periodKey now, ne_Event = ev, EventType = kind', ne_Current = c, Limit = l, Ratio = r,
      ne_Timestamp = now\<rparr>]) = notifications k kind evs @ (if k = counter_key now t ev \<and> kind' = kind
      then [\<lparr>ne_TenantID = t, ne_Period = periodKey now, ne_Event = ev, EventType = kind', ne_Current = c, Limit = l, Ratio = r, ne_Timestamp = now\<rparr>] else [])"
  by (cases k) (auto simp: notifications_def counter_key_def)

lemma notified_once_snoc:
  assumes "notified_once ns evs k" and "k \<noteq> counter_key now t ev"
  shows "notified_once (ns\<lparr>lastNotified := mput (counter_key now t ev) ratio (lastNotified ns)\<rparr>) (evs @ [\<lparr>ne_TenantID = t, ne_Period = periodKey now,
      ne_Event = ev, EventType = kind, ne_Current = c, Limit = l, Ratio = r, ne_Timestamp = now\<rparr>]) k"
  using assms by (simp add: notified_once_def notifications_snoc last_ratio_put)

lemma maybeNotify_inv:
  assumes "notify_inv m"
  shows "notify_inv (maybeNotify now t ev limit ratio m)"
proof (cases "notifySt m")
  case (Some ns)
  let ?k = "counter_key now t ev"
  have inv: "0 < warnThreshold ns" "warnThreshold ns < 1" "notified_once ns (outbox m) k" for k
    using assms by (simp_all add: notify_inv_def Some)
  show ?thesis
  proof (cases rule: shouldNotify_cases [of ratio ?k ns])
    case exceeded
    have "notified_once (ns\<lparr>lastNotified := mput ?k ratio (lastNotified ns)\<rparr>) (outbox (maybeNotify now t ev limit ratio m)) k" for k
      using inv(3) [of k] inv(2) exceeded(1,2)
      by (cases "k = ?k") (auto simp: maybeNotify_def Some exceeded(3) notified_once_snoc notified_once_def notifications_snoc last_ratio_put split: if_splits)
    then show ?thesis using inv(1,2) by (auto simp: notify_inv_def maybeNotify_def Some exceeded(3))
  next
    case warning
    have "notified_once (ns\<lparr>lastNotified := mput ?k ratio (lastNotified ns)\<rparr>) (outbox (maybeNotify now t ev limit ratio m)) k" for k
      using inv(3) [of k] inv(2) warning(1-3)
      by (cases "k = ?k") (auto simp: maybeNotify_def Some warning(4) notified_once_snoc notified_once_def notifications_snoc last_ratio_put split: if_splits)
    then show ?thesis using inv(1,2) by (auto simp: notify_inv_def maybeNotify_def Some warning(4))
  next
    case none
    then show ?thesis using assms by (auto simp: maybeNotify_def Some notify_inv_def)
  qed
qed (use assms in \<open>simp add: maybeNotify_def\<close>)

text \<open>A history of calls on a meter.\<close>

datatype meter_call = CallRecord time string UsageEvent int64 | CallTryConsume time string UsageEvent int64 int64
  | CallReleaseQuota time string UsageEvent int64 | CallQueueAudit string UsageEvent string string | CallResetTenant time string

fun meter_exec :: "meter_call \<Rightarrow> UsageMeter \<Rightarrow> UsageMeter" where
  "meter_exec (CallRecord now t ev d) m = Record now t ev d m"
| "meter_exec (CallTryConsume now t ev limit d) m = snd (TryConsume now t ev limit d m)"
| "meter_exec (CallReleaseQuota now t ev d) m = ReleaseQuota now t ev d m"
| "meter_exec (CallQueueAudit t ev tool r) m = queueAudit t ev tool r m"
| "meter_exec (CallResetTenant now t) m = ResetTenant now t m"

lemma counter_Add_notify [simp]:
  "notifySt (snd (counter_Add k d m)) = notifySt m" "outbox (snd (counter_Add k d m)) = outbox m"
  by (simp_all add: counter_Add_def getOrCreateCounter_def Let_def split: option.split)

lemma notify_inv_cong: "notify_inv m \<Longrightarrow> notifySt m' = notifySt m \<Longrightarrow> outbox m' = outbox m \<Longrightarrow> notify_inv m'"
  by (auto simp: notify_inv_def split: option.splits)

lemma meter_exec_inv:
  assumes "notify_inv m"
  shows "notify_inv (meter_exec c m)"
proof (cases c)
  case (CallTryConsume now t ev limit d)
  have "notify_inv (snd (counter_Add k d m))" "notify_inv (snd (counter_Add k (- d) (snd (counter_Add k d m))))" for k
    by (rule notify_inv_cong [OF assms]; simp)+
  then show ?thesis by (simp add: CallTryConsume TryConsume_def Let_def split_beta maybeNotify_inv)
qed (use assms in \<open>auto simp: Record_def ReleaseQuota_def queueAudit_def ResetTenant_def intro: notify_inv_cong split: option.split\<close>)

text \<open>
  Notifications come once. In any history of calls on a meter with a notifier, every
  tenant gets for every event at most one warning and one notice of exhaustion per month; and a
  denied call leaves exactly one notice of exhaustion for its counter.
\<close>

theorem notifications_once:
  assumes "m = fold meter_exec cs (WithNotifier env NewUsageMeter)"
  shows "length (notifications k ''quota_exceeded'' (outbox m)) \<le> 1
    \<and> length (notifications k ''quota_warning'' (outbox m)) \<le> 1
    \<and> (fst (TryConsume now t ev limit d m) = False \<longrightarrow>
        length (notifications (counter_key now t ev) ''quota_exceeded'' (outbox (snd (TryConsume now t ev limit d m)))) = 1)"
proof -
  have notifier: "notifySt (meter_exec c m) \<noteq> None" if "notifySt m \<noteq> None" for c m
    using that by (cases c) (auto simp: Record_def ReleaseQuota_def queueAudit_def ResetTenant_def TryConsume_def maybeNotify_def Let_def
        split_beta split: option.split prod.split)
  have run: "notify_inv (fold meter_exec cs m) \<and> notifySt (fold meter_exec cs m) \<noteq> None" if "notify_inv m" "notifySt m \<noteq> None" for m
    using that by (induction cs arbitrary: m) (simp_all add: meter_exec_inv notifier del: not_None_eq)
  have "notify_inv (WithNotifier env NewUsageMeter)"
    by (auto simp: notify_inv_def WithNotifier_def NewUsageMeter_def newNotifierState_def notified_once_def last_ratio_def notifications_def split: option.split)
  with run have inv: "notify_inv m" "notifySt m \<noteq> None" by (simp_all add: assms WithNotifier_def)
  then obtain ns where ns: "notifySt m = Some ns" "\<And>k. notified_once ns (outbox m) k" by (auto simp: notify_inv_def)
  have "length (notifications (counter_key now t ev) ''quota_exceeded'' (outbox (snd (TryConsume now t ev limit d m)))) = 1"
    if denied: "fst (TryConsume now t ev limit d m) = False"
  proof -
    let ?k = "counter_key now t ev"
    define m2 where "m2 = snd (counter_Add ?k (- d) (snd (counter_Add ?k d m)))"
    have m2: "notifySt m2 = Some ns" "outbox m2 = outbox m" by (simp_all add: m2_def ns(1))
    have res: "snd (TryConsume now t ev limit d m) = maybeNotify now t ev (sint limit) 1 m2"
      using denied by (simp add: TryConsume_def Let_def split_beta m2_def split: if_splits)
    show ?thesis
      using ns(2) [of ?k] unfolding res
      by (auto simp: maybeNotify_def m2 shouldNotify_alt notified_once_def notifications_snoc split: if_splits)
  qed
  with ns(2) [of k] show ?thesis by (auto simp: notified_once_def split: if_splits)
qed

section \<open>Month ends\<close>

text \<open>
  Property C29. A failure after midnight is credited to the wrong month. When a tool call is granted
  in one month and fails in the next, the old month keeps its charge and the counter of the new
  month, which was not charged, goes down by one: a tenant without usage ends at minus one and can
  make one call more than its limit.
\<close>

theorem release_credits_next_month:
  assumes "periodKey now \<noteq> periodKey later" and "ev = tool_event tool"
    and "fst (TryConsume now (tn_ID t) ev (tool_limit t ev) 1 m)"
    and "\<And>m. run m = (Inl err, m)"
  shows "Current now (tn_ID t) ev (snd (MCPToolMeterMiddleware now later (Some t) tool run m)) = Current now (tn_ID t) ev m + 1
    \<and> Current later (tn_ID t) ev (snd (MCPToolMeterMiddleware now later (Some t) tool run m)) = Current later (tn_ID t) ev m - 1"
proof -
  let ?k = "counter_key now (tn_ID t) ev" and ?k' = "counter_key later (tn_ID t) ev"
  have ne: "?k \<noteq> ?k'" using assms(1) by (simp add: counter_key_def)
  have "snd (MCPToolMeterMiddleware now later (Some t) tool run m) =
      snd (counter_Add ?k' (- 1) (snd (TryConsume now (tn_ID t) ev (tool_limit t ev) 1 m)))"
    using assms(3) by (simp add: MCPToolMeterMiddleware_def Let_def split_beta assms(4) assms(2) [symmetric] ReleaseQuota_def)
  then show ?thesis using ne assms(3) by (simp add: Current_count counter_Add_count TryConsume_count(2))
qed

text \<open>
  A lapsed billing period is never limited. While a tenant's period end lies in the
  past every hourly tick sets its counters of the month to zero again, so until the end is moved
  a call of a tenant with a positive limit is granted after each tick.
\<close>

theorem lapsed_period_resets:
  assumes "t \<in> set tenants" and "CurrentPeriodEnd t = Some e" and "now > e" and "0 < sint limit"
  shows "Current now (tn_ID t) ev (checkRollover now tenants m) = 0
    \<and> fst (TryConsume now (tn_ID t) ev limit 1 (checkRollover now tenants m))"
proof -
  let ?k = "counter_key now (tn_ID t) ev"
  let ?f = "\<lambda>t m. case CurrentPeriodEnd t of
         Some e \<Rightarrow> if now > e then ResetTenant now (tn_ID t) m else m
       | None \<Rightarrow> if Day now = 1 \<and> Hour now = 0 then ResetTenant now (tn_ID t) m else m"
  have upd: "map_of (map (\<lambda>(k, c). (k, if P k then 0 else c)) xs) ?k = map_option (\<lambda>c. if P ?k then 0 else c) (map_of xs ?k)"
    for P and xs :: "(counterKey, int64) gomap" by (induction xs) auto
  have zero: "count_of ?k (ResetTenant now (tn_ID t) m) = 0" for m
    by (simp add: count_of_def ResetTenant_def upd split: option.split) (simp add: counter_key_def)
  have keep: "count_of ?k (ResetTenant now u m) = 0" if "count_of ?k m = 0" for u m
    using that by (auto simp: count_of_def ResetTenant_def upd split: option.splits)
  have stays: "count_of ?k (fold ?f ts m) = 0" if "count_of ?k m = 0" for ts m
    using that by (induction ts arbitrary: m) (auto simp: keep split: option.split)
  have "count_of ?k (fold ?f tenants m) = 0" using assms(1)
  proof (induction tenants arbitrary: m)
    case (Cons u us)
    show ?case
    proof (cases "u = t")
      case True
      then have "?f u m = ResetTenant now (tn_ID t) m" using assms(2,3) by simp
      then show ?thesis using stays [OF zero] by simp
    next
      case False
      then show ?thesis using Cons by simp
    qed
  qed simp
  then have "count_of ?k (checkRollover now tenants m) = 0" by (simp add: checkRollover_def)
  then show ?thesis using assms(4) by (simp add: Current_count TryConsume_count over_limit_def)
qed

theorem notifications_once_witness:
  "length (notifications (counter_key 0 ''t'' ''message'') ''quota_exceeded''
     (outbox (fold meter_exec (replicate 5 (CallTryConsume 0 ''t'' ''message'' 2 1)) (WithNotifier None NewUsageMeter)))) \<le> 1"
  using notifications_once [OF refl, of "counter_key 0 ''t'' ''message''" "replicate 5 (CallTryConsume 0 ''t'' ''message'' 2 1)" None] by blast

definition tool_tenant :: Tenant where
  "tool_tenant = sample_tenant ''t1'' 1 2"

theorem release_credits_next_month_witness:
  "Current (31 * 86400 * 1000000000) ''t1'' EventToolCall (snd (MCPToolMeterMiddleware 0 (31 * 86400 * 1000000000) (Some tool_tenant) ''list_agents''
     (\<lambda>m. (Inl ''failed'' :: string + unit, m)) NewUsageMeter)) = - 1"
proof -
  have periods: "periodKey 0 \<noteq> periodKey (31 * 86400 * 1000000000)" by code_simp
  have ev: "EventToolCall = tool_event ''list_agents''" by (simp add: tool_event_def messageTools_def)
  have t: "tn_ID tool_tenant = ''t1''" "sint (tool_limit tool_tenant EventToolCall) = 1"
    by (simp_all add: tool_tenant_def tool_limit_def sample_tenant_def NewTenant_def DefaultQuota_def hardcodedQuota_def)
  have zero: "count_of k NewUsageMeter = 0" for k by (simp add: count_of_def NewUsageMeter_def)
  have ok: "fst (TryConsume 0 (tn_ID tool_tenant) EventToolCall (tool_limit tool_tenant EventToolCall) 1 NewUsageMeter)"
    by (simp add: TryConsume_count over_limit_def zero t)
  show ?thesis
    using release_credits_next_month [OF periods ev ok, of "\<lambda>m. (Inl ''failed'' :: string + unit, m)" "''failed''", THEN conjunct2]
    by (simp add: t Current_count zero)
qed

theorem lapsed_period_resets_witness:
  "Current 10 ''t1'' ''message'' (checkRollover 10 [tool_tenant\<lparr>CurrentPeriodEnd := Some 5\<rparr>] (Record 10 ''t1'' ''message'' 7 NewUsageMeter)) = 0"
proof -
  have "tn_ID (tool_tenant\<lparr>CurrentPeriodEnd := Some 5\<rparr>) = ''t1''"
    by (simp add: tool_tenant_def sample_tenant_def NewTenant_def)
  then show ?thesis
    using lapsed_period_resets [of "tool_tenant\<lparr>CurrentPeriodEnd := Some 5\<rparr>" "[tool_tenant\<lparr>CurrentPeriodEnd := Some 5\<rparr>]" 5 10 1 "''message''"]
    by simp
qed

theorem usage_restart_witness:
  "count_of \<lparr>ck_tenantID = ''t1'', ck_period = ''2025-11'', ck_event = ''message''\<rparr>
     (RestoreFromAggregates (FlushAggregates (Snapshot (\<lambda>m. m)
       (NewUsageMeter\<lparr>counters := [(\<lparr>ck_tenantID = ''t1'', ck_period = ''2025-11'', ck_event = ''message''\<rparr>, 7)]\<rparr>)) []) NewUsageMeter) = 7"
  using usage_restart [of "NewUsageMeter\<lparr>counters := [(\<lparr>ck_tenantID = ''t1'', ck_period = ''2025-11'', ck_event = ''message''\<rparr>, 7)]\<rparr>" "[]" "\<lambda>m. m"
      "\<lparr>ck_tenantID = ''t1'', ck_period = ''2025-11'', ck_event = ''message''\<rparr>", OF _ _ range_order_id]
  by (simp add: count_of_def)

section \<open>The audit writer and the webhook\<close>

text \<open>Steps of the calls that queue audit events and of the writer, with the events accepted so far.\<close>

datatype writer_event = Queue string UsageEvent string string | Receive | Tick

fun writer_step ::
  "((counterKey, int64) gomap \<Rightarrow> (counterKey, int64) gomap) \<Rightarrow> writer_event \<Rightarrow> UsageMeter \<times> audit_writer \<Rightarrow> UsageMeter \<times> audit_writer" where
  "writer_step ord (Queue t ev tool r) (m, w) = (queueAudit t ev tool r m, w)"
| "writer_step ord Receive (m, w) = writer_receive ord m w"
| "writer_step ord Tick (m, w) = (m, writer_flush ord m w)"

fun accepted_event :: "writer_event \<Rightarrow> UsageMeter \<Rightarrow> auditEvent list" where
  "accepted_event (Queue t ev tool r) m =
     (case eventCh m of
        Some ch \<Rightarrow> if length ch < audit_capacity then [\<lparr>ae_tenantID = t, ae_event = ev, toolName = tool, requestID = r\<rparr>] else []
      | None \<Rightarrow> [])"
| "accepted_event _ m = []"

fun accepted_events ::
  "((counterKey, int64) gomap \<Rightarrow> (counterKey, int64) gomap) \<Rightarrow> writer_event list \<Rightarrow> UsageMeter \<times> audit_writer \<Rightarrow> auditEvent list" where
  "accepted_events ord [] st = []"
| "accepted_events ord (e # es) st = accepted_event e (fst st) @ accepted_events ord es (writer_step ord e st)"

definition in_flight :: "UsageMeter \<times> audit_writer \<Rightarrow> auditEvent list" where
  "in_flight st = recorded (snd st) @ batch (snd st) @ (case eventCh (fst st) of Some ch \<Rightarrow> ch | None \<Rightarrow> [])"

lemma writer_step_events:
  assumes "eventCh (fst st) \<noteq> None" and "length (batch (snd st)) < 100"
  shows "in_flight (writer_step ord e st) = in_flight st @ accepted_event e (fst st)
    \<and> eventCh (fst (writer_step ord e st)) \<noteq> None \<and> length (batch (snd (writer_step ord e st))) < 100"
  using assms
  by (cases st; cases e)
    (auto simp: in_flight_def queueAudit_def writer_receive_def writer_flush_def Let_def split: list.split option.split)

text \<open>
  The audit log is complete and in order. Whatever the interleaving of calls and writer, the
  events given to the store, followed by those in the batch and in the channel, are the accepted
  events in the order they were queued: none is lost, repeated or reordered.
\<close>

lemma audit_log_in_order:
  assumes "eventCh m = Some []" and "batch w = []" and "recorded w = []"
  shows "in_flight (fold (writer_step ord) es (m, w)) = accepted_events ord es (m, w)
    \<and> length (batch (snd (fold (writer_step ord) es (m, w)))) < 100"
proof -
  have "in_flight (fold (writer_step ord) es st) = in_flight st @ accepted_events ord es st
      \<and> length (batch (snd (fold (writer_step ord) es st))) < 100"
    if "eventCh (fst st) \<noteq> None" "length (batch (snd st)) < 100" for st
    using that
  proof (induction es arbitrary: st)
    case (Cons e es)
    then show ?case using writer_step_events [OF Cons.prems, of ord e] by simp
  qed simp
  from this [of "(m, w)"] assms show ?thesis by (simp add: in_flight_def)
qed

text \<open>
  Webhook delivery makes at most three requests and sleeps only between them, one and two
  seconds; it reports success exactly if an attempt succeeded before a client error.
\<close>

lemma Notify_outcome:
  "fst (snd (Notify resp)) \<le> 3 \<and> length (snd (snd (Notify resp))) < fst (snd (Notify resp))
   \<and> set (snd (snd (Notify resp))) \<subseteq> {1000000000, 2000000000}
   \<and> (fst (Notify resp) = Delivered \<longrightarrow> (\<exists>i < fst (snd (Notify resp)). \<exists>c. resp i = StatusCode c \<and> 200 \<le> c \<and> c < 300))"
proof -
  have three: "Notify resp = webhook_loop resp 0 (Suc (Suc (Suc 0))) TransportError" by (simp add: Notify_def maxWebhookAttempts_def numeral_3_eq_3)
  show ?thesis
    unfolding three
    by (auto simp: Let_def split_beta maxWebhookAttempts_def webhook_backoff_def split: webhook_response.split if_splits)
qed

end
