(* ===== verification/Billing_Audit.thy ===== *)
theory Billing_Audit
  imports Go_Prelude
begin

text \<open>
  The audit log of billable events with its hash chain: \<open>auditHash\<close>, \<open>RecordEvent\<close>,
  \<open>VerifyAuditChain\<close> and \<open>PurgeEvents\<close> of the SQLite store (\<open>pkg/billing/store.go\<close>) and the
  periodic verification (\<open>audit_verifier.go\<close>). The table is the list of its rows in the order
  of insertion. A query with \<open>ORDER BY ts\<close> gives the rows in some order sorted by time; which of
  several rows of the same second comes first is left open, so the two sort functions are
  parameters. Times are whole seconds, as the RFC 3339 text in the table has them; the
  hash function and the text of a time are parameters.
\<close>

section \<open>The log\<close>

record audit_row =
  ar_id :: string
  ar_tenant :: string
  ar_event :: string
  ar_tool :: string
  ar_request :: string
  ar_ts :: int
  ar_hash :: string

fun Join :: "string list \<Rightarrow> string \<Rightarrow> string" where
  "Join [] sep = []"
| "Join [x] sep = x"
| "Join (x # y # xs) sep = x @ sep @ Join (y # xs) sep"

definition canonical :: "(int \<Rightarrow> string) \<Rightarrow> audit_row \<Rightarrow> string" where
  "canonical fmt r =
     Join [ar_id r, ar_tenant r, ar_event r, ar_tool r, ar_request r, fmt (ar_ts r)] ''|''"

definition auditHash :: "(string \<Rightarrow> string) \<Rightarrow> (int \<Rightarrow> string) \<Rightarrow> string \<Rightarrow> audit_row \<Rightarrow> string" where
  "auditHash sha fmt prevHash r = sha (prevHash @ canonical fmt r)"

text \<open>The insertion fails when the generated ID is taken.\<close>

definition RecordEvent ::
  "(string \<Rightarrow> string) \<Rightarrow> (int \<Rightarrow> string) \<Rightarrow> (audit_row list \<Rightarrow> audit_row list) \<Rightarrow> string \<Rightarrow> int
   \<Rightarrow> string \<Rightarrow> string \<Rightarrow> string \<Rightarrow> string \<Rightarrow> audit_row list \<Rightarrow> audit_row list option" where
  "RecordEvent sha fmt desc newID now tenantID event tool request rows =
     (let prevHash = (case desc (filter (\<lambda>r. ar_tenant r = tenantID) rows) of [] \<Rightarrow> [] | r # _ \<Rightarrow> ar_hash r);
          row = \<lparr>ar_id = newID, ar_tenant = tenantID, ar_event = event, ar_tool = tool, ar_request = request, ar_ts = now, ar_hash = []\<rparr>
      in if newID \<in> set (map ar_id rows) then None
         else Some (rows @ [row\<lparr>ar_hash := auditHash sha fmt prevHash row\<rparr>]))"

record AuditChainResult =
  acr_TenantID :: string
  Verified :: nat
  Tampered :: bool
  FirstBadID :: string
  FirstBadTime :: "int option"

fun verify_walk :: "(string \<Rightarrow> string) \<Rightarrow> (int \<Rightarrow> string) \<Rightarrow> string \<Rightarrow> audit_row list \<Rightarrow> AuditChainResult \<Rightarrow> AuditChainResult" where
  "verify_walk sha fmt prevHash [] res = res"
| "verify_walk sha fmt prevHash (r # rs) res =
     (if auditHash sha fmt prevHash r \<noteq> ar_hash r
      then res\<lparr>Tampered := True, FirstBadID := ar_id r, FirstBadTime := Some (ar_ts r)\<rparr>
      else verify_walk sha fmt (ar_hash r) rs (res\<lparr>Verified := Verified res + 1\<rparr>))"

definition verify_tenant ::
  "(string \<Rightarrow> string) \<Rightarrow> (int \<Rightarrow> string) \<Rightarrow> (audit_row list \<Rightarrow> audit_row list) \<Rightarrow> audit_row list \<Rightarrow> string \<Rightarrow> AuditChainResult" where
  "verify_tenant sha fmt asc rows t =
     verify_walk sha fmt [] (asc (filter (\<lambda>r. ar_tenant r = t) rows))
       \<lparr>acr_TenantID = t, Verified = 0, Tampered = False, FirstBadID = [], FirstBadTime = None\<rparr>"

text \<open>
  The call returns the results and, beside them, the tenants it counts in the metric of tampered
  chains. The order of the tenants in the call for all of them is the query's (\<open>distinctTenants\<close>).
\<close>

definition VerifyAuditChain ::
  "(string \<Rightarrow> string) \<Rightarrow> (int \<Rightarrow> string) \<Rightarrow> (audit_row list \<Rightarrow> audit_row list) \<Rightarrow> (string list \<Rightarrow> string list)
   \<Rightarrow> string \<Rightarrow> audit_row list \<Rightarrow> AuditChainResult list \<times> string list" where
  "VerifyAuditChain sha fmt asc distinctTenants tenantID rows =
     (let tenants = (if tenantID \<noteq> [] then [tenantID] else distinctTenants (map ar_tenant rows));
          results = map (verify_tenant sha fmt asc rows) tenants
      in (results, map acr_TenantID (filter Tampered results)))"

definition PurgeEvents :: "int \<Rightarrow> audit_row list \<Rightarrow> nat \<times> audit_row list" where
  "PurgeEvents before rows =
     (length (filter (\<lambda>r. ar_ts r < before) rows), filter (\<lambda>r. \<not> ar_ts r < before) rows)"

text \<open>A bound of the filter that is the zero time is open.\<close>

record EventFilter =
  ef_TenantID :: string
  ef_Event :: string
  ef_From :: "int option"
  ef_To :: "int option"
  ef_Limit :: int

definition QueryEvents :: "(audit_row list \<Rightarrow> audit_row list) \<Rightarrow> EventFilter \<Rightarrow> audit_row list \<Rightarrow> audit_row list" where
  "QueryEvents asc f rows =
     (let limit = (if ef_Limit f \<le> 0 then 10000 else ef_Limit f)
      in take (nat limit) (asc (filter (\<lambda>r.
           ar_tenant r = ef_TenantID f \<and> (ef_Event f \<noteq> [] \<longrightarrow> ar_event r = ef_Event f) \<and>
           (case ef_From f of None \<Rightarrow> True | Some a \<Rightarrow> a \<le> ar_ts r) \<and>
           (case ef_To f of None \<Rightarrow> True | Some b \<Rightarrow> ar_ts r \<le> b)) rows)))"

text \<open>One run of the periodic verifier: the tenants it counts in the metric of tampered chains, in order.\<close>

definition runVerification ::
  "(string \<Rightarrow> string) \<Rightarrow> (int \<Rightarrow> string) \<Rightarrow> (audit_row list \<Rightarrow> audit_row list) \<Rightarrow> (string list \<Rightarrow> string list)
   \<Rightarrow> string list \<Rightarrow> audit_row list \<Rightarrow> string list" where
  "runVerification sha fmt asc distinctTenants tenants rows =
     concat (map (\<lambda>t. let (results, counted) = VerifyAuditChain sha fmt asc distinctTenants t rows
                       in counted @ map (\<lambda>r. t) (filter Tampered results)) tenants)"

section \<open>The chain\<close>

abbreviation rows_of :: "string \<Rightarrow> audit_row list \<Rightarrow> audit_row list" where
  "rows_of t rows \<equiv> filter (\<lambda>r. ar_tenant r = t) rows"

fun chained :: "(string \<Rightarrow> string) \<Rightarrow> (int \<Rightarrow> string) \<Rightarrow> string \<Rightarrow> audit_row list \<Rightarrow> bool" where
  "chained sha fmt prev [] \<longleftrightarrow> True"
| "chained sha fmt prev (r # rs) \<longleftrightarrow> auditHash sha fmt prev r = ar_hash r \<and> chained sha fmt (ar_hash r) rs"

fun last_hash :: "string \<Rightarrow> audit_row list \<Rightarrow> string" where
  "last_hash prev [] = prev"
| "last_hash prev (r # rs) = last_hash (ar_hash r) rs"

fun hashed :: "(int \<Rightarrow> string) \<Rightarrow> string \<Rightarrow> audit_row list \<Rightarrow> string list" where
  "hashed fmt prev [] = []"
| "hashed fmt prev (r # rs) = (prev @ canonical fmt r) # hashed fmt (ar_hash r) rs"

lemma chained_append [simp]:
  "chained sha fmt prev (xs @ ys) \<longleftrightarrow> chained sha fmt prev xs \<and> chained sha fmt (last_hash prev xs) ys"
  by (induction xs arbitrary: prev) auto

lemma last_hash_append [simp]: "last_hash prev (xs @ ys) = last_hash (last_hash prev xs) ys"
  by (induction xs arbitrary: prev) auto

lemma hashed_append [simp]: "hashed fmt prev (xs @ ys) = hashed fmt prev xs @ hashed fmt (last_hash prev xs) ys"
  by (induction xs arbitrary: prev) auto

lemma verify_walk_Tampered: "Tampered (verify_walk sha fmt prev rs res) \<longleftrightarrow> Tampered res \<or> \<not> chained sha fmt prev rs"
  by (induction rs arbitrary: prev res) auto

lemma verify_walk_chained:
  "chained sha fmt prev rs \<Longrightarrow> verify_walk sha fmt prev rs res = res\<lparr>Verified := Verified res + length rs\<rparr>"
  by (induction rs arbitrary: prev res) auto

text \<open>A query by time gives rows of distinct times in one order only.\<close>

abbreviation increasing :: "audit_row list \<Rightarrow> bool" where
  "increasing rs \<equiv> sorted_wrt (\<lambda>r s. ar_ts r < ar_ts s) rs"

lemma increasing_sorted:
  assumes "increasing rs"
  shows "sorted (map ar_ts rs)" and "distinct (map ar_ts rs)"
  using assms by (induction rs) (auto intro: less_imp_le)

lemma asc_increasing:
  assumes srt: "sort_func ar_ts asc" and inc: "increasing rs"
  shows "asc rs = rs"
proof -
  have "mset (map ar_ts (asc rs)) = mset (map ar_ts rs)"
    using sort_func_mset [OF srt, of rs] by simp
  then have "distinct (map ar_ts (asc rs))"
    using increasing_sorted(2) [OF inc] by (metis mset_eq_imp_distinct_iff)
  with increasing_sorted [OF inc] show ?thesis
    using sort_func_sorted [OF srt, of rs] sort_func_set [OF srt, of rs]
    by (intro map_sorted_distinct_set_unique [of ar_ts]) (auto simp: distinct_map)
qed

lemma desc_increasing:
  assumes srt: "sort_func (\<lambda>r. - ar_ts r) desc" and inc: "increasing rs"
  shows "desc rs = rev rs"
proof -
  have up: "sort_func ar_ts (\<lambda>xs. rev (desc xs))"
    using srt unfolding sort_func_def
    by (simp add: sorted_wrt_map sorted_wrt_rev)
  show ?thesis
    using asc_increasing [OF up inc] by (metis rev_rev_ident)
qed

lemma increasing_last_hash:
  "rs \<noteq> [] \<Longrightarrow> (case rev rs of [] \<Rightarrow> [] | r # _ \<Rightarrow> ar_hash r) = last_hash prev rs"
  by (induction rs rule: rev_induct) auto

section \<open>Recorded logs\<close>

text \<open>
  A history of calls: the ID the generator gives, the time, and the arguments of each. A failed call is
  logged by the writer and leaves the table as it is.
\<close>

record audit_call =
  ac_id :: string
  ac_now :: int
  ac_tenant :: string
  ac_event :: string
  ac_tool :: string
  ac_request :: string

definition record_call ::
  "(string \<Rightarrow> string) \<Rightarrow> (int \<Rightarrow> string) \<Rightarrow> (audit_row list \<Rightarrow> audit_row list) \<Rightarrow> audit_call \<Rightarrow> audit_row list \<Rightarrow> audit_row list" where
  "record_call sha fmt desc c rows =
     (case RecordEvent sha fmt desc (ac_id c) (ac_now c) (ac_tenant c) (ac_event c) (ac_tool c) (ac_request c) rows of
        None \<Rightarrow> rows | Some rows' \<Rightarrow> rows')"

definition one_per_second :: "audit_call list \<Rightarrow> bool" where
  "one_per_second cs \<longleftrightarrow> sorted_wrt (\<lambda>c d. ac_tenant c = ac_tenant d \<longrightarrow> ac_now c < ac_now d) cs"

definition log_inv :: "(string \<Rightarrow> string) \<Rightarrow> (int \<Rightarrow> string) \<Rightarrow> audit_row list \<Rightarrow> bool" where
  "log_inv sha fmt rows \<longleftrightarrow> (\<forall>t. increasing (rows_of t rows) \<and> chained sha fmt [] (rows_of t rows))"

lemma auditHash_hash [simp]: "auditHash sha fmt prev (r\<lparr>ar_hash := h\<rparr>) = auditHash sha fmt prev r"
  by (simp add: auditHash_def canonical_def)

lemma record_call_inv:
  assumes srt: "sort_func (\<lambda>r. - ar_ts r) desc" and inv: "log_inv sha fmt rows"
    and late: "\<forall>r \<in> set rows. ar_tenant r = ac_tenant c \<longrightarrow> ar_ts r < ac_now c"
  shows "log_inv sha fmt (record_call sha fmt desc c rows)"
proof (cases "ac_id c \<in> set (map ar_id rows)")
  case True
  with inv show ?thesis by (simp add: record_call_def RecordEvent_def)
next
  case False
  let ?t = "ac_tenant c"
  have inc: "increasing (rows_of ?t rows)" using inv by (simp add: log_inv_def)
  have prev: "(case desc (rows_of ?t rows) of [] \<Rightarrow> [] | r # _ \<Rightarrow> ar_hash r) = last_hash [] (rows_of ?t rows)"
    unfolding desc_increasing [OF srt inc]
    by (cases "rows_of ?t rows = []") (simp_all add: increasing_last_hash [where prev = "[]"])
  from False prev obtain r where r: "record_call sha fmt desc c rows = rows @ [r]"
    "ar_tenant r = ?t" "ar_ts r = ac_now c" "auditHash sha fmt (last_hash [] (rows_of ?t rows)) r = ar_hash r"
    by (simp add: record_call_def RecordEvent_def Let_def auditHash_def canonical_def)
  show ?thesis
    using inv late r by (auto simp: log_inv_def sorted_wrt_append)
qed

lemma record_call_rows:
  "r \<in> set (record_call sha fmt desc c rows) \<Longrightarrow> r \<in> set rows \<or> (ar_tenant r = ac_tenant c \<and> ar_ts r = ac_now c)"
  by (auto simp: record_call_def RecordEvent_def Let_def split: if_splits)

lemma recorded_inv:
  assumes "sort_func (\<lambda>r. - ar_ts r) desc" and "one_per_second cs" and "log_inv sha fmt rows"
    and "\<forall>c \<in> set cs. \<forall>r \<in> set rows. ar_tenant r = ac_tenant c \<longrightarrow> ar_ts r < ac_now c"
  shows "log_inv sha fmt (fold (record_call sha fmt desc) cs rows)"
  using assms
proof (induction cs arbitrary: rows)
  case (Cons c cs)
  have "log_inv sha fmt (record_call sha fmt desc c rows)"
    using Cons.prems by (intro record_call_inv) auto
  moreover have "\<forall>d \<in> set cs. \<forall>r \<in> set (record_call sha fmt desc c rows).
      ar_tenant r = ac_tenant d \<longrightarrow> ar_ts r < ac_now d"
    using Cons.prems by (auto simp: one_per_second_def dest!: record_call_rows)
  ultimately show ?case
    using Cons.IH Cons.prems by (simp add: one_per_second_def)
qed simp

lemma recorded_log: 
  assumes "sort_func (\<lambda>r. - ar_ts r) desc" and "one_per_second cs"
  shows "log_inv sha fmt (fold (record_call sha fmt desc) cs [])"
  using assms by (intro recorded_inv) (simp_all add: log_inv_def)

lemma verify_tenant_log:
  assumes "sort_func ar_ts asc" and "log_inv sha fmt rows"
  shows "verify_tenant sha fmt asc rows t =
    \<lparr>acr_TenantID = t, Verified = length (rows_of t rows), Tampered = False, FirstBadID = [], FirstBadTime = None\<rparr>"
  using assms by (simp add: verify_tenant_def asc_increasing log_inv_def verify_walk_chained)

section \<open>Tampering\<close>

text \<open>
  What is assumed of the digest is its length and that the strings in question do not collide; of the
  fields, that they contain no separator and that an ID is shorter than a digest (it has ten
  characters).
\<close>

definition fields_ok :: "(int \<Rightarrow> string) \<Rightarrow> audit_row \<Rightarrow> bool" where
  "fields_ok fmt r \<longleftrightarrow> length (ar_id r) < 64 \<and>
     (\<forall>s \<in> {ar_id r, ar_tenant r, ar_event r, ar_tool r, ar_request r, fmt (ar_ts r)}. CHR ''|'' \<notin> set s)"

definition digest_ok :: "(string \<Rightarrow> string) \<Rightarrow> bool" where
  "digest_ok sha \<longleftrightarrow> (\<forall>x. length (sha x) = 64 \<and> CHR ''|'' \<notin> set (sha x))"

lemma digest_nonempty: "digest_ok sha \<Longrightarrow> sha z \<noteq> []"
  by (metis digest_ok_def list.size(3) zero_neq_numeral)

lemma canonical_not_first:
  assumes "fields_ok fmt r" and "fields_ok fmt s" and "digest_ok sha"
  shows "sha x @ canonical fmt r \<noteq> canonical fmt s"
proof
  assume eq: "sha x @ canonical fmt r = canonical fmt s"
  obtain u v where "canonical fmt r = ar_id r @ CHR ''|'' # u" and "canonical fmt s = ar_id s @ CHR ''|'' # v"
    by (simp add: canonical_def)
  with eq have "(sha x @ ar_id r) @ CHR ''|'' # u = ar_id s @ CHR ''|'' # v" by simp
  then have "sha x @ ar_id r = ar_id s"
    using assms split_at_first [of "CHR ''|''" "sha x @ ar_id r" "ar_id s" u v]
    by (auto simp: fields_ok_def digest_ok_def)
  then have "length (ar_id s) = 64 + length (ar_id r)"
    using assms(3) by (simp add: digest_ok_def flip: \<open>sha x @ ar_id r = ar_id s\<close>)
  with assms(2) show False by (simp add: fields_ok_def)
qed

lemma Join_inj:
  "list_all (\<lambda>x. c \<notin> set x) xs \<Longrightarrow> list_all (\<lambda>x. c \<notin> set x) ys \<Longrightarrow> length xs = length ys \<Longrightarrow>
   Join xs [c] = Join ys [c] \<Longrightarrow> xs = ys"
proof (induction xs "[c]" arbitrary: ys rule: Join.induct)
  case (2 x)
  then show ?case by (cases ys) auto
next
  case (3 x y xs)
  then obtain x' y' ys' where ys: "ys = x' # y' # ys'" by (metis length_Suc_conv)
  have "x = x' \<and> Join (y # xs) [c] = Join (y' # ys') [c]"
    using "3.prems" by (intro split_at_first [of c]) (auto simp: ys)
  then show ?case
    using "3.hyps" [of "y' # ys'"] "3.prems" by (simp add: ys)
qed simp

lemma canonical_inj:
  assumes ok: "fields_ok fmt r" "fields_ok fmt s" and eq: "canonical fmt r = canonical fmt s"
    and "fmt (ar_ts r) = fmt (ar_ts s) \<Longrightarrow> ar_ts r = ar_ts s" and "ar_hash r = ar_hash s"
  shows "r = (s :: audit_row)"
proof -
  let ?fs = "\<lambda>r. [ar_id r, ar_tenant r, ar_event r, ar_tool r, ar_request r, fmt (ar_ts r)]"
  have "?fs r = ?fs s"
    using ok eq unfolding canonical_def by (intro Join_inj) (auto simp: fields_ok_def)
  with assms(4,5) show ?thesis by simp
qed

lemma last_hash_digest:
  "chained sha fmt [] rs \<Longrightarrow> rs \<noteq> [] \<Longrightarrow> \<exists>x. last_hash [] rs = sha x"
  by (cases rs rule: rev_cases) (auto simp: auditHash_def intro: sym)

lemma prefixed_canonical_inj:
  assumes "digest_ok sha" and "fields_ok fmt r" and "fields_ok fmt s"
    and p: "p = [] \<or> (\<exists>x. p = sha x)" and q: "q = [] \<or> (\<exists>x. q = sha x)"
    and eq: "p @ canonical fmt r = q @ canonical fmt s"
  shows "p = q \<and> canonical fmt r = canonical fmt s"
proof (cases "p = [] \<or> q = []")
  case True
  with assms show ?thesis
    using canonical_not_first [OF assms(2,3,1)] canonical_not_first [OF assms(3,2,1)]
    by (metis append_Nil)
next
  case False
  with assms have "length p = length q" by (auto simp: digest_ok_def)
  with eq show ?thesis by simp
qed

lemma last_hash_prefix:
  "chained sha fmt [] rs \<Longrightarrow> last_hash [] rs = [] \<or> (\<exists>z. last_hash [] rs = sha z)"
  using last_hash_digest [of sha fmt rs] by (cases "rs = []") auto

lemma last_hash_Nil:
  assumes "digest_ok sha" and "chained sha fmt [] rs" and "last_hash [] rs = []"
  shows "rs = []"
proof (rule ccontr)
  assume "rs \<noteq> []"
  then obtain x where "last_hash [] rs = sha x" using last_hash_digest [OF assms(2)] by blast
  with assms(3) digest_nonempty [OF assms(1)] show False by simp
qed

lemma chain_unique:
  assumes dig: "digest_ok sha"
  shows "\<forall>r \<in> set xs \<union> set ys. fields_ok fmt r \<Longrightarrow> inj_on fmt (ar_ts ` (set xs \<union> set ys)) \<Longrightarrow>
    inj_on sha (set (hashed fmt [] xs) \<union> set (hashed fmt [] ys)) \<Longrightarrow>
    chained sha fmt [] xs \<Longrightarrow> chained sha fmt [] ys \<Longrightarrow> last_hash [] xs = last_hash [] ys \<Longrightarrow> xs = ys"
proof (induction xs arbitrary: ys rule: rev_induct)
  case Nil
  then show ?case using last_hash_Nil [OF dig, of fmt ys] by simp
next
  case (snoc x xs)
  have "ys \<noteq> []"
    using last_hash_Nil [OF dig snoc.prems(4)] snoc.prems(6) by (cases ys) simp_all
  then obtain ys' y where ys: "ys = ys' @ [y]" by (cases ys rule: rev_cases) blast+
  let ?p = "last_hash [] xs" and ?q = "last_hash [] ys'"
  have ch: "chained sha fmt [] xs" "chained sha fmt [] ys'"
    using snoc.prems(4,5) unfolding ys by simp_all
  have "sha (?p @ canonical fmt x) = sha (?q @ canonical fmt y)" and hash: "ar_hash x = ar_hash y"
    using snoc.prems(4-6) unfolding ys by (simp_all add: auditHash_def)
  then have "?p @ canonical fmt x = ?q @ canonical fmt y"
    using snoc.prems(3) unfolding ys by (elim inj_onD) simp_all
  then have pq: "?p = ?q" and can: "canonical fmt x = canonical fmt y"
    using prefixed_canonical_inj [OF dig, of fmt x y ?p ?q] last_hash_prefix [OF ch(1)] last_hash_prefix [OF ch(2)]
      snoc.prems(1) unfolding ys by simp_all
  have "x = y"
  proof (rule canonical_inj [OF _ _ can _ hash])
    show "ar_ts x = ar_ts y" if "fmt (ar_ts x) = fmt (ar_ts y)"
      using inj_onD [OF snoc.prems(2) that] by (simp add: ys)
  qed (use snoc.prems(1) in \<open>simp_all add: ys\<close>)
  moreover have "xs = ys'"
  proof (rule snoc.IH [OF _ _ _ ch pq])
    show "inj_on fmt (ar_ts ` (set xs \<union> set ys'))"
      using snoc.prems(2) by (rule inj_on_subset) (auto simp: ys)
    show "inj_on sha (set (hashed fmt [] xs) \<union> set (hashed fmt [] ys'))"
      using snoc.prems(3) by (rule inj_on_subset) (auto simp: ys)
  qed (use snoc.prems(1) in \<open>simp add: ys\<close>)
  ultimately show ?case by (simp add: ys)
qed

text \<open>Each run counts a tampered chain twice, once in the verification and once in the verifier.\<close>

lemma runVerification_counts_twice:
  assumes "t \<noteq> []" and "Tampered (verify_tenant sha fmt asc rows t)"
  shows "runVerification sha fmt asc ds [t] rows = [t, t]"
proof -
  have "acr_TenantID (verify_walk sha fmt p rs res) = acr_TenantID res" for p rs and res :: AuditChainResult
    by (induction rs arbitrary: p res) simp_all
  then have "acr_TenantID (verify_tenant sha fmt asc rows t) = t" by (simp add: verify_tenant_def)
  with assms show ?thesis by (simp add: runVerification_def VerifyAuditChain_def Let_def)
qed

section \<open>Properties\<close>

text \<open>
  A log that is written by \<open>RecordEvent\<close> only, with at most one event of a tenant per
  second and a clock that does not go back, passes the verification: for every tenant all
  rows are verified and none is reported, whichever order the database gives to rows of the same
  second.
\<close>

theorem audit_log_verifies:
  assumes "sort_func ar_ts asc" and "sort_func (\<lambda>r. - ar_ts r) desc" and "one_per_second calls" and "t \<noteq> []"
  shows "VerifyAuditChain sha fmt asc ds t (fold (record_call sha fmt desc) calls []) =
    ([\<lparr>acr_TenantID = t, Verified = length (rows_of t (fold (record_call sha fmt desc) calls [])),
       Tampered = False, FirstBadID = [], FirstBadTime = None\<rparr>], [])"
  using verify_tenant_log [OF assms(1) recorded_log [OF assms(2,3)]] assms(4)
  by (simp add: VerifyAuditChain_def Let_def)

definition toy_digest :: "string \<Rightarrow> string" where
  "toy_digest s = map (\<lambda>c. if c = CHR ''|'' then CHR ''/'' else c) (drop (length s) (replicate 64 CHR ''0'' @ s))"

lemma toy_digest_ok: "digest_ok toy_digest"
  by (auto simp: digest_ok_def toy_digest_def)

lemma inj_on_remdups: "distinct (map f (remdups xs)) \<Longrightarrow> inj_on f (set xs)"
  by (simp add: distinct_map)

definition sample_calls :: "audit_call list" where
  "sample_calls =
     [\<lparr>ac_id = ''e_1'', ac_now = 10, ac_tenant = ''t'', ac_event = ''message'', ac_tool = ''send'', ac_request = ''a''\<rparr>,
      \<lparr>ac_id = ''e_2'', ac_now = 10, ac_tenant = ''u'', ac_event = ''message'', ac_tool = ''send'', ac_request = ''b''\<rparr>,
      \<lparr>ac_id = ''e_3'', ac_now = 11, ac_tenant = ''t'', ac_event = ''tool_call'', ac_tool = ''list'', ac_request = ''c''\<rparr>,
      \<lparr>ac_id = ''e_4'', ac_now = 15, ac_tenant = ''t'', ac_event = ''message'', ac_tool = ''send'', ac_request = ''d''\<rparr>]"

definition sample_log :: "audit_row list" where
  "sample_log = fold (record_call toy_digest int_string (sort_key (\<lambda>r. - ar_ts r))) sample_calls []"

theorem audit_log_verifies_witness:
  "Verified (hd (fst (VerifyAuditChain toy_digest int_string (sort_key ar_ts) remdups ''t'' sample_log))) = 3"
proof -
  have "one_per_second sample_calls" by (simp add: one_per_second_def sample_calls_def)
  moreover have "length (rows_of ''t'' sample_log) = 3"
    by (simp add: sample_log_def sample_calls_def record_call_def RecordEvent_def Let_def)
  ultimately show ?thesis
    using audit_log_verifies [OF sort_func_sort_key sort_func_sort_key, of sample_calls "''t''" toy_digest int_string remdups]
    by (simp add: sample_log_def)
qed


text \<open>The second of three events is relabelled, with a hash that fits it; the last row is kept.\<close>

definition sample_row :: "string \<Rightarrow> string \<Rightarrow> int \<Rightarrow> string \<Rightarrow> audit_row" where
  "sample_row i event ts prev =
     (let r = \<lparr>ar_id = i, ar_tenant = ''t'', ar_event = event, ar_tool = ''send'', ar_request = [], ar_ts = ts, ar_hash = []\<rparr>
      in r\<lparr>ar_hash := auditHash toy_digest int_string prev r\<rparr>)"

definition sample_rows :: "string \<Rightarrow> audit_row list" where
  "sample_rows event =
     (let a = sample_row ''e_1'' ''message'' 10 []; b = sample_row ''e_2'' ''message'' 11 (ar_hash a);
          c = sample_row ''e_3'' ''message'' 12 (ar_hash b)
      in [a, sample_row ''e_2'' event 11 (ar_hash a), c])"

lemmas sample_rows_simps = sample_rows_def sample_row_def Let_def auditHash_def

lemma sample_rows_hashed:
  "distinct (map toy_digest (remdups
     (hashed int_string [] (sample_rows ''message'') @ hashed int_string [] (sample_rows ''tool_call''))))"
  by code_simp

lemma sample_rows_sorted:
  "sort_key ar_ts (rows_of ''t'' (sample_rows event)) = sample_rows event"
  by (simp add: sample_rows_simps)

lemma sample_rows_fields: "list_all (fields_ok int_string) (sample_rows ''message'' @ sample_rows ''tool_call'')"
  by (simp add: sample_rows_simps fields_ok_def) code_simp


text \<open>
  Property C30. Retention breaks the chain: after \<open>PurgeEvents\<close> has deleted the first rows of a
  tenant's log and left others, the verification reports the untouched log as tampered with at
  its first remaining row. The genesis hash that the verification starts from belonged to a row that
  is gone.
\<close>

theorem purge_raises_alarm:
  assumes "sort_func ar_ts asc" and srt: "sort_func (\<lambda>r. - ar_ts r) desc" and "one_per_second calls"
    and rows: "rows = fold (record_call sha fmt desc) calls []"
    and split: "rows_of t rows = old @ r # rest" and old: "old \<noteq> []" "list_all (\<lambda>s. ar_ts s < before) old"
    and kept: "before \<le> ar_ts r"
    and dig: "digest_ok sha" and nocoll: "inj_on sha {canonical fmt r, last_hash [] old @ canonical fmt r}"
  shows "verify_tenant sha fmt asc (snd (PurgeEvents before rows)) t =
    \<lparr>acr_TenantID = t, Verified = 0, Tampered = True, FirstBadID = ar_id r, FirstBadTime = Some (ar_ts r)\<rparr>"
proof -
  have inv: "log_inv sha fmt rows" unfolding rows by (rule recorded_log) fact+
  then have inc: "increasing (old @ r # rest)" and ch: "chained sha fmt [] (old @ r # rest)"
    by (metis log_inv_def split)+
  have "rows_of t (snd (PurgeEvents before rows)) = filter (\<lambda>s. \<not> ar_ts s < before) (rows_of t rows)"
    by (simp add: PurgeEvents_def conj_commute)
  also have "\<dots> = r # rest"
    using inc old(2) kept unfolding split by (auto simp: sorted_wrt_append list_all_iff filter_empty_conv intro!: filter_True)
  finally have left: "asc (rows_of t (snd (PurgeEvents before rows))) = r # rest"
    using inc by (simp add: asc_increasing [OF assms(1)] sorted_wrt_append)
  obtain x where "last_hash [] old = sha x" using last_hash_digest [of sha fmt old] ch old(1) by auto
  then have "last_hash [] old @ canonical fmt r \<noteq> canonical fmt r" using digest_nonempty [OF dig, of x] by simp
  then have "sha (canonical fmt r) \<noteq> sha (last_hash [] old @ canonical fmt r)"
    using nocoll by (auto simp: inj_on_def)
  then have "auditHash sha fmt [] r \<noteq> ar_hash r" using ch by (simp add: auditHash_def)
  then show ?thesis by (simp add: verify_tenant_def left)
qed

theorem purge_raises_alarm_witness:
  "Tampered (verify_tenant toy_digest int_string (sort_key ar_ts) (snd (PurgeEvents 11 sample_log)) ''t'')"
proof -
  have calls: "one_per_second sample_calls" by (simp add: one_per_second_def sample_calls_def)
  let ?c = "Join [''e_3'', ''t'', ''tool_call'', ''list'', ''c'', int_string 11] ''|''"
    and ?h = "toy_digest (Join [''e_1'', ''t'', ''message'', ''send'', ''a'', int_string 10] ''|'')"
  have "canonical int_string (sample_log ! 2) = ?c" and "last_hash [] [sample_log ! 0] = ?h"
    by (simp_all add: sample_log_def sample_calls_def record_call_def RecordEvent_def Let_def auditHash_def canonical_def)
  moreover have "toy_digest ?c \<noteq> toy_digest (?h @ ?c)" by code_simp
  ultimately have "inj_on toy_digest {canonical int_string (sample_log ! 2),
      last_hash [] [sample_log ! 0] @ canonical int_string (sample_log ! 2)}"
    by (simp add: inj_on_def del: Join.simps)
  moreover have "rows_of ''t'' sample_log = [sample_log ! 0] @ sample_log ! 2 # [sample_log ! 3]"
    by (simp add: sample_log_def sample_calls_def record_call_def RecordEvent_def Let_def)
  moreover have "ar_ts (sample_log ! 0) = 10" and "ar_ts (sample_log ! 2) = 11"
    by (simp_all add: sample_log_def sample_calls_def record_call_def RecordEvent_def Let_def)
  ultimately show ?thesis
    using purge_raises_alarm [OF sort_func_sort_key sort_func_sort_key calls sample_log_def _ _ _ _ toy_digest_ok, of "''t''" "[sample_log ! 0]" "sample_log ! 2" "[sample_log ! 3]" 11]
    by simp
qed

end
