(* ===== verification/OAuth_Server.thy ===== *)
theory OAuth_Server
  imports Billing_Accounts
begin

text \<open>
  The OAuth 2.1 authorization server of \<open>pkg/oauth\<close> with its store in \<open>pkg/billing/oauth_store.go\<close>:
  dynamic client registration, the authorize, consent and callback endpoints, the token and
  revocation endpoints and the tokens the server issues and validates. A handler is a function of the
  request and of what the server keeps, and gives the response and the new store; it runs as one step
  with one reading of the clock. The JWT library, SHA-256, the URL parser, the random source, the JSON codec and
  the identity provider are parameters; so is whether a statement fails in the database.
\<close>

section \<open>Tokens and clients\<close>

datatype oauth_error = ErrClientNotFound | ErrCodeNotFound | ErrCodeExpiredOrUsed | ErrRefreshTokenNotFound
  | ErrRefreshTokenRevoked | ErrDatabase

record OAuthClient =
  oc_ClientID :: string
  ClientSecretHash :: string
  ClientName :: string
  RedirectURIs :: "string list"
  GrantTypes :: "string list"
  oc_Scope :: string
  TokenEndpointAuthMethod :: string
  ClientIDIssuedAt :: int
  ClientSecretExpiresAt :: int
  CreatedIP :: string

record Code =
  CodeHash :: string
  cd_ClientID :: string
  cd_TenantID :: string
  RedirectURI :: string
  CodeChallenge :: string
  CodeChallengeMethod :: string
  cd_Scope :: string
  cd_ExpiresAt :: time
  Used :: bool

record RefreshToken =
  TokenHash :: string
  rt_ClientID :: string
  rt_TenantID :: string
  rt_Scope :: string
  rt_ExpiresAt :: time
  Revoked :: bool

definition hex_bytes :: "bytes \<Rightarrow> string" where
  "hex_bytes bs = concat (map (\<lambda>b. hex_digits 2 (unat b)) bs)"

definition HashToken :: "(string \<Rightarrow> bytes) \<Rightarrow> string \<Rightarrow> string" where
  "HashToken sha256 plaintext = hex_bytes (sha256 plaintext)"

text \<open>The bytes the random source gives, or \<open>None\<close> when it fails.\<close>

definition GenerateToken :: "(string \<Rightarrow> bytes) \<Rightarrow> bytes option \<Rightarrow> (string \<times> string) option" where
  "GenerateToken sha256 rnd =
     (case rnd of None \<Rightarrow> None | Some b \<Rightarrow> let plaintext = hex_bytes b in Some (plaintext, HashToken sha256 plaintext))"

definition pkceVerify :: "(string \<Rightarrow> bytes) \<Rightarrow> string \<Rightarrow> string \<Rightarrow> bool" where
  "pkceVerify sha256 verifier challenge \<longleftrightarrow> base64url (sha256 verifier) = challenge"

section \<open>The store\<close>

text \<open>
  The tables of the SQLite store. A time is stored as RFC 3339 text, which drops the fraction of a
  second. The argument \<open>fails\<close> tells for each operation whether the database fails in it; a
  failed operation changes nothing, since those with several statements run in a transaction.
\<close>

record oauth_store =
  oauth_clients :: "(string, OAuthClient) gomap"
  oauth_codes :: "(string, Code) gomap"
  oauth_refresh_tokens :: "(string, RefreshToken) gomap"

definition empty_oauth_store :: oauth_store where
  "empty_oauth_store = \<lparr>oauth_clients = [], oauth_codes = [], oauth_refresh_tokens = []\<rparr>"

type_synonym fails = "string \<Rightarrow> bool"

definition stored_time :: "time \<Rightarrow> time" where
  "stored_time t = t - t mod 1000000000"

definition PutClient :: "fails \<Rightarrow> OAuthClient \<Rightarrow> oauth_store \<Rightarrow> oauth_error + oauth_store" where
  "PutClient fails c s =
     (if fails ''PutClient'' then Inl ErrDatabase
      else let row = (case map_of (oauth_clients s) (oc_ClientID c) of
             None \<Rightarrow> c\<lparr>ClientSecretExpiresAt := 0\<rparr>
           | Some old \<Rightarrow> c\<lparr>ClientSecretExpiresAt := 0, ClientIDIssuedAt := ClientIDIssuedAt old, CreatedIP := CreatedIP old\<rparr>)
           in Inr (s\<lparr>oauth_clients := mput (oc_ClientID c) row (oauth_clients s)\<rparr>))"

definition GetClient :: "fails \<Rightarrow> string \<Rightarrow> oauth_store \<Rightarrow> oauth_error + OAuthClient" where
  "GetClient fails clientID s =
     (if fails ''GetClient'' then Inl ErrDatabase
      else case map_of (oauth_clients s) clientID of None \<Rightarrow> Inl ErrClientNotFound | Some c \<Rightarrow> Inr c)"

definition stored_code :: "Code \<Rightarrow> Code" where
  "stored_code code = code\<lparr>cd_ExpiresAt := stored_time (cd_ExpiresAt code), Used := False\<rparr>"

definition PutCode :: "fails \<Rightarrow> Code \<Rightarrow> oauth_store \<Rightarrow> oauth_error + oauth_store" where
  "PutCode fails code s =
     (if fails ''PutCode'' \<or> map_of (oauth_codes s) (CodeHash code) \<noteq> None then Inl ErrDatabase
      else Inr (s\<lparr>oauth_codes := mput (CodeHash code) (stored_code code) (oauth_codes s)\<rparr>))"

definition UseCode :: "fails \<Rightarrow> time \<Rightarrow> string \<Rightarrow> oauth_store \<Rightarrow> oauth_error + Code \<times> oauth_store" where
  "UseCode fails now codeHash s =
     (if fails ''UseCode'' then Inl ErrDatabase
      else case map_of (oauth_codes s) codeHash of
        None \<Rightarrow> Inl ErrCodeNotFound
      | Some c \<Rightarrow>
          if Used c \<or> now > cd_ExpiresAt c then Inl ErrCodeExpiredOrUsed
          else Inr (c, s\<lparr>oauth_codes := mput codeHash (c\<lparr>Used := True\<rparr>) (oauth_codes s)\<rparr>))"

definition PutRefreshToken :: "fails \<Rightarrow> RefreshToken \<Rightarrow> oauth_store \<Rightarrow> oauth_error + oauth_store" where
  "PutRefreshToken fails rt s =
     (if fails ''PutRefreshToken'' \<or> map_of (oauth_refresh_tokens s) (TokenHash rt) \<noteq> None then Inl ErrDatabase
      else Inr (s\<lparr>oauth_refresh_tokens := mput (TokenHash rt)
        (rt\<lparr>rt_ExpiresAt := stored_time (rt_ExpiresAt rt), Revoked := False\<rparr>) (oauth_refresh_tokens s)\<rparr>))"

definition RotateRefreshToken ::
  "fails \<Rightarrow> time \<Rightarrow> string \<Rightarrow> RefreshToken \<Rightarrow> oauth_store \<Rightarrow> oauth_error + RefreshToken \<times> oauth_store" where
  "RotateRefreshToken fails now oldHash newRT s =
     (if fails ''RotateRefreshToken'' then Inl ErrDatabase
      else case map_of (oauth_refresh_tokens s) oldHash of
        None \<Rightarrow> Inl ErrRefreshTokenNotFound
      | Some old \<Rightarrow>
          if Revoked old \<or> now > rt_ExpiresAt old then Inl ErrRefreshTokenRevoked
          else if map_of (oauth_refresh_tokens s) (TokenHash newRT) \<noteq> None then Inl ErrDatabase
          else Inr (newRT, s\<lparr>oauth_refresh_tokens := mput (TokenHash newRT)
            (newRT\<lparr>rt_ExpiresAt := stored_time (rt_ExpiresAt newRT), Revoked := False\<rparr>)
            (mput oldHash (old\<lparr>Revoked := True\<rparr>) (oauth_refresh_tokens s))\<rparr>))"

definition RevokeRefreshToken :: "fails \<Rightarrow> string \<Rightarrow> oauth_store \<Rightarrow> oauth_error + oauth_store" where
  "RevokeRefreshToken fails hash s =
     (if fails ''RevokeRefreshToken'' then Inl ErrDatabase
      else Inr (case map_of (oauth_refresh_tokens s) hash of
        None \<Rightarrow> s
      | Some rt \<Rightarrow> s\<lparr>oauth_refresh_tokens := mput hash (rt\<lparr>Revoked := True\<rparr>) (oauth_refresh_tokens s)\<rparr>))"

text \<open>Two statements without a transaction: the first may succeed and the second fail.\<close>

definition CleanupOAuthExpired :: "fails \<Rightarrow> time \<Rightarrow> oauth_store \<Rightarrow> bool \<times> oauth_store" where
  "CleanupOAuthExpired fails now s =
     (let live = stored_time now
      in if fails ''DELETE oauth_codes'' then (False, s)
         else let s1 = s\<lparr>oauth_codes := filter (\<lambda>(h, c). \<not> (cd_ExpiresAt c < live \<or> Used c)) (oauth_codes s)\<rparr>
              in if fails ''DELETE oauth_refresh_tokens'' then (False, s1)
                 else (True, s1\<lparr>oauth_refresh_tokens :=
                   filter (\<lambda>(h, r). \<not> (rt_ExpiresAt r < live \<or> Revoked r)) (oauth_refresh_tokens s1)\<rparr>))"

section \<open>JSON web tokens\<close>

definition AccessTokenTTL :: duration where "AccessTokenTTL = 3600 * 1000000000"
definition RefreshTokenTTL :: duration where "RefreshTokenTTL = 30 * 24 * 3600 * 1000000000"
definition SessionCookieTTL :: duration where "SessionCookieTTL = 10 * 60 * 1000000000"

text \<open>A claim that is not set is \<open>None\<close>, or empty for the audience.\<close>

record jwt_claims =
  jc_iss :: string
  jc_sub :: string
  jc_aud :: "string list"
  jc_iat :: time
  jc_exp :: time
  jc_jti :: "string option"
  jc_client_id :: "string option"
  jc_scope :: "string option"
  jc_email :: "string option"
  jc_name :: "string option"

text \<open>
  The JWT library: signing with a private key and key ID, which may fail, and parsing with a public key,
  the required issuer, the required audience if one is demanded, and the time at which the claims are
  validated.
\<close>

record jwt_library =
  jwt_sign :: "bytes \<Rightarrow> string \<Rightarrow> jwt_claims \<Rightarrow> string option"
  jwt_parse :: "bytes \<Rightarrow> string \<Rightarrow> string option \<Rightarrow> time \<Rightarrow> string \<Rightarrow> jwt_claims option"

record JWTIssuer =
  ji_priv :: bytes
  ji_kid :: string
  ji_issuer :: string

record JWTVerifier =
  jv_pubKey :: bytes
  jv_issuer :: string
  jv_audience :: string

text \<open>The public key is the second half of an ed25519 private key.\<close>

definition ed25519_Public :: "bytes \<Rightarrow> bytes" where
  "ed25519_Public priv = drop 32 priv"

definition NewJWTVerifier :: "bytes \<Rightarrow> string \<Rightarrow> string \<Rightarrow> JWTVerifier" where
  "NewJWTVerifier priv issuer audience = \<lparr>jv_pubKey = ed25519_Public priv, jv_issuer = issuer, jv_audience = audience\<rparr>"

definition nonempty :: "string \<Rightarrow> string option" where
  "nonempty s = (if s \<noteq> [] then Some s else None)"

definition IssueAccessToken ::
  "jwt_library \<Rightarrow> JWTIssuer \<Rightarrow> time \<Rightarrow> string \<Rightarrow> string \<Rightarrow> string \<Rightarrow> string \<Rightarrow> string \<Rightarrow> string \<Rightarrow> string \<Rightarrow> string option" where
  "IssueAccessToken lib j now tenantID clientID scope audience jti email name =
     jwt_sign lib (ji_priv j) (ji_kid j)
       \<lparr>jc_iss = ji_issuer j, jc_sub = tenantID, jc_aud = [audience], jc_iat = now, jc_exp = now + AccessTokenTTL, jc_jti = Some jti,
        jc_client_id = Some clientID, jc_scope = Some scope, jc_email = nonempty email, jc_name = nonempty name\<rparr>"

definition IssueSessionCookie :: "jwt_library \<Rightarrow> JWTIssuer \<Rightarrow> time \<Rightarrow> string \<Rightarrow> string option" where
  "IssueSessionCookie lib j now tenantID =
     jwt_sign lib (ji_priv j) (ji_kid j)
       \<lparr>jc_iss = ji_issuer j, jc_sub = tenantID, jc_aud = [], jc_iat = now, jc_exp = now + SessionCookieTTL, jc_jti = None,
        jc_client_id = None, jc_scope = None, jc_email = None, jc_name = None\<rparr>"

definition ValidateClaims :: "jwt_library \<Rightarrow> JWTVerifier \<Rightarrow> time \<Rightarrow> string \<Rightarrow> string option" where
  "ValidateClaims lib v now token =
     (case jwt_parse lib (jv_pubKey v) (jv_issuer v) (Some (jv_audience v)) now token of
        None \<Rightarrow> None
      | Some tok \<Rightarrow> if jc_sub tok = [] then None else Some (jc_sub tok))"

definition ValidateSessionCookie :: "jwt_library \<Rightarrow> JWTVerifier \<Rightarrow> time \<Rightarrow> string \<Rightarrow> string option" where
  "ValidateSessionCookie lib v now token =
     map_option jc_sub (jwt_parse lib (jv_pubKey v) (jv_issuer v) None now token)"

section \<open>Requests and responses\<close>

text \<open>
  A request as the handlers read it: the query, the parsed form and whether parsing it succeeds, the session
  cookie, the decoded body of a registration and the headers that name the client's address.
\<close>

record DCRRequest =
  dq_ClientName :: string
  dq_RedirectURIs :: "string list"
  dq_GrantTypes :: "string list"
  dq_Scope :: string
  dq_AuthMethod :: string

record oauth_request =
  rq_Method :: string
  rq_Query :: "(string, string) gomap"
  rq_PostForm :: "(string, string) gomap"
  rq_FormOk :: bool
  rq_Cookie :: "string option"
  rq_Body :: "DCRRequest option"
  rq_Headers :: http_request

definition Values_Get :: "(string, string) gomap \<Rightarrow> string \<Rightarrow> string" where
  "Values_Get q k = (case map_of q k of None \<Rightarrow> [] | Some v \<Rightarrow> v)"

definition FormValue :: "oauth_request \<Rightarrow> string \<Rightarrow> string" where
  "FormValue r k = Values_Get (rq_PostForm r @ rq_Query r) k"

datatype redirect_error = NotURL string | HasFragment | HTTPNotLocal | SchemeNotAllowed string

record consentData =
  cn_ClientName :: string
  cn_TenantName :: string
  cn_Scopes :: "string list"
  SessionToken :: string
  cn_ClientID :: string
  cn_RedirectURI :: string
  cn_CodeChallenge :: string
  cn_CodeChallengeMethod :: string
  cn_Scope :: string
  cn_State :: string

record token_response =
  access_token :: string
  token_type :: string
  expires_in :: int
  refresh_token :: string
  refresh_token_expires_in :: int
  tr_scope :: "string option"

record DCRResponse =
  dr_ClientID :: string
  ClientSecret :: string
  dr_ClientName :: string
  dr_RedirectURIs :: "string list"
  dr_GrantTypes :: "string list"
  dr_Scope :: string
  dr_AuthMethod :: string
  dr_ClientIDIssuedAt :: int
  dr_ClientSecretExpiresAt :: int

text \<open>
  A redirect has its target and the query parameters appended to it, sorted by name as
  \<open>url.Values.Encode\<close> writes them. \<open>Panic\<close> is a nil dereference.
\<close>

datatype oauth_response =
    OAuthError string string nat
  | RedirectURIError redirect_error
  | PlainError string nat
  | ErrorPage nat string
  | Redirect string "(string \<times> string) list"
  | ConsentPage consentData
  | TokenJSON token_response
  | Registered DCRResponse
  | OK
  | Panic

section \<open>Dynamic client registration\<close>

type_synonym dcrRateLimiter = "(string, time list) gomap"

definition DCRAllow :: "time \<Rightarrow> string \<Rightarrow> dcrRateLimiter \<Rightarrow> bool \<times> dcrRateLimiter" where
  "DCRAllow now ip l =
     (let cutoff = now - 3600 * 1000000000; fresh = filter (\<lambda>t. t > cutoff) (mlist l ip)
      in if length fresh \<ge> 10 then (False, mput ip fresh l) else (True, mput ip (fresh @ [now]) l))"

record parsed_url =
  Scheme :: string
  Hostname :: string
  Fragment :: string

definition validateRedirectURI :: "(string \<Rightarrow> parsed_url option) \<Rightarrow> string \<Rightarrow> redirect_error option" where
  "validateRedirectURI parse raw =
     (case parse raw of
        None \<Rightarrow> Some (NotURL raw)
      | Some u \<Rightarrow>
          if Fragment u \<noteq> [] then Some HasFragment
          else if Scheme u = ''https'' then None
          else if Scheme u = ''http'' then
            if Hostname u \<in> {''localhost'', ''127.0.0.1'', ''::1''} then None else Some HTTPNotLocal
          else Some (SchemeNotAllowed (Scheme u)))"

definition is_space :: "char \<Rightarrow> bool" where
  "is_space c \<longleftrightarrow> (of_char c :: nat) \<in> {9, 10, 11, 12, 13, 32}"

definition TrimSpace :: "string \<Rightarrow> string" where
  "TrimSpace s = rev (dropWhile is_space (rev (dropWhile is_space s)))"

definition dcrClientIP :: "http_request \<Rightarrow> string" where
  "dcrClientIP r =
     (let first = TrimSpace (takeWhile (\<lambda>c. c \<noteq> CHR '','') (X_Forwarded_For r))
      in if X_Forwarded_For r \<noteq> [] \<and> first \<noteq> [] then first
         else if X_Real_IP r \<noteq> [] then TrimSpace (X_Real_IP r)
         else case SplitHostPort (RemoteAddr r) of None \<Rightarrow> [] | Some host \<Rightarrow> host)"

fun first_error :: "('a \<Rightarrow> 'e option) \<Rightarrow> 'a list \<Rightarrow> 'e option" where
  "first_error f [] = None"
| "first_error f (x # xs) = (case f x of Some e \<Rightarrow> Some e | None \<Rightarrow> first_error f xs)"

definition dcr_grant_types :: "DCRRequest \<Rightarrow> string list" where
  "dcr_grant_types req = (if dq_GrantTypes req = [] then [''authorization_code''] else dq_GrantTypes req)"

definition dcr_auth_method :: "DCRRequest \<Rightarrow> string" where
  "dcr_auth_method req = (if dq_AuthMethod req = [] then ''none'' else dq_AuthMethod req)"

definition dcr_refusal :: "(string \<Rightarrow> parsed_url option) \<Rightarrow> DCRRequest \<Rightarrow> oauth_response option" where
  "dcr_refusal parse req =
     (if dq_ClientName req = [] then Some (OAuthError ''invalid_client_metadata'' ''client_name is required'' 400)
      else if dq_RedirectURIs req = [] then Some (OAuthError ''invalid_client_metadata'' ''redirect_uris is required'' 400)
      else case first_error (validateRedirectURI parse) (dq_RedirectURIs req) of
        Some e \<Rightarrow> Some (RedirectURIError e)
      | None \<Rightarrow>
          if dcr_auth_method req \<noteq> ''none'' \<and> dcr_auth_method req \<noteq> ''client_secret_post''
          then Some (OAuthError ''invalid_client_metadata'' ''unsupported token_endpoint_auth_method'' 400) else None)"

text \<open>The new client and its secret in plain text, empty for a public client.\<close>

definition dcr_client ::
  "(string \<Rightarrow> bytes) \<Rightarrow> time \<Rightarrow> string \<Rightarrow> bytes \<Rightarrow> bytes option \<Rightarrow> DCRRequest \<Rightarrow> (OAuthClient \<times> string) option" where
  "dcr_client sha256 now ip idRandom secretRandom req =
     (let c = \<lparr>oc_ClientID = ''cli_'' @ hex_bytes idRandom, ClientSecretHash = [], ClientName = dq_ClientName req,
        RedirectURIs = dq_RedirectURIs req, GrantTypes = dcr_grant_types req, oc_Scope = dq_Scope req,
        TokenEndpointAuthMethod = dcr_auth_method req, ClientIDIssuedAt = now div 1000000000, ClientSecretExpiresAt = 0, CreatedIP = ip\<rparr>
      in if dcr_auth_method req = ''client_secret_post'' then
           case GenerateToken sha256 secretRandom of
             None \<Rightarrow> None
           | Some (plainSecret, _) \<Rightarrow> Some (c\<lparr>ClientSecretHash := HashToken sha256 plainSecret\<rparr>, plainSecret)
         else Some (c, []))"

definition dcr_response :: "OAuthClient \<Rightarrow> string \<Rightarrow> DCRResponse" where
  "dcr_response c plainSecret =
     \<lparr>dr_ClientID = oc_ClientID c, ClientSecret = plainSecret, dr_ClientName = ClientName c, dr_RedirectURIs = RedirectURIs c,
      dr_GrantTypes = GrantTypes c, dr_Scope = oc_Scope c, dr_AuthMethod = TokenEndpointAuthMethod c,
      dr_ClientIDIssuedAt = ClientIDIssuedAt c, dr_ClientSecretExpiresAt = 0\<rparr>"

definition DCRHandler ::
  "(string \<Rightarrow> bytes) \<Rightarrow> (string \<Rightarrow> parsed_url option) \<Rightarrow> fails \<Rightarrow> time \<Rightarrow> bytes \<Rightarrow> bytes option \<Rightarrow> oauth_request
   \<Rightarrow> dcrRateLimiter \<Rightarrow> oauth_store \<Rightarrow> oauth_response \<times> dcrRateLimiter \<times> oauth_store" where
  "DCRHandler sha256 parse fails now idRandom secretRandom r l0 s =
     (if rq_Method r \<noteq> ''POST'' then (PlainError ''method not allowed'' 405, l0, s)
      else let ip = dcrClientIP (rq_Headers r); (ok, l) = DCRAllow now ip l0
      in if \<not> ok then (OAuthError ''too_many_requests'' ''registration rate limit exceeded'' 429, l, s)
         else case rq_Body r of
           None \<Rightarrow> (OAuthError ''invalid_client_metadata'' ''invalid JSON body'' 400, l, s)
         | Some req \<Rightarrow>
             (case dcr_refusal parse req of
                Some resp \<Rightarrow> (resp, l, s)
              | None \<Rightarrow>
                  (case dcr_client sha256 now ip idRandom secretRandom req of
                     None \<Rightarrow> (PlainError ''internal error'' 500, l, s)
                   | Some (c, plainSecret) \<Rightarrow>
                       (case PutClient fails c s of
                          Inl _ \<Rightarrow> (PlainError ''internal error'' 500, l, s)
                        | Inr s' \<Rightarrow> (Registered (dcr_response c plainSecret), l, s')))))"

section \<open>The authorize endpoints\<close>

record TenantBrief =
  tb_ID :: string
  tb_Name :: string
  tb_Email :: string

record identity_provider =
  AuthURL :: "string \<Rightarrow> string \<times> (string \<times> string) list"
  ExchangeCode :: "string \<Rightarrow> string \<Rightarrow> string option"

record TenantLookup =
  tl_GetTenantByEmail :: "string \<Rightarrow> TenantBrief option"
  tl_GetTenantByID :: "string \<Rightarrow> TenantBrief option"

text \<open>\<open>az_registers\<close> tells whether an identity registrar is attached. The store is an argument of the handlers.\<close>

record AuthorizeServer =
  az_idp :: "identity_provider option"
  az_tenants :: TenantLookup
  az_registers :: bool
  az_issuer :: JWTIssuer
  az_verifier :: JWTVerifier
  az_baseURL :: string

definition NewAuthorizeServer ::
  "identity_provider option \<Rightarrow> TenantLookup \<Rightarrow> JWTIssuer \<Rightarrow> JWTVerifier \<Rightarrow> string \<Rightarrow> AuthorizeServer" where
  "NewAuthorizeServer idp tenants issuer verifier baseURL =
     \<lparr>az_idp = idp, az_tenants = tenants, az_registers = False, az_issuer = issuer, az_verifier = verifier,
      az_baseURL = rev (dropWhile (\<lambda>c. c = CHR ''/'') (rev baseURL))\<rparr>"

definition WithIdentityRegistrar :: "AuthorizeServer \<Rightarrow> AuthorizeServer" where
  "WithIdentityRegistrar a = a\<lparr>az_registers := True\<rparr>"

text \<open>The JSON codec of the state, with its Base64 text.\<close>

record idpStatePayload =
  ip_ClientID :: string
  ip_RedirectURI :: string
  ip_CodeChallenge :: string
  ip_CodeChallengeMethod :: string
  ip_Scope :: string
  ip_State :: string
  ip_IssuedAt :: int

record state_codec =
  state_encode :: "idpStatePayload \<Rightarrow> string option"
  state_decode :: "string \<Rightarrow> idpStatePayload option"

definition encodeIDPState ::
  "state_codec \<Rightarrow> time \<Rightarrow> string \<Rightarrow> string \<Rightarrow> string \<Rightarrow> string \<Rightarrow> string \<Rightarrow> string \<Rightarrow> string option" where
  "encodeIDPState codec now clientID redirectURI codeChallenge codeChallengeMethod scope st =
     state_encode codec \<lparr>ip_ClientID = clientID, ip_RedirectURI = redirectURI, ip_CodeChallenge = codeChallenge,
       ip_CodeChallengeMethod = codeChallengeMethod, ip_Scope = scope, ip_State = st, ip_IssuedAt = now div 1000000000\<rparr>"

definition decodeIDPState :: "state_codec \<Rightarrow> time \<Rightarrow> string \<Rightarrow> idpStatePayload option" where
  "decodeIDPState codec now encoded =
     (case state_decode codec encoded of
        None \<Rightarrow> None
      | Some p \<Rightarrow> if now - ip_IssuedAt p * 1000000000 > 600 * 1000000000 then None else Some p)"

fun fields_loop :: "string \<Rightarrow> string \<Rightarrow> string list" where
  "fields_loop [] w = (if w = [] then [] else [w])"
| "fields_loop (c # cs) w =
     (if is_space c then (if w = [] then fields_loop cs [] else w # fields_loop cs []) else fields_loop cs (w @ [c]))"

definition scopeList :: "string \<Rightarrow> string list" where
  "scopeList scope = (if scope = [] then [] else fields_loop scope [])"

definition opt_param :: "string \<Rightarrow> string \<Rightarrow> (string \<times> string) list" where
  "opt_param k v = (if v \<noteq> [] then [(k, v)] else [])"

definition redirectWithError :: "string \<Rightarrow> string \<Rightarrow> string \<Rightarrow> string \<Rightarrow> oauth_response" where
  "redirectWithError redirectURI errCode desc st =
     Redirect redirectURI ([(''error'', errCode), (''error_description'', desc)] @ opt_param ''state'' st)"

definition sessionFromCookie :: "jwt_library \<Rightarrow> AuthorizeServer \<Rightarrow> time \<Rightarrow> oauth_request \<Rightarrow> string option" where
  "sessionFromCookie lib a now r =
     (case rq_Cookie r of None \<Rightarrow> None | Some v \<Rightarrow> ValidateSessionCookie lib (az_verifier a) now v)"

definition showConsent ::
  "jwt_library \<Rightarrow> AuthorizeServer \<Rightarrow> time \<Rightarrow> string \<Rightarrow> OAuthClient \<Rightarrow> string \<Rightarrow> string \<Rightarrow> string \<Rightarrow> string \<Rightarrow> string \<Rightarrow> oauth_response" where
  "showConsent lib a now tenantID c redirectURI codeChallenge codeChallengeMethod scope st =
     (case IssueSessionCookie lib (az_issuer a) now tenantID of
        None \<Rightarrow> ErrorPage 500 ''Internal error''
      | Some sessionToken \<Rightarrow>
          ConsentPage \<lparr>cn_ClientName = ClientName c,
            cn_TenantName = (case tl_GetTenantByID (az_tenants a) tenantID of None \<Rightarrow> tenantID | Some t \<Rightarrow> tb_Name t),
            cn_Scopes = scopeList scope, SessionToken = sessionToken, cn_ClientID = oc_ClientID c, cn_RedirectURI = redirectURI,
            cn_CodeChallenge = codeChallenge, cn_CodeChallengeMethod = codeChallengeMethod, cn_Scope = scope, cn_State = st\<rparr>)"

definition HandleAuthorize ::
  "jwt_library \<Rightarrow> state_codec \<Rightarrow> (string \<Rightarrow> parsed_url option) \<Rightarrow> fails \<Rightarrow> AuthorizeServer \<Rightarrow> time \<Rightarrow> oauth_request \<Rightarrow> oauth_store
   \<Rightarrow> oauth_response" where
  "HandleAuthorize lib codec parse fails a now r s =
     (let q = Values_Get (rq_Query r); clientID = q ''client_id''; redirectURI = q ''redirect_uri'';
          codeChallenge = q ''code_challenge''; codeChallengeMethod = q ''code_challenge_method'';
          scope = q ''scope''; st = q ''state''
      in if q ''response_type'' \<noteq> ''code'' then OAuthError ''unsupported_response_type'' ''only response_type=code is supported'' 400
         else if clientID = [] \<or> redirectURI = [] \<or> codeChallenge = [] then
           OAuthError ''invalid_request'' ''client_id, redirect_uri and code_challenge are required'' 400
         else if codeChallengeMethod \<noteq> ''S256'' then OAuthError ''invalid_request'' ''code_challenge_method must be S256'' 400
         else case GetClient fails clientID s of
           Inl e \<Rightarrow> if e = ErrClientNotFound then OAuthError ''invalid_client'' ''unknown client_id'' 400
                    else ErrorPage 500 ''Internal error''
         | Inr c \<Rightarrow>
             (case validateRedirectURI parse redirectURI of
                Some e \<Rightarrow> RedirectURIError e
              | None \<Rightarrow>
                  if redirectURI \<notin> set (RedirectURIs c) then
                    OAuthError ''invalid_redirect_uri'' ''redirect_uri not registered for this client'' 400
                  else case sessionFromCookie lib a now r of
                    None \<Rightarrow>
                      (case encodeIDPState codec now clientID redirectURI codeChallenge codeChallengeMethod scope st of
                         None \<Rightarrow> ErrorPage 500 ''Internal error''
                       | Some idpState \<Rightarrow>
                           (case az_idp a of
                              None \<Rightarrow> Panic
                            | Some idp \<Rightarrow> Redirect (fst (AuthURL idp idpState)) (snd (AuthURL idp idpState))))
                  | Some tenantID \<Rightarrow> showConsent lib a now tenantID c redirectURI codeChallenge codeChallengeMethod scope st))"

text \<open>The session cookie that is set, if any, and the accounts with the registered identity, beside the response.\<close>

definition HandleGoogleCallback ::
  "jwt_library \<Rightarrow> state_codec \<Rightarrow> AuthorizeServer \<Rightarrow> time \<Rightarrow> oauth_request \<Rightarrow> AccountStore
   \<Rightarrow> oauth_response \<times> string option \<times> AccountStore" where
  "HandleGoogleCallback lib codec a now r acc =
     (let code = Values_Get (rq_Query r) ''code''; idpState = Values_Get (rq_Query r) ''state''
      in if code = [] \<or> idpState = [] then (ErrorPage 400 ''Sign-in failed'', None, acc)
         else case az_idp a of
           None \<Rightarrow> (Panic, None, acc)
         | Some idp \<Rightarrow>
             (case ExchangeCode idp code idpState of
                None \<Rightarrow> (ErrorPage 502 ''Sign-in failed'', None, acc)
              | Some email \<Rightarrow>
                  (case tl_GetTenantByEmail (az_tenants a) email of
                     None \<Rightarrow> (Redirect (az_baseURL a @ ''/pricing'') [(''email'', email), (''reason'', ''no-account'')], None, acc)
                   | Some tenant \<Rightarrow>
                       let acc' = (if az_registers a then PutOAuthIdentity (az_baseURL a) (tb_ID tenant) (tb_ID tenant) acc else acc)
                       in case IssueSessionCookie lib (az_issuer a) now (tb_ID tenant) of
                            None \<Rightarrow> (ErrorPage 500 ''Internal error'', None, acc')
                          | Some sessionToken \<Rightarrow>
                              (case decodeIDPState codec now idpState of
                                 None \<Rightarrow> (ErrorPage 400 ''Sign-in expired'', Some sessionToken, acc')
                               | Some orig \<Rightarrow>
                                   (Redirect (az_baseURL a @ ''/oauth/authorize'')
                                      ([(''client_id'', ip_ClientID orig), (''code_challenge'', ip_CodeChallenge orig),
                                        (''code_challenge_method'', ip_CodeChallengeMethod orig), (''redirect_uri'', ip_RedirectURI orig),
                                        (''response_type'', ''code'')] @ opt_param ''scope'' (ip_Scope orig) @ opt_param ''state'' (ip_State orig)),
                                    Some sessionToken, acc')))))"

definition consent_code :: "time \<Rightarrow> string \<Rightarrow> string \<Rightarrow> oauth_request \<Rightarrow> Code" where
  "consent_code now tenantID codeHash r =
     \<lparr>CodeHash = codeHash, cd_ClientID = FormValue r ''client_id'', cd_TenantID = tenantID, RedirectURI = FormValue r ''redirect_uri'',
      CodeChallenge = FormValue r ''code_challenge'', CodeChallengeMethod = FormValue r ''code_challenge_method'',
      cd_Scope = FormValue r ''scope'', cd_ExpiresAt = now + 60 * 1000000000, Used = False\<rparr>"

text \<open>Whether the redirect URI of the form is one the client has registered.\<close>

definition redirect_registered :: "fails \<Rightarrow> oauth_request \<Rightarrow> oauth_store \<Rightarrow> bool" where
  "redirect_registered fails r s \<longleftrightarrow>
     (case GetClient fails (FormValue r ''client_id'') s of Inl _ \<Rightarrow> False | Inr c \<Rightarrow> FormValue r ''redirect_uri'' \<in> set (RedirectURIs c))"

definition HandleConfirm ::
  "(string \<Rightarrow> bytes) \<Rightarrow> jwt_library \<Rightarrow> fails \<Rightarrow> AuthorizeServer \<Rightarrow> time \<Rightarrow> bytes option \<Rightarrow> oauth_request \<Rightarrow> oauth_store
   \<Rightarrow> oauth_response \<times> oauth_store" where
  "HandleConfirm sha256 lib fails a now rnd r s =
     (if rq_Method r \<noteq> ''POST'' then (ErrorPage 405 ''Method not allowed'', s)
      else if \<not> rq_FormOk r then (ErrorPage 400 ''Bad request'', s)
      else case ValidateSessionCookie lib (az_verifier a) now (FormValue r ''session'') of
        None \<Rightarrow> (ErrorPage 401 ''Session expired'', s)
      | Some tenantID \<Rightarrow>
          let redirectURI = FormValue r ''redirect_uri''; st = FormValue r ''state''
          in if \<not> redirect_registered fails r s
             then (ErrorPage 400 ''Invalid request'', s)
             else if FormValue r ''action'' \<noteq> ''allow'' then (redirectWithError redirectURI ''access_denied'' ''user denied the request'' st, s)
             else case GenerateToken sha256 rnd of
               None \<Rightarrow> (ErrorPage 500 ''Internal error'', s)
             | Some (plainCode, codeHash) \<Rightarrow>
                 (case PutCode fails (consent_code now tenantID codeHash r) s of
                    Inl _ \<Rightarrow> (ErrorPage 500 ''Internal error'', s)
                  | Inr s' \<Rightarrow> (Redirect redirectURI ([(''code'', plainCode)] @ opt_param ''state'' st), s')))"

section \<open>The token and revocation endpoints\<close>

definition writeTokenJSON ::
  "jwt_library \<Rightarrow> JWTIssuer \<Rightarrow> TenantLookup option \<Rightarrow> time \<Rightarrow> string \<Rightarrow> string \<Rightarrow> string \<Rightarrow> string \<Rightarrow> string \<Rightarrow> string \<Rightarrow> time \<Rightarrow> oauth_response" where
  "writeTokenJSON lib issuer tenants now jti audience tenantID clientID scope plainRefresh refreshExpiry =
     (let brief = (case tenants of None \<Rightarrow> None | Some l \<Rightarrow> tl_GetTenantByID l tenantID);
          email = (case brief of None \<Rightarrow> [] | Some t \<Rightarrow> tb_Email t);
          name = (case brief of None \<Rightarrow> [] | Some t \<Rightarrow> tb_Name t)
      in case IssueAccessToken lib issuer now tenantID clientID scope audience jti email name of
           None \<Rightarrow> PlainError ''internal error'' 500
         | Some accessToken \<Rightarrow>
             TokenJSON \<lparr>access_token = accessToken, token_type = ''Bearer'', expires_in = AccessTokenTTL div 1000000000,
               refresh_token = plainRefresh, refresh_token_expires_in = (refreshExpiry - now) div 1000000000, tr_scope = nonempty scope\<rparr>)"

text \<open>Why a valid code does not fit the request; empty when it fits.\<close>

definition code_refusal :: "(string \<Rightarrow> bytes) \<Rightarrow> oauth_request \<Rightarrow> Code \<Rightarrow> string" where
  "code_refusal sha256 r code =
     (if cd_ClientID code \<noteq> FormValue r ''client_id'' then ''code was issued to a different client''
      else if RedirectURI code \<noteq> FormValue r ''redirect_uri'' then ''redirect_uri mismatch''
      else if \<not> pkceVerify sha256 (FormValue r ''code_verifier'') (CodeChallenge code)
      then ''code_verifier does not match code_challenge'' else [])"

definition handleAuthCode ::
  "(string \<Rightarrow> bytes) \<Rightarrow> jwt_library \<Rightarrow> fails \<Rightarrow> JWTIssuer \<Rightarrow> string \<Rightarrow> TenantLookup option \<Rightarrow> time \<Rightarrow> bytes option \<Rightarrow> string
   \<Rightarrow> oauth_request \<Rightarrow> oauth_store \<Rightarrow> oauth_response \<times> oauth_store" where
  "handleAuthCode sha256 lib fails issuer audience tenants now rnd jti r s =
     (let clientID = FormValue r ''client_id''; redirectURI = FormValue r ''redirect_uri'';
          codeVerifier = FormValue r ''code_verifier''; plainCode = FormValue r ''code''
      in if clientID = [] \<or> redirectURI = [] \<or> codeVerifier = [] \<or> plainCode = [] then
           (OAuthError ''invalid_request'' ''client_id, redirect_uri, code and code_verifier are required'' 400, s)
         else case GetClient fails clientID s of
           Inl e \<Rightarrow> (if e = ErrClientNotFound then OAuthError ''invalid_client'' ''unknown client_id'' 401
                     else PlainError ''internal error'' 500, s)
         | Inr c \<Rightarrow>
             if TokenEndpointAuthMethod c = ''client_secret_post'' \<and> HashToken sha256 (FormValue r ''client_secret'') \<noteq> ClientSecretHash c
             then (OAuthError ''invalid_client'' ''client authentication failed'' 401, s)
             else case UseCode fails now (HashToken sha256 plainCode) s of
               Inl e \<Rightarrow> (if e = ErrCodeNotFound \<or> e = ErrCodeExpiredOrUsed
                         then OAuthError ''invalid_grant'' ''authorization code is invalid or expired'' 400
                         else PlainError ''internal error'' 500, s)
             | Inr (code, s1) \<Rightarrow>
                 if code_refusal sha256 r code \<noteq> [] then (OAuthError ''invalid_grant'' (code_refusal sha256 r code) 400, s1)
                 else case GenerateToken sha256 rnd of
                   None \<Rightarrow> (PlainError ''internal error'' 500, s1)
                 | Some (plainRefresh, refreshHash) \<Rightarrow>
                     let refreshExpiry = now + RefreshTokenTTL
                     in case PutRefreshToken fails \<lparr>TokenHash = refreshHash, rt_ClientID = clientID, rt_TenantID = cd_TenantID code,
                            rt_Scope = cd_Scope code, rt_ExpiresAt = refreshExpiry, Revoked = False\<rparr> s1 of
                          Inl _ \<Rightarrow> (PlainError ''internal error'' 500, s1)
                        | Inr s2 \<Rightarrow> (writeTokenJSON lib issuer tenants now jti audience (cd_TenantID code) clientID (cd_Scope code)
                            plainRefresh refreshExpiry, s2))"

definition handleRefresh ::
  "(string \<Rightarrow> bytes) \<Rightarrow> jwt_library \<Rightarrow> fails \<Rightarrow> JWTIssuer \<Rightarrow> string \<Rightarrow> TenantLookup option \<Rightarrow> time \<Rightarrow> bytes option \<Rightarrow> string
   \<Rightarrow> oauth_request \<Rightarrow> oauth_store \<Rightarrow> oauth_response \<times> oauth_store" where
  "handleRefresh sha256 lib fails issuer audience tenants now rnd jti r s =
     (let plainToken = FormValue r ''refresh_token''; clientID = FormValue r ''client_id''
      in if plainToken = [] \<or> clientID = [] then
           (OAuthError ''invalid_request'' ''refresh_token and client_id are required'' 400, s)
         else case GenerateToken sha256 rnd of
           None \<Rightarrow> (PlainError ''internal error'' 500, s)
         | Some (plainNew, newHash) \<Rightarrow>
             let newExpiry = now + RefreshTokenTTL
             in case RotateRefreshToken fails now (HashToken sha256 plainToken)
                    \<lparr>TokenHash = newHash, rt_ClientID = clientID, rt_TenantID = [], rt_Scope = [], rt_ExpiresAt = newExpiry, Revoked = False\<rparr> s of
                  Inl e \<Rightarrow> (if e = ErrRefreshTokenNotFound \<or> e = ErrRefreshTokenRevoked
                            then OAuthError ''invalid_grant'' ''refresh token is invalid or revoked'' 400
                            else PlainError ''internal error'' 500, s)
                | Inr (rt, s1) \<Rightarrow> (writeTokenJSON lib issuer tenants now jti audience (rt_TenantID rt) clientID (rt_Scope rt)
                    plainNew newExpiry, s1))"

definition TokenHandler ::
  "(string \<Rightarrow> bytes) \<Rightarrow> jwt_library \<Rightarrow> fails \<Rightarrow> JWTIssuer \<Rightarrow> string \<Rightarrow> TenantLookup option \<Rightarrow> time \<Rightarrow> bytes option \<Rightarrow> string
   \<Rightarrow> oauth_request \<Rightarrow> oauth_store \<Rightarrow> oauth_response \<times> oauth_store" where
  "TokenHandler sha256 lib fails issuer audience tenants now rnd jti r s =
     (if rq_Method r \<noteq> ''POST'' then (PlainError ''method not allowed'' 405, s)
      else if \<not> rq_FormOk r then (OAuthError ''invalid_request'' ''cannot parse form body'' 400, s)
      else if FormValue r ''grant_type'' = ''authorization_code'' then
        handleAuthCode sha256 lib fails issuer audience tenants now rnd jti r s
      else if FormValue r ''grant_type'' = ''refresh_token'' then
        handleRefresh sha256 lib fails issuer audience tenants now rnd jti r s
      else (OAuthError ''unsupported_grant_type'' ''supported: authorization_code, refresh_token'' 400, s))"

definition RevokeHandler :: "(string \<Rightarrow> bytes) \<Rightarrow> fails \<Rightarrow> oauth_request \<Rightarrow> oauth_store \<Rightarrow> oauth_response \<times> oauth_store" where
  "RevokeHandler sha256 fails r s =
     (if rq_Method r \<noteq> ''POST'' then (PlainError ''method not allowed'' 405, s)
      else if \<not> rq_FormOk r then (OAuthError ''invalid_request'' ''cannot parse form body'' 400, s)
      else let token = FormValue r ''token''; clientID = FormValue r ''client_id''
      in if token = [] then (OAuthError ''invalid_request'' ''token is required'' 400, s)
         else if clientID \<noteq> [] \<and> (case GetClient fails clientID s of Inl _ \<Rightarrow> True | Inr _ \<Rightarrow> False) then (OK, s)
         else if FormValue r ''token_type_hint'' = ''access_token'' then (OK, s)
         else case RevokeRefreshToken fails (HashToken sha256 token) s of
           Inl _ \<Rightarrow> (PlainError ''internal error'' 500, s)
         | Inr s' \<Rightarrow> (OK, s'))"

section \<open>Keys, metadata, the identity provider and the adapters\<close>

text \<open>
  The signing key file: its contents, \<open>None\<close> when there is no file. The PEM codec and the generated key are
  arguments, and so is whether reading or writing the file fails.
\<close>

definition parsePEM :: "(bytes \<Rightarrow> bytes option) \<Rightarrow> bytes \<Rightarrow> bytes option" where
  "parsePEM pem_decode data =
     (case pem_decode data of None \<Rightarrow> None | Some b \<Rightarrow> if length b \<noteq> 64 then None else Some b)"

definition generateAndSave :: "(bytes \<Rightarrow> bytes) \<Rightarrow> bool \<Rightarrow> bytes option \<Rightarrow> bytes option \<times> bytes option" where
  "generateAndSave pem_encode writable generated =
     (case generated of
        None \<Rightarrow> (None, None)
      | Some priv \<Rightarrow> if writable then (Some priv, Some (pem_encode priv)) else (None, None))"

definition LoadOrGenerateEd25519 ::
  "(bytes \<Rightarrow> bytes) \<Rightarrow> (bytes \<Rightarrow> bytes option) \<Rightarrow> bool \<Rightarrow> bool \<Rightarrow> bytes option \<Rightarrow> bytes option \<Rightarrow> bytes option \<times> bytes option" where
  "LoadOrGenerateEd25519 pem_encode pem_decode readable writable generated file =
     (if \<not> readable then (None, file)
      else case file of
        None \<Rightarrow> generateAndSave pem_encode writable generated
      | Some data \<Rightarrow> (parsePEM pem_decode data, file))"

definition BuildJWK_kid :: "(bytes \<Rightarrow> bytes) \<Rightarrow> bytes \<Rightarrow> string" where
  "BuildJWK_kid sha256 priv = hex_bytes (take 8 (sha256 (ed25519_Public priv)))"

record ASMetadata =
  md_Issuer :: string
  AuthorizationEndpoint :: string
  TokenEndpoint :: string
  RegistrationEndpoint :: string
  JwksURI :: string
  ResponseTypesSupported :: "string list"
  GrantTypesSupported :: "string list"
  CodeChallengeMethodsSupported :: "string list"
  TokenEndpointAuthMethodsSupported :: "string list"
  ScopesSupported :: "string list"

definition NewASMetadata :: "string \<Rightarrow> ASMetadata" where
  "NewASMetadata baseURL =
     \<lparr>md_Issuer = baseURL, AuthorizationEndpoint = baseURL @ ''/oauth/authorize'', TokenEndpoint = baseURL @ ''/oauth/token'',
      RegistrationEndpoint = baseURL @ ''/oauth/register'', JwksURI = baseURL @ ''/.well-known/jwks.json'',
      ResponseTypesSupported = [''code''], GrantTypesSupported = [''authorization_code'', ''refresh_token''],
      CodeChallengeMethodsSupported = [''S256''], TokenEndpointAuthMethodsSupported = [''client_secret_post'', ''none''],
      ScopesSupported = [''mcp:tools:read'', ''mcp:tools:write'', ''mcp:tools:destructive'']\<rparr>"

text \<open>
  Google as the identity provider. The answers of its endpoints and the verification of an ID token with a key set are
  arguments: the status and \<open>id_token\<close> of the token endpoint, the fetched key set, the issuer and the \<open>email\<close>
  claim of a valid token.
\<close>

record 'k GoogleIDP =
  gi_clientID :: string
  gi_clientSecret :: string
  gi_redirectURI :: string
  jwksCache :: "'k option"
  jwksCachedAt :: time

definition NewGoogleIDP :: "string \<Rightarrow> string \<Rightarrow> string \<Rightarrow> 'k GoogleIDP" where
  "NewGoogleIDP clientID clientSecret redirectURI =
     \<lparr>gi_clientID = clientID, gi_clientSecret = clientSecret, gi_redirectURI = redirectURI, jwksCache = None, jwksCachedAt = 0\<rparr>"

definition GoogleAuthURL :: "'k GoogleIDP \<Rightarrow> string \<Rightarrow> string \<times> (string \<times> string) list" where
  "GoogleAuthURL g st =
     (''https://accounts.google.com/o/oauth2/v2/auth'',
      [(''access_type'', ''online''), (''client_id'', gi_clientID g), (''redirect_uri'', gi_redirectURI g),
       (''response_type'', ''code''), (''scope'', ''openid email profile''), (''state'', st)])"

definition getJWKS :: "'k option \<Rightarrow> time \<Rightarrow> 'k GoogleIDP \<Rightarrow> 'k option \<times> 'k GoogleIDP" where
  "getJWKS fetched now g =
     (if jwksCache g \<noteq> None \<and> now - jwksCachedAt g < 3600 * 1000000000 then (jwksCache g, g)
      else case fetched of
        None \<Rightarrow> (None, g)
      | Some ks \<Rightarrow> (Some ks, g\<lparr>jwksCache := Some ks, jwksCachedAt := now\<rparr>))"

definition emailFromIDToken ::
  "('k \<Rightarrow> time \<Rightarrow> string \<Rightarrow> (string \<times> json option) option) \<Rightarrow> 'k option \<Rightarrow> time \<Rightarrow> string \<Rightarrow> 'k GoogleIDP \<Rightarrow> string option \<times> 'k GoogleIDP" where
  "emailFromIDToken parse fetched now idToken g0 =
     (case getJWKS fetched now g0 of
        (None, g) \<Rightarrow> (None, g)
      | (Some ks, g) \<Rightarrow>
          (case parse ks now idToken of
             None \<Rightarrow> (None, g)
           | Some (issuer, email) \<Rightarrow>
               if issuer \<noteq> ''https://accounts.google.com'' \<and> issuer \<noteq> ''accounts.google.com'' then (None, g)
               else case email of
                 Some (JStr e) \<Rightarrow> (if e = [] then None else Some e, g)
               | _ \<Rightarrow> (None, g)))"

definition GoogleExchangeCode ::
  "(string \<Rightarrow> (nat \<times> string) option) \<Rightarrow> ('k \<Rightarrow> time \<Rightarrow> string \<Rightarrow> (string \<times> json option) option) \<Rightarrow> 'k option \<Rightarrow> time \<Rightarrow> string
   \<Rightarrow> 'k GoogleIDP \<Rightarrow> string option \<times> 'k GoogleIDP" where
  "GoogleExchangeCode respond parse fetched now code g =
     (case respond code of
        None \<Rightarrow> (None, g)
      | Some (status, idToken) \<Rightarrow>
          if status \<noteq> 200 \<or> idToken = [] then (None, g) else emailFromIDToken parse fetched now idToken g)"

definition tenant_brief :: "Tenant \<Rightarrow> TenantBrief" where
  "tenant_brief t = \<lparr>tb_ID = tn_ID t, tb_Name = tn_Name t, tb_Email = Email t\<rparr>"

definition billingTenantLookup :: "(string \<Rightarrow> AccountStore \<Rightarrow> billing_error + Tenant) \<Rightarrow> AccountStore \<Rightarrow> TenantLookup" where
  "billingTenantLookup by_email acc =
     \<lparr>tl_GetTenantByEmail = (\<lambda>email. case by_email email acc of Inl _ \<Rightarrow> None | Inr t \<Rightarrow> Some (tenant_brief t)),
      tl_GetTenantByID = (\<lambda>i. case GetTenant i acc of Inl _ \<Rightarrow> None | Inr t \<Rightarrow> Some (tenant_brief t))\<rparr>"

text \<open>How the relay sets the server up from one key and the configured base URL.\<close>

definition relay_issuer :: "bytes \<Rightarrow> string \<Rightarrow> string \<Rightarrow> JWTIssuer" where
  "relay_issuer privKey kid base = \<lparr>ji_priv = privKey, ji_kid = kid, ji_issuer = base\<rparr>"

definition relay_verifier :: "bytes \<Rightarrow> string \<Rightarrow> JWTVerifier" where
  "relay_verifier privKey base = NewJWTVerifier privKey base (base @ ''/mcp'')"

section \<open>Histories of the server\<close>

text \<open>
  The server with everything its handlers are created with, and the requests that read or change the store, each
  with the time, the random bytes and the failures of the database it meets.
\<close>

record oauth_server =
  sv_sha256 :: "string \<Rightarrow> bytes"
  sv_jwt :: jwt_library
  sv_parse :: "string \<Rightarrow> parsed_url option"
  sv_authorize :: AuthorizeServer
  sv_audience :: string
  sv_tenants :: "TenantLookup option"

datatype oauth_event =
    Register time bytes "bytes option" oauth_request fails
  | Confirm time "bytes option" oauth_request fails
  | Token time "bytes option" string oauth_request fails
  | Revoke oauth_request fails
  | CleanupTick time fails

fun oauth_step :: "oauth_server \<Rightarrow> oauth_event \<Rightarrow> dcrRateLimiter \<times> oauth_store \<Rightarrow> oauth_response \<times> dcrRateLimiter \<times> oauth_store" where
  "oauth_step sv (Register now i sec r fails) (l, s) = DCRHandler (sv_sha256 sv) (sv_parse sv) fails now i sec r l s"
| "oauth_step sv (Confirm now rnd r fails) (l, s) =
     (let (resp, s') = HandleConfirm (sv_sha256 sv) (sv_jwt sv) fails (sv_authorize sv) now rnd r s in (resp, l, s'))"
| "oauth_step sv (Token now rnd jti r fails) (l, s) =
     (let (resp, s') = TokenHandler (sv_sha256 sv) (sv_jwt sv) fails (az_issuer (sv_authorize sv)) (sv_audience sv) (sv_tenants sv) now rnd jti r s
      in (resp, l, s'))"
| "oauth_step sv (Revoke r fails) (l, s) = (let (resp, s') = RevokeHandler (sv_sha256 sv) fails r s in (resp, l, s'))"
| "oauth_step sv (CleanupTick now fails) (l, s) = (OK, l, snd (CleanupOAuthExpired fails now s))"

type_synonym oauth_log = "(oauth_event \<times> oauth_response) list"

fun oauth_run :: "oauth_server \<Rightarrow> oauth_event list \<Rightarrow> dcrRateLimiter \<times> oauth_store \<Rightarrow> oauth_log \<times> dcrRateLimiter \<times> oauth_store" where
  "oauth_run sv [] st = ([], st)"
| "oauth_run sv (e # es) st =
     (let (resp, st1) = oauth_step sv e st; (hist, st2) = oauth_run sv es st1 in ((e, resp) # hist, st2))"

text \<open>The code that a confirmed consent stored, and the hash of the code that a token request redeemed.\<close>

fun issued_code :: "oauth_server \<Rightarrow> oauth_event \<times> oauth_response \<Rightarrow> Code option" where
  "issued_code sv (Confirm now rnd r fails, Redirect uri params) =
     (case (ValidateSessionCookie (sv_jwt sv) (az_verifier (sv_authorize sv)) now (FormValue r ''session''), GenerateToken (sv_sha256 sv) rnd) of
        (Some tenantID, Some (plainCode, codeHash)) \<Rightarrow>
          if FormValue r ''action'' = ''allow'' then Some (stored_code (consent_code now tenantID codeHash r)) else None
      | _ \<Rightarrow> None)"
| "issued_code sv _ = None"

fun redeemed :: "oauth_server \<Rightarrow> oauth_event \<times> oauth_response \<Rightarrow> string option" where
  "redeemed sv (Token now rnd jti r fails, TokenJSON tr) =
     (if FormValue r ''grant_type'' = ''authorization_code'' then Some (HashToken (sv_sha256 sv) (FormValue r ''code'')) else None)"
| "redeemed sv _ = None"

definition registered_uri :: "oauth_log \<Rightarrow> string \<Rightarrow> string \<Rightarrow> bool" where
  "registered_uri hist clientID uri \<longleftrightarrow>
     (\<exists>(e, resp) \<in> set hist. \<exists>d. resp = Registered d \<and> dr_ClientID d = clientID \<and> uri \<in> set (dr_RedirectURIs d))"

definition fresh_codes :: "oauth_server \<Rightarrow> oauth_log \<Rightarrow> bool" where
  "fresh_codes sv hist \<longleftrightarrow> distinct (map CodeHash (List.map_filter (issued_code sv) hist))"

definition was_issued :: "oauth_server \<Rightarrow> oauth_log \<Rightarrow> string \<Rightarrow> bool" where
  "was_issued sv hist h \<longleftrightarrow> (\<exists>x \<in> set hist. \<exists>c. issued_code sv x = Some c \<and> CodeHash c = h)"

text \<open>A stored code comes from a confirmed consent for a URI that its client registered; it differs at most in being used.\<close>

definition code_origin :: "oauth_server \<Rightarrow> oauth_log \<Rightarrow> string \<Rightarrow> Code \<Rightarrow> bool" where
  "code_origin sv hist h c \<longleftrightarrow> CodeHash c = h \<and> registered_uri hist (cd_ClientID c) (RedirectURI c) \<and>
     (\<exists>x \<in> set hist. \<exists>u. issued_code sv x = Some (c\<lparr>Used := u\<rparr>))"

definition oauth_inv :: "oauth_server \<Rightarrow> oauth_log \<Rightarrow> oauth_store \<Rightarrow> bool" where
  "oauth_inv sv hist s \<longleftrightarrow>
     (\<forall>h c. map_of (oauth_codes s) h = Some c \<longrightarrow> code_origin sv hist h c) \<and>
     (\<forall>x \<in> set hist. \<forall>h. redeemed sv x = Some h \<longrightarrow> was_issued sv hist h \<and> (\<forall>c. map_of (oauth_codes s) h = Some c \<longrightarrow> Used c)) \<and>
     (\<forall>i c. map_of (oauth_clients s) i = Some c \<longrightarrow> (\<forall>u \<in> set (RedirectURIs c). registered_uri hist i u)) \<and>
     distinct (mkeys (oauth_codes s))"

lemma oauth_run_append:
  "oauth_run sv (es @ fs) st =
     (let (hist, st1) = oauth_run sv es st; (hist', st2) = oauth_run sv fs st1 in (hist @ hist', st2))"
  by (induction es arbitrary: st) (auto simp: Let_def split: prod.splits)

lemma oauth_run_length: "length (fst (oauth_run sv es st)) = length es"
  by (induction es arbitrary: st) (simp_all add: Let_def case_prod_beta)

subsection \<open>What the handlers do to the store\<close>

lemma PutClient_effect:
  assumes "PutClient fails c s = Inr s'"
  shows "\<exists>c'. s' = s\<lparr>oauth_clients := mput (oc_ClientID c) c' (oauth_clients s)\<rparr> \<and> RedirectURIs c' = RedirectURIs c"
  using assms unfolding PutClient_def by (auto simp: Let_def split: if_splits option.splits)

lemma DCRHandler_effect:
  assumes "DCRHandler sha parse fails now i sec r l s = (resp, l', s')"
  shows "s' = s \<or> (\<exists>c p fails. resp = Registered (dcr_response c p) \<and> PutClient fails c s = Inr s')"
  using assms unfolding DCRHandler_def Let_def
  by (auto split: if_splits option.splits prod.splits sum.splits simp del: not_None_eq)

lemma redirect_registeredD:
  "redirect_registered fails r s \<Longrightarrow>
     \<exists>cl. map_of (oauth_clients s) (FormValue r ''client_id'') = Some cl \<and> FormValue r ''redirect_uri'' \<in> set (RedirectURIs cl)"
  by (auto simp: redirect_registered_def GetClient_def split: if_splits option.splits)

lemma HandleConfirm_effect:
  assumes "HandleConfirm (sv_sha256 sv) (sv_jwt sv) fails (sv_authorize sv) now rnd r s = (resp, s')"
  shows "issued_code sv (Confirm now rnd r fails, resp) = None \<and> s' = s \<or>
    (\<exists>c. issued_code sv (Confirm now rnd r fails, resp) = Some (stored_code c) \<and> PutCode fails c s = Inr s' \<and>
       redirect_registered fails r s \<and> cd_ClientID c = FormValue r ''client_id'' \<and> RedirectURI c = FormValue r ''redirect_uri'')"
  using assms unfolding HandleConfirm_def redirectWithError_def Let_def
  by (auto split: if_splits option.splits prod.splits sum.splits simp: consent_code_def)

lemma PutRefreshToken_effect:
  assumes "PutRefreshToken fails rt s = Inr s'"
  shows "oauth_codes s' = oauth_codes s" and "oauth_clients s' = oauth_clients s"
  using assms by (auto simp: PutRefreshToken_def split: if_splits)

lemma RotateRefreshToken_effect:
  assumes "RotateRefreshToken fails now h new s = Inr (rt, s')"
  shows "oauth_codes s' = oauth_codes s" and "oauth_clients s' = oauth_clients s" and "rt = new"
  using assms by (auto simp: RotateRefreshToken_def split: if_splits option.splits)

lemma UseCode_effect:
  assumes "UseCode fails now h s = Inr (c, s')"
  shows "map_of (oauth_codes s) h = Some c" and "\<not> Used c" and "now \<le> cd_ExpiresAt c"
    and "s' = s\<lparr>oauth_codes := mput h (c\<lparr>Used := True\<rparr>) (oauth_codes s)\<rparr>"
  using assms by (auto simp: UseCode_def split: if_splits option.splits)

lemma handleAuthCode_effect:
  assumes "handleAuthCode sha lib fails issuer aud tenants now rnd jti r s = (resp, s')"
  shows "(\<forall>tr. resp \<noteq> TokenJSON tr) \<and> s' = s \<or>
     (\<exists>c s1. UseCode fails now (HashToken sha (FormValue r ''code'')) s = Inr (c, s1) \<and>
        oauth_codes s' = oauth_codes s1 \<and> oauth_clients s' = oauth_clients s1 \<and>
        ((\<forall>tr. resp \<noteq> TokenJSON tr) \<or> code_refusal sha r c = [] \<and>
           (\<exists>plain expiry. resp = writeTokenJSON lib issuer tenants now jti aud (cd_TenantID c) (FormValue r ''client_id'') (cd_Scope c) plain expiry)))"
  using assms unfolding handleAuthCode_def Let_def
  by (auto split: if_splits option.splits prod.splits sum.splits dest: PutRefreshToken_effect)

lemma handleRefresh_effect:
  assumes "handleRefresh sha lib fails issuer aud tenants now rnd jti r s = (resp, s')"
  shows "oauth_clients s' = oauth_clients s" and "oauth_codes s' = oauth_codes s"
  using assms unfolding handleRefresh_def Let_def
  by (auto split: if_splits option.splits prod.splits sum.splits dest: RotateRefreshToken_effect)

lemma RevokeHandler_effect:
  assumes "RevokeHandler sha fails r s = (resp, s')"
  shows "oauth_clients s' = oauth_clients s" and "oauth_codes s' = oauth_codes s"
  using assms unfolding RevokeHandler_def RevokeRefreshToken_def Let_def
  by (auto split: if_splits option.splits prod.splits sum.splits)

lemma CleanupOAuthExpired_effect:
  "oauth_clients (snd (CleanupOAuthExpired fails now s)) = oauth_clients s"
  "distinct (mkeys (oauth_codes s)) \<Longrightarrow> map_of (oauth_codes (snd (CleanupOAuthExpired fails now s))) h = Some c \<Longrightarrow> map_of (oauth_codes s) h = Some c"
  "distinct (mkeys (oauth_codes s)) \<Longrightarrow> distinct (mkeys (oauth_codes (snd (CleanupOAuthExpired fails now s))))"
  by (auto simp: CleanupOAuthExpired_def Let_def map_of_filter_distinct distinct_map_filter split: if_splits option.splits)

lemma TokenHandler_effect:
  assumes "TokenHandler (sv_sha256 sv) lib fails issuer aud tenants now rnd jti r s = (resp, s')"
  shows "redeemed sv (Token now rnd jti r fails, resp) = None \<and> oauth_codes s' = oauth_codes s \<and> oauth_clients s' = oauth_clients s \<or>
    (\<exists>c s1. UseCode fails now (HashToken (sv_sha256 sv) (FormValue r ''code'')) s = Inr (c, s1) \<and>
        oauth_codes s' = oauth_codes s1 \<and> oauth_clients s' = oauth_clients s1 \<and>
        redeemed sv (Token now rnd jti r fails, resp) \<in> {None, Some (HashToken (sv_sha256 sv) (FormValue r ''code''))} \<and>
        (redeemed sv (Token now rnd jti r fails, resp) \<noteq> None \<longrightarrow> code_refusal (sv_sha256 sv) r c = [] \<and>
           (\<exists>plain expiry. resp = writeTokenJSON lib issuer tenants now jti aud (cd_TenantID c) (FormValue r ''client_id'') (cd_Scope c) plain expiry)))"
proof (cases "rq_Method r = ''POST'' \<and> rq_FormOk r \<and> FormValue r ''grant_type'' = ''authorization_code''")
  case True
  then have "handleAuthCode (sv_sha256 sv) lib fails issuer aud tenants now rnd jti r s = (resp, s')"
    using assms by (simp add: TokenHandler_def)
  from handleAuthCode_effect [OF this] show ?thesis by (cases resp) auto
next
  case False
  then have "redeemed sv (Token now rnd jti r fails, resp) = None"
    using assms by (cases resp) (auto simp: TokenHandler_def split: if_splits)
  moreover have "oauth_codes s' = oauth_codes s \<and> oauth_clients s' = oauth_clients s"
    using assms False by (auto simp: TokenHandler_def dest: handleRefresh_effect split: if_splits)
  ultimately show ?thesis by blast
qed

lemma registered_uri_mono [simp]: "registered_uri hist i u \<Longrightarrow> registered_uri (hist @ h2) i u"
  by (auto simp: registered_uri_def)

lemma was_issued_mono [simp]: "was_issued sv hist h \<Longrightarrow> was_issued sv (hist @ h2) h"
  by (auto simp: was_issued_def)

lemma code_origin_mono [simp]: "code_origin sv hist h c \<Longrightarrow> code_origin sv (hist @ h2) h c"
  by (auto simp: code_origin_def)

lemma code_origin_issued: "code_origin sv hist h c \<Longrightarrow> was_issued sv hist h"
  by (force simp: code_origin_def was_issued_def)

lemma code_origin_Used [simp]: "code_origin sv hist h (c\<lparr>Used := u\<rparr>) \<longleftrightarrow> code_origin sv hist h c"
  by (simp add: code_origin_def)

lemma fresh_codes_snoc:
  assumes "fresh_codes sv (hist @ [x])" and "issued_code sv x = Some c"
  shows "\<not> was_issued sv hist (CodeHash c)"
  using assms by (force simp: fresh_codes_def was_issued_def map_filter_def List.map_filter_def)

lemma oauth_inv_same:
  assumes "oauth_inv sv hist s" and "oauth_codes s' = oauth_codes s" and "oauth_clients s' = oauth_clients s" and "redeemed sv x = None"
  shows "oauth_inv sv (hist @ [x]) s'"
  using assms unfolding oauth_inv_def by auto

lemma oauth_inv_used:
  assumes inv: "oauth_inv sv hist s" and use: "UseCode fails now h s = Inr (c, s1)"
    and s': "oauth_codes s' = oauth_codes s1" "oauth_clients s' = oauth_clients s1" and x: "redeemed sv x \<in> {None, Some h}"
  shows "oauth_inv sv (hist @ [x]) s'"
proof -
  have c: "map_of (oauth_codes s) h = Some c" and s1: "s1 = s\<lparr>oauth_codes := mput h (c\<lparr>Used := True\<rparr>) (oauth_codes s)\<rparr>"
    using UseCode_effect [OF use] by simp_all
  then have "code_origin sv hist h c" using inv by (simp add: oauth_inv_def)
  then show ?thesis
    using inv x s' unfolding s1 oauth_inv_def by (auto simp: gomap dest: code_origin_issued)
qed

lemma oauth_inv_issued:
  assumes inv: "oauth_inv sv hist s" and put: "PutCode fails c s = Inr s'" and x: "issued_code sv x = Some (stored_code c)" "redeemed sv x = None"
    and fresh: "fresh_codes sv (hist @ [x])" and uri: "registered_uri hist (cd_ClientID c) (RedirectURI c)"
  shows "oauth_inv sv (hist @ [x]) s'"
proof -
  have s': "s' = s\<lparr>oauth_codes := mput (CodeHash c) (stored_code c) (oauth_codes s)\<rparr>"
    using put by (simp add: PutCode_def split: if_splits)
  have "\<not> was_issued sv hist (CodeHash c)"
    using fresh_codes_snoc [OF fresh x(1)] by (simp add: stored_code_def)
  moreover have "stored_code c\<lparr>Used := False\<rparr> = stored_code c" by (simp add: stored_code_def)
  then have "code_origin sv (hist @ [x]) (CodeHash c) (stored_code c)"
    using x(1) uri unfolding code_origin_def by (auto simp: stored_code_def)
  ultimately show ?thesis
    using inv x(2) unfolding s' oauth_inv_def by (auto simp: gomap)
qed

lemma oauth_inv_registered:
  assumes inv: "oauth_inv sv hist s" and put: "PutClient fails c s = Inr s'"
    and x: "snd x = Registered (dcr_response c p)" "redeemed sv x = None"
  shows "oauth_inv sv (hist @ [x]) s'"
proof -
  obtain c' where s': "s' = s\<lparr>oauth_clients := mput (oc_ClientID c) c' (oauth_clients s)\<rparr>" "RedirectURIs c' = RedirectURIs c"
    using PutClient_effect [OF put] by blast
  have "registered_uri (hist @ [x]) (oc_ClientID c) u" if "u \<in> set (RedirectURIs c)" for u
    using that x(1) by (cases x) (auto simp: registered_uri_def dcr_response_def)
  then show ?thesis
    using inv x(2) unfolding s'(1) oauth_inv_def by (auto simp: gomap s'(2))
qed

lemma oauth_inv_step:
  assumes inv: "oauth_inv sv hist s" and step: "oauth_step sv e (l, s) = (resp, l', s')"
    and fresh: "fresh_codes sv (hist @ [(e, resp)])"
  shows "oauth_inv sv (hist @ [(e, resp)]) s'"
proof (cases e)
  case (Register now i sec r fails)
  then have "s' = s \<or> (\<exists>c p fails. resp = Registered (dcr_response c p) \<and> PutClient fails c s = Inr s')"
    using step DCRHandler_effect by simp
  moreover have "redeemed sv (e, resp) = None" using Register by simp
  ultimately show ?thesis using oauth_inv_same [OF inv] oauth_inv_registered [OF inv] by auto
next
  case (Confirm now rnd r fails)
  then have run: "HandleConfirm (sv_sha256 sv) (sv_jwt sv) fails (sv_authorize sv) now rnd r s = (resp, s')"
    using step by (auto split: prod.splits)
  have uri: "registered_uri hist (FormValue r ''client_id'') (FormValue r ''redirect_uri'')" if "redirect_registered fails r s"
    using redirect_registeredD [OF that] inv by (auto simp: oauth_inv_def)
  show ?thesis
    using HandleConfirm_effect [OF run] oauth_inv_same [OF inv] oauth_inv_issued [OF inv] fresh uri Confirm by auto
next
  case (Token now rnd jti r fails)
  then have run: "TokenHandler (sv_sha256 sv) (sv_jwt sv) fails (az_issuer (sv_authorize sv)) (sv_audience sv) (sv_tenants sv) now rnd jti r s = (resp, s')"
    using step by (auto split: prod.splits)
  show ?thesis
    using TokenHandler_effect [OF run] oauth_inv_same [OF inv] oauth_inv_used [OF inv] unfolding Token by blast
next
  case (Revoke r fails)
  then have "RevokeHandler (sv_sha256 sv) fails r s = (resp, s')" using step by (auto split: prod.splits)
  then show ?thesis using RevokeHandler_effect oauth_inv_same [OF inv] Revoke by simp
next
  case (CleanupTick now fails)
  then have s': "s' = snd (CleanupOAuthExpired fails now s)" using step by simp
  show ?thesis
    using inv CleanupOAuthExpired_effect(2,3) [where s = s and fails = fails and now = now] unfolding oauth_inv_def s' CleanupTick
    by (auto simp: CleanupOAuthExpired_effect(1))
qed

lemma fresh_codes_prefix: "fresh_codes sv (xs @ ys) \<Longrightarrow> fresh_codes sv xs"
  by (simp add: fresh_codes_def List.map_filter_def)

lemma oauth_run_inv:
  assumes "oauth_run sv es ([], empty_oauth_store) = (hist, l, s)" and "fresh_codes sv hist"
  shows "oauth_inv sv hist s"
  using assms
proof (induction es arbitrary: hist l s rule: rev_induct)
  case Nil
  then show ?case by (auto simp: oauth_inv_def empty_oauth_store_def)
next
  case (snoc e es)
  obtain h l1 s1 where run: "oauth_run sv es ([], empty_oauth_store) = (h, l1, s1)" by (metis prod_cases3)
  obtain resp l2 s2 where step: "oauth_step sv e (l1, s1) = (resp, l2, s2)" by (metis prod_cases3)
  have eq: "hist = h @ [(e, resp)]" "s = s2" using snoc.prems(1) run step by (simp_all add: oauth_run_append)
  show ?case
    using oauth_inv_step [OF snoc.IH [OF run] step] fresh_codes_prefix snoc.prems(2) unfolding eq by blast
qed

lemma oauth_run_split:
  assumes "oauth_run sv es st = (before @ (e, resp) # after, st')"
  shows "\<exists>es1 st1 st2. oauth_run sv es1 st = (before, st1) \<and> oauth_step sv e st1 = (resp, st2)"
  using assms
proof (induction es arbitrary: before st)
  case (Cons f es)
  obtain r1 st1 where f: "oauth_step sv f st = (r1, st1)" by (cases "oauth_step sv f st") auto
  show ?case
  proof (cases before)
    case Nil
    with Cons.prems f have "oauth_run sv [] st = (before, st) \<and> oauth_step sv e st = (resp, st1)" by (auto split: prod.splits)
    then show ?thesis by blast
  next
    case (Cons b bs)
    with Cons.prems f have b: "b = (f, r1)" and "oauth_run sv es st1 = (bs @ (e, resp) # after, st')"
      by (auto simp: Let_def split: prod.splits)
    then obtain es1 sa sb where "oauth_run sv es1 st1 = (bs, sa)" "oauth_step sv e sa = (resp, sb)" using Cons.IH by blast
    then have "oauth_run sv (f # es1) st = (before, sa)" "oauth_step sv e sa = (resp, sb)" using f b Cons by simp_all
    then show ?thesis by blast
  qed
qed simp

lemma redeemed_use:
  assumes run: "oauth_run sv es ([], empty_oauth_store) = (before @ (Token now rnd jti r fails, resp) # after, st)"
    and fresh: "fresh_codes sv (before @ (Token now rnd jti r fails, resp) # after)"
    and red: "redeemed sv (Token now rnd jti r fails, resp) = Some h"
  shows "\<exists>s c s1 plain expiry. oauth_inv sv before s \<and> UseCode fails now h s = Inr (c, s1) \<and> code_refusal (sv_sha256 sv) r c = [] \<and>
    resp = writeTokenJSON (sv_jwt sv) (az_issuer (sv_authorize sv)) (sv_tenants sv) now jti (sv_audience sv) (cd_TenantID c)
      (FormValue r ''client_id'') (cd_Scope c) plain expiry"
proof -
  obtain es1 l s st2 where 1: "oauth_run sv es1 ([], empty_oauth_store) = (before, l, s)"
    and 2: "oauth_step sv (Token now rnd jti r fails) (l, s) = (resp, st2)"
    using oauth_run_split [OF run] by auto
  have inv: "oauth_inv sv before s" using oauth_run_inv [OF 1] fresh_codes_prefix [OF fresh] .
  obtain s2 where "TokenHandler (sv_sha256 sv) (sv_jwt sv) fails (az_issuer (sv_authorize sv)) (sv_audience sv) (sv_tenants sv) now rnd jti r s = (resp, s2)"
    using 2 by (auto split: prod.splits)
  from TokenHandler_effect [OF this] red inv show ?thesis by auto
qed

lemma redeemed_Token: "redeemed sv y = Some h \<Longrightarrow> \<exists>now rnd jti r fails resp. y = (Token now rnd jti r fails, resp)"
  by (cases "(sv, y)" rule: redeemed.cases) auto

lemma redeemed_first:
  assumes run: "oauth_run sv es ([], empty_oauth_store) = (before @ y # after, st)" and fresh: "fresh_codes sv (before @ y # after)"
    and red: "redeemed sv y = Some h"
  shows "\<forall>x \<in> set before. redeemed sv x \<noteq> Some h"
proof -
  obtain now rnd jti r fails resp where y: "y = (Token now rnd jti r fails, resp)" using redeemed_Token [OF red] by blast
  obtain s c s1 where inv: "oauth_inv sv before s" and use: "UseCode fails now h s = Inr (c, s1)"
    using redeemed_use [OF run [unfolded y] fresh [unfolded y] red [unfolded y]] by blast
  have "map_of (oauth_codes s) h = Some c" "\<not> Used c" using UseCode_effect [OF use] by simp_all
  with inv show ?thesis by (auto simp: oauth_inv_def)
qed

lemma code_refusal_Nil:
  "code_refusal sha r c = [] \<longleftrightarrow> cd_ClientID c = FormValue r ''client_id'' \<and> RedirectURI c = FormValue r ''redirect_uri'' \<and>
     base64url (sha (FormValue r ''code_verifier'')) = CodeChallenge c"
  by (simp add: code_refusal_def pkceVerify_def)

lemma redeemed_origin:
  assumes run: "oauth_run sv es ([], empty_oauth_store) = (before @ (Token now rnd jti r fails, TokenJSON tr) # after, st)"
    and fresh: "fresh_codes sv (before @ (Token now rnd jti r fails, TokenJSON tr) # after)"
    and grant: "FormValue r ''grant_type'' = ''authorization_code''"
  shows "\<exists>x \<in> set before. \<exists>c. issued_code sv x = Some c \<and> CodeHash c = HashToken (sv_sha256 sv) (FormValue r ''code'') \<and>
       cd_ClientID c = FormValue r ''client_id'' \<and> RedirectURI c = FormValue r ''redirect_uri'' \<and>
       registered_uri before (cd_ClientID c) (RedirectURI c) \<and> CodeChallenge c = base64url (sv_sha256 sv (FormValue r ''code_verifier'')) \<and>
       now \<le> cd_ExpiresAt c \<and>
       (\<exists>email name. IssueAccessToken (sv_jwt sv) (az_issuer (sv_authorize sv)) now (cd_TenantID c) (cd_ClientID c) (cd_Scope c)
          (sv_audience sv) jti email name = Some (access_token tr))"
proof -
  let ?h = "HashToken (sv_sha256 sv) (FormValue r ''code'')"
  have red: "redeemed sv (Token now rnd jti r fails, TokenJSON tr) = Some ?h" using grant by simp
  obtain s c s1 plain expiry where inv: "oauth_inv sv before s" and use: "UseCode fails now ?h s = Inr (c, s1)"
    and fits: "code_refusal (sv_sha256 sv) r c = []"
    and resp: "TokenJSON tr = writeTokenJSON (sv_jwt sv) (az_issuer (sv_authorize sv)) (sv_tenants sv) now jti (sv_audience sv)
      (cd_TenantID c) (FormValue r ''client_id'') (cd_Scope c) plain expiry"
    using redeemed_use [OF run fresh red] by blast
  have "code_origin sv before ?h c" using inv UseCode_effect(1) [OF use] by (simp add: oauth_inv_def)
  then obtain x u where x: "x \<in> set before" "issued_code sv x = Some (c\<lparr>Used := u\<rparr>)" and "CodeHash c = ?h"
    and "registered_uri before (cd_ClientID c) (RedirectURI c)" by (auto simp: code_origin_def)
  moreover have "\<exists>email name. IssueAccessToken (sv_jwt sv) (az_issuer (sv_authorize sv)) now (cd_TenantID c) (FormValue r ''client_id'')
      (cd_Scope c) (sv_audience sv) jti email name = Some (access_token tr)"
    using resp by (auto simp: writeTokenJSON_def Let_def split: option.splits)
  moreover have "now \<le> cd_ExpiresAt c" using UseCode_effect(3) [OF use] .
  ultimately show ?thesis
    using fits by (intro bexI [OF _ x(1)] exI [of _ "c\<lparr>Used := u\<rparr>"]) (simp add: code_refusal_Nil)
qed

text \<open>
  What is relied on of the JWT library: signing succeeds and gives a compact token; a token parses with the
  public key of its signing key for its issuer, for its audience or without demanding one, while it is valid; and what it
  parses to has the subject it was signed with.
\<close>

definition token_ok :: "jwt_library \<Rightarrow> bytes \<Rightarrow> jwt_claims \<Rightarrow> string \<Rightarrow> bool" where
  "token_ok lib priv c t \<longleftrightarrow> HasPrefix t ''eyJ'' \<and>
     (\<forall>iss aud now c'. jwt_parse lib (ed25519_Public priv) iss aud now t = Some c' \<longrightarrow> jc_sub c' = jc_sub c) \<and>
     (\<forall>aud now. aud \<in> insert None (Some ` set (jc_aud c)) \<and> jc_iat c \<le> now \<and> now + 1000000000 \<le> jc_exp c \<longrightarrow>
        jwt_parse lib (ed25519_Public priv) (jc_iss c) aud now t \<noteq> None)"

definition jwt_ok :: "jwt_library \<Rightarrow> bytes \<Rightarrow> bool" where
  "jwt_ok lib priv \<longleftrightarrow> (\<forall>kid c. case jwt_sign lib priv kid c of None \<Rightarrow> False | Some t \<Rightarrow> token_ok lib priv c t)"

lemma jwt_ok_sign: "jwt_ok lib priv \<Longrightarrow> jwt_sign lib priv kid c = Some t \<Longrightarrow> token_ok lib priv c t"
  unfolding jwt_ok_def by (metis option.simps(5))

lemma jwt_ok_total: "jwt_ok lib priv \<Longrightarrow> \<exists>t. jwt_sign lib priv kid c = Some t"
  unfolding jwt_ok_def by (metis option.case_eq_if option.collapse)

lemma token_ok_sub:
  "token_ok lib priv c t \<Longrightarrow> jwt_parse lib (ed25519_Public priv) iss aud now t = Some c' \<Longrightarrow> jc_sub c' = jc_sub c"
  unfolding token_ok_def by blast

lemma token_ok_parses:
  assumes "token_ok lib priv c t" and "aud \<in> insert None (Some ` set (jc_aud c))" and "jc_iat c \<le> now" and "now + 1000000000 \<le> jc_exp c"
  shows "\<exists>c'. jwt_parse lib (ed25519_Public priv) (jc_iss c) aud now t = Some c' \<and> jc_sub c' = jc_sub c"
proof -
  have "jwt_parse lib (ed25519_Public priv) (jc_iss c) aud now t \<noteq> None" using assms unfolding token_ok_def by blast
  then obtain c' where "jwt_parse lib (ed25519_Public priv) (jc_iss c) aud now t = Some c'" by blast
  with token_ok_sub [OF assms(1)] show ?thesis by blast
qed

text \<open>The tokens of the relay's server against its own verifier.\<close>

lemma access_token_valid:
  assumes lib: "jwt_ok lib priv" and tok: "IssueAccessToken lib (relay_issuer priv kid base) t0 tenantID clientID scope (base @ ''/mcp'') jti email name = Some tok"
    and time: "t0 \<le> now" "now + 1000000000 \<le> t0 + AccessTokenTTL"
  shows "HasPrefix tok ''eyJ''" and "tenantID \<noteq> [] \<Longrightarrow> ValidateClaims lib (relay_verifier priv base) now tok = Some tenantID"
    and "ValidateSessionCookie lib (relay_verifier priv base) now tok = Some tenantID"
proof -
  note ok = jwt_ok_sign [OF lib tok [unfolded IssueAccessToken_def relay_issuer_def JWTIssuer.simps]]
  show "HasPrefix tok ''eyJ''" using ok by (simp add: token_ok_def)
  show "ValidateClaims lib (relay_verifier priv base) now tok = Some tenantID" if "tenantID \<noteq> []"
    using token_ok_parses [OF ok, of "Some (base @ ''/mcp'')" now] time that
    by (auto simp: ValidateClaims_def relay_verifier_def NewJWTVerifier_def)
  show "ValidateSessionCookie lib (relay_verifier priv base) now tok = Some tenantID"
    using token_ok_parses [OF ok, of None now] time by (auto simp: ValidateSessionCookie_def relay_verifier_def NewJWTVerifier_def)
qed

lemma session_cookie_valid:
  assumes lib: "jwt_ok lib priv" and tok: "IssueSessionCookie lib (relay_issuer priv kid base) t0 tenantID = Some tok"
    and time: "t0 \<le> now" "now + 1000000000 \<le> t0 + SessionCookieTTL"
  shows "ValidateSessionCookie lib (relay_verifier priv base) now tok = Some tenantID"
proof -
  note ok = jwt_ok_sign [OF lib tok [unfolded IssueSessionCookie_def relay_issuer_def JWTIssuer.simps]]
  show ?thesis
    using token_ok_parses [OF ok, of None now] time by (auto simp: ValidateSessionCookie_def relay_verifier_def NewJWTVerifier_def)
qed

lemma writeTokenJSON_total:
  assumes "jwt_ok lib priv"
  shows "\<exists>tr email name. writeTokenJSON lib (relay_issuer priv kid base) tenants now jti aud tenantID clientID scope plain expiry = TokenJSON tr \<and>
    IssueAccessToken lib (relay_issuer priv kid base) now tenantID clientID scope aud jti email name = Some (access_token tr)"
proof -
  have "\<exists>tok. IssueAccessToken lib (relay_issuer priv kid base) now tenantID clientID scope aud jti email name = Some tok" for email name
    using jwt_ok_total [OF assms] by (simp add: IssueAccessToken_def relay_issuer_def)
  then obtain f where f: "\<And>email name. IssueAccessToken lib (relay_issuer priv kid base) now tenantID clientID scope aud jti email name = Some (f email name)"
    by metis
  show ?thesis unfolding writeTokenJSON_def Let_def f by auto
qed

text \<open>A consent that is confirmed: the form of the consent page with a valid session.\<close>

definition consent_form :: "oauth_request \<Rightarrow> string \<Rightarrow> bool" where
  "consent_form r session \<longleftrightarrow> rq_Method r = ''POST'' \<and> rq_FormOk r \<and> FormValue r ''session'' = session \<and> FormValue r ''action'' = ''allow''"

lemma HandleConfirm_issues:
  assumes "consent_form r session" and "ValidateSessionCookie lib (az_verifier a) now session = Some tenantID"
    and "redirect_registered fails r s" and "\<not> fails ''PutCode''" and "map_of (oauth_codes s) (HashToken sha (hex_bytes b)) = None"
  shows "HandleConfirm sha lib fails a now (Some b) r s =
    (Redirect (FormValue r ''redirect_uri'') ((''code'', hex_bytes b) # opt_param ''state'' (FormValue r ''state'')),
     s\<lparr>oauth_codes := mput (HashToken sha (hex_bytes b)) (stored_code (consent_code now tenantID (HashToken sha (hex_bytes b)) r)) (oauth_codes s)\<rparr>)"
  using assms by (simp add: HandleConfirm_def consent_form_def GenerateToken_def PutCode_def Let_def consent_code_def)

section \<open>Properties\<close>

text \<open>
  Property C11. An authorization code is redeemed once, and only by who may. In every history of a server that starts
  empty and whose generated codes do not collide, a token request that succeeds with a code has before
  it a consent that was confirmed with a valid session and stored this code; the client and the redirect URI are those of
  the consent, the URI was registered by that client before, the verifier hashes to the challenge, the code is not
  expired, the access token is issued for the tenant of the session; and no other request of the history, earlier
  or later, succeeds with the same code.
\<close>

theorem code_grant_sound:
  assumes run: "fst (oauth_run sv es ([], empty_oauth_store)) = before @ (Token now rnd jti r fails, TokenJSON tr) # after"
    and fresh: "fresh_codes sv (before @ (Token now rnd jti r fails, TokenJSON tr) # after)"
    and grant: "FormValue r ''grant_type'' = ''authorization_code''"
  shows "(\<exists>x \<in> set before. \<exists>c. issued_code sv x = Some c \<and> CodeHash c = HashToken (sv_sha256 sv) (FormValue r ''code'') \<and>
       cd_ClientID c = FormValue r ''client_id'' \<and> RedirectURI c = FormValue r ''redirect_uri'' \<and>
       registered_uri before (cd_ClientID c) (RedirectURI c) \<and> CodeChallenge c = base64url (sv_sha256 sv (FormValue r ''code_verifier'')) \<and>
       now \<le> cd_ExpiresAt c \<and>
       (\<exists>email name. IssueAccessToken (sv_jwt sv) (az_issuer (sv_authorize sv)) now (cd_TenantID c) (cd_ClientID c) (cd_Scope c)
          (sv_audience sv) jti email name = Some (access_token tr)))
    \<and> HashToken (sv_sha256 sv) (FormValue r ''code'') \<notin> set (List.map_filter (redeemed sv) (before @ after))"
proof -
  let ?h = "HashToken (sv_sha256 sv) (FormValue r ''code'')" and ?x = "(Token now rnd jti r fails, TokenJSON tr)"
  obtain st where run': "oauth_run sv es ([], empty_oauth_store) = (before @ ?x # after, st)" using run by (metis prod.collapse)
  have x: "redeemed sv ?x = Some ?h" using grant by simp
  have "redeemed sv y \<noteq> Some ?h" if y: "y \<in> set after" for y
  proof
    assume red: "redeemed sv y = Some ?h"
    obtain a1 a2 where "after = a1 @ y # a2" using y by (meson split_list)
    then have "oauth_run sv es ([], empty_oauth_store) = ((before @ ?x # a1) @ y # a2, st)" "fresh_codes sv ((before @ ?x # a1) @ y # a2)"
      using run' fresh by simp_all
    from redeemed_first [OF this red] x show False by simp
  qed
  then show ?thesis
    using redeemed_first [OF run' fresh x] redeemed_origin [OF run' fresh grant]
    by (auto simp: List.map_filter_def)
qed

text \<open>The token request of a client that received \<open>code\<close> for the consent given in \<open>r1\<close>.\<close>

definition redeeming_form :: "(string \<Rightarrow> bytes) \<Rightarrow> oauth_request \<Rightarrow> oauth_request \<Rightarrow> string \<Rightarrow> bool" where
  "redeeming_form sha r1 r2 code \<longleftrightarrow> rq_Method r2 = ''POST'' \<and> rq_FormOk r2 \<and> FormValue r2 ''grant_type'' = ''authorization_code'' \<and>
     FormValue r2 ''client_id'' = FormValue r1 ''client_id'' \<and> FormValue r2 ''redirect_uri'' = FormValue r1 ''redirect_uri'' \<and>
     FormValue r2 ''code'' = code \<and> base64url (sha (FormValue r2 ''code_verifier'')) = FormValue r1 ''code_challenge'' \<and>
     (\<forall>k \<in> {''client_id'', ''redirect_uri'', ''code'', ''code_verifier''}. FormValue r2 k \<noteq> [])"

lemma stored_time_bounds: "t - 1000000000 < stored_time t" "stored_time t \<le> t"
proof -
  have "0 \<le> t mod 1000000000" "t mod 1000000000 < 1000000000" by simp_all
  then show "t - 1000000000 < stored_time t" "stored_time t \<le> t" by (simp_all add: stored_time_def)
qed

lemma handleAuthCode_redeems:
  assumes r2: "redeeming_form sha r1 r2 code" and fails: "fails = (\<lambda>_. False)"
    and client: "map_of (oauth_clients s) (FormValue r1 ''client_id'') = Some c" "TokenEndpointAuthMethod c = ''none''"
    and stored: "map_of (oauth_codes s) (HashToken sha code) = Some (stored_code (consent_code t1 tenantID (HashToken sha code) r1))"
    and time: "now \<le> t1 + 59 * 1000000000" and new: "map_of (oauth_refresh_tokens s) (HashToken sha (hex_bytes b)) = None"
  shows "\<exists>s'. TokenHandler sha lib fails issuer aud tenants now (Some b) jti r2 s =
    (writeTokenJSON lib issuer tenants now jti aud tenantID (FormValue r1 ''client_id'') (FormValue r1 ''scope'') (hex_bytes b) (now + RefreshTokenTTL), s')"
proof -
  let ?code = "stored_code (consent_code t1 tenantID (HashToken sha code) r1)"
  have "now \<le> cd_ExpiresAt ?code"
    using stored_time_bounds(1) [of "t1 + 60 * 1000000000"] time by (simp add: stored_code_def consent_code_def)
  then have use: "UseCode fails now (HashToken sha code) s = Inr (?code, s\<lparr>oauth_codes := mput (HashToken sha code) (?code\<lparr>Used := True\<rparr>) (oauth_codes s)\<rparr>)"
    using stored fails by (simp add: UseCode_def stored_code_def)
  have fit: "code_refusal sha r2 ?code = []"
    using r2 by (simp add: code_refusal_Nil redeeming_form_def stored_code_def consent_code_def)
  have [simp]: "cd_TenantID ?code = tenantID" "cd_Scope ?code = FormValue r1 ''scope''" by (simp_all add: stored_code_def consent_code_def)
  show ?thesis
    using r2 client new use fit unfolding redeeming_form_def
    by (auto simp: TokenHandler_def handleAuthCode_def GetClient_def GenerateToken_def PutRefreshToken_def fails Let_def)
qed

text \<open>
  Property C12. The flow works, end to end. A tenant with a session confirms the consent page of a registered public
  client; the client redeems the code it gets within 59 seconds with the verifier of its challenge. The server
  answers with an access token, and for the next hour, less a second, the bearer middleware serves requests that carry it
  as requests of that tenant.
\<close>

theorem oauth_flow_completes:
  assumes lib: "jwt_ok lib priv" and verifier: "az_verifier a = relay_verifier priv base" and fails: "fails = (\<lambda>_. False)"
    and client: "map_of (oauth_clients s) (FormValue r1 ''client_id'') = Some c" "TokenEndpointAuthMethod c = ''none''"
      "FormValue r1 ''redirect_uri'' \<in> set (RedirectURIs c)"
    and session: "IssueSessionCookie lib (relay_issuer priv kid base) t0 (tn_ID t) = Some session" "consent_form r1 session"
    and t1: "t0 \<le> t1" "t1 + 1000000000 \<le> t0 + SessionCookieTTL"
    and codes: "map_of (oauth_codes s) (HashToken sha (hex_bytes b1)) = None" "map_of (oauth_refresh_tokens s) (HashToken sha (hex_bytes b2)) = None"
    and r2: "redeeming_form sha r1 r2 (hex_bytes b1)" and t2: "t2 \<le> t1 + 59 * 1000000000"
    and tenant: "map_of (as_tenants acc) (tn_ID t) = Some t" "tn_ID t \<noteq> []" "tn_Status t = TenantStatusActive" "BillingStatus t = ''active''"
  shows "\<exists>tr s'. TokenHandler sha lib fails (relay_issuer priv kid base) (base @ ''/mcp'') tenants t2 (Some b2) jti r2
      (snd (HandleConfirm sha lib fails a t1 (Some b1) r1 s)) = (TokenJSON tr, s') \<and>
    (\<forall>t3 r3 al. t2 \<le> t3 \<and> t3 + 1000000000 \<le> t2 + AccessTokenTTL \<and> Authorization r3 = ''Bearer '' @ access_token tr \<and> \<not> public_path r3 \<and>
       fst (AuthAllow t3 (realIP r3) al) \<longrightarrow>
       fst (BearerMiddleware hashKey (Some (ValidateClaims lib (relay_verifier priv base) t3)) env False t3 acc r3 al) = Serve (Some t))"
proof -
  have valid: "ValidateSessionCookie lib (az_verifier a) t1 session = Some (tn_ID t)"
    unfolding verifier by (rule session_cookie_valid [OF lib session(1) t1])
  have "redirect_registered fails r1 s" and "\<not> fails ''PutCode''" using client fails by (simp_all add: redirect_registered_def GetClient_def)
  note confirm = HandleConfirm_issues [OF session(2) valid this codes(1)]
  obtain s' where token: "TokenHandler sha lib fails (relay_issuer priv kid base) (base @ ''/mcp'') tenants t2 (Some b2) jti r2
      (snd (HandleConfirm sha lib fails a t1 (Some b1) r1 s)) =
    (writeTokenJSON lib (relay_issuer priv kid base) tenants t2 jti (base @ ''/mcp'') (tn_ID t) (FormValue r1 ''client_id'') (FormValue r1 ''scope'')
      (hex_bytes b2) (t2 + RefreshTokenTTL), s')"
    using handleAuthCode_redeems [OF r2 fails, of "snd (HandleConfirm sha lib fails a t1 (Some b1) r1 s)" c t1 "tn_ID t" t2 b2 lib "relay_issuer priv kid base"
        "base @ ''/mcp''" tenants jti] client t2 codes(2) unfolding confirm by (auto simp: gomap)
  obtain tr email name where tr: "writeTokenJSON lib (relay_issuer priv kid base) tenants t2 jti (base @ ''/mcp'') (tn_ID t) (FormValue r1 ''client_id'')
      (FormValue r1 ''scope'') (hex_bytes b2) (t2 + RefreshTokenTTL) = TokenJSON tr"
    "IssueAccessToken lib (relay_issuer priv kid base) t2 (tn_ID t) (FormValue r1 ''client_id'') (FormValue r1 ''scope'') (base @ ''/mcp'') jti email name
       = Some (access_token tr)"
    using writeTokenJSON_total [OF lib] by blast
  have "fst (BearerMiddleware hashKey (Some (ValidateClaims lib (relay_verifier priv base) t3)) env False t3 acc r3 al) = Serve (Some t)"
    if "t2 \<le> t3 \<and> t3 + 1000000000 \<le> t2 + AccessTokenTTL \<and> Authorization r3 = ''Bearer '' @ access_token tr \<and> \<not> public_path r3 \<and>
       fst (AuthAllow t3 (realIP r3) al)" for t3 r3 al
    using that access_token_valid(1,2) [OF lib tr(2), of t3] tenant unfolding BearerMiddleware_def public_path_def [symmetric]
    by (simp add: authenticate_iff bearer_tenant_iff serve_tenant_iff bearer_token_Bearer [simplified])
  with token tr(1) show ?thesis by auto
qed

text \<open>
  Property C35. A refreshed token belongs to nobody. Whenever the token endpoint answers a refresh request with
  tokens, the presented token was a live one and is revoked now, but the access token in the answer is issued for the
  empty subject and is refused at any time, and the new refresh token is stored without a tenant and
  without a scope: the server reads both from the token it just created instead of the old one. The request may name any
  client.
\<close>

theorem refresh_loses_tenant:
  assumes lib: "jwt_ok lib priv"
    and run: "handleRefresh sha lib fails (relay_issuer priv kid base) (base @ ''/mcp'') tenants now (Some b) jti r s = (TokenJSON tr, s')"
  shows "ValidateClaims lib (relay_verifier priv base) later (access_token tr) = None \<and>
    (\<exists>old. map_of (oauth_refresh_tokens s) (HashToken sha (FormValue r ''refresh_token'')) = Some old \<and> \<not> Revoked old \<and> now \<le> rt_ExpiresAt old) \<and>
    map_of (oauth_refresh_tokens s') (HashToken sha (hex_bytes b)) =
      Some \<lparr>TokenHash = HashToken sha (hex_bytes b), rt_ClientID = FormValue r ''client_id'', rt_TenantID = [], rt_Scope = [],
        rt_ExpiresAt = stored_time (now + RefreshTokenTTL), Revoked = False\<rparr>"
proof -
  let ?new = "\<lparr>TokenHash = HashToken sha (hex_bytes b), rt_ClientID = FormValue r ''client_id'', rt_TenantID = [], rt_Scope = [],
    rt_ExpiresAt = now + RefreshTokenTTL, Revoked = False\<rparr>"
  obtain rt where rot: "RotateRefreshToken fails now (HashToken sha (FormValue r ''refresh_token'')) ?new s = Inr (rt, s')"
    and tr: "TokenJSON tr = writeTokenJSON lib (relay_issuer priv kid base) tenants now jti (base @ ''/mcp'') (rt_TenantID rt) (FormValue r ''client_id'')
      (rt_Scope rt) (hex_bytes b) (now + RefreshTokenTTL)"
    using run by (auto simp: handleRefresh_def GenerateToken_def Let_def split: if_splits sum.splits)
  have rt: "rt_TenantID rt = []" using RotateRefreshToken_effect(3) [OF rot] by simp
  obtain email name where "IssueAccessToken lib (relay_issuer priv kid base) now [] (FormValue r ''client_id'') (rt_Scope rt) (base @ ''/mcp'') jti email name
      = Some (access_token tr)"
    using tr unfolding rt by (auto simp: writeTokenJSON_def Let_def split: option.splits)
  note ok = jwt_ok_sign [OF lib this [unfolded IssueAccessToken_def relay_issuer_def JWTIssuer.simps]]
  have "ValidateClaims lib (relay_verifier priv base) later (access_token tr) = None"
    using token_ok_sub [OF ok] by (auto simp: ValidateClaims_def relay_verifier_def NewJWTVerifier_def split: option.split)
  then show ?thesis
    using rot by (auto simp: RotateRefreshToken_def gomap split: if_splits option.splits)
qed

text \<open>
  Property C34. An access token passes for a session. The verifier of the consent form demands no audience, so for an hour
  whoever holds an access token of a tenant - the client it was issued to, or a server it was sent to - can post the
  consent form with it in place of the session. The server stores a code of that tenant for any
  registered client and any scope and redirects with it, although the tenant has not seen a consent page.
\<close>

theorem access_token_is_session:
  assumes lib: "jwt_ok lib priv" and verifier: "az_verifier a = relay_verifier priv base"
    and tok: "IssueAccessToken lib (relay_issuer priv kid base) t0 tenantID clientID scope (base @ ''/mcp'') jti email name = Some tok"
    and time: "t0 \<le> now" "now + 1000000000 \<le> t0 + AccessTokenTTL" and form: "consent_form r tok"
    and client: "redirect_registered fails r s" and db: "\<not> fails ''PutCode''" "map_of (oauth_codes s) (HashToken sha (hex_bytes b)) = None"
  shows "\<exists>s'. HandleConfirm sha lib fails a now (Some b) r s =
      (Redirect (FormValue r ''redirect_uri'') ((''code'', hex_bytes b) # opt_param ''state'' (FormValue r ''state'')), s') \<and>
    (\<exists>c. map_of (oauth_codes s') (HashToken sha (hex_bytes b)) = Some c \<and> cd_TenantID c = tenantID \<and>
       cd_ClientID c = FormValue r ''client_id'' \<and> cd_Scope c = FormValue r ''scope'' \<and> \<not> Used c)"
proof -
  have "ValidateSessionCookie lib (az_verifier a) now tok = Some tenantID"
    unfolding verifier by (rule access_token_valid(3) [OF lib tok time])
  from HandleConfirm_issues [OF form this client db] show ?thesis
    by (auto simp: gomap stored_code_def consent_code_def)
qed

section \<open>Sample histories\<close>

text \<open>A JWT library, a digest and a server that satisfy what the properties assume.\<close>

definition sample_jwt :: jwt_library where
  "sample_jwt = \<lparr>jwt_sign = (\<lambda>priv kid c. Some (''eyJ'' @ jc_sub c)),
     jwt_parse = (\<lambda>pub iss aud now t. if HasPrefix t ''eyJ'' then Some \<lparr>jc_iss = iss, jc_sub = drop 3 t, jc_aud = [], jc_iat = now, jc_exp = now,
       jc_jti = None, jc_client_id = None, jc_scope = None, jc_email = None, jc_name = None\<rparr> else None)\<rparr>"

lemma sample_jwt_ok: "jwt_ok sample_jwt priv"
  by (auto simp: jwt_ok_def token_ok_def sample_jwt_def HasPrefix_def)

definition sample_lookup :: TenantLookup where
  "sample_lookup = \<lparr>tl_GetTenantByEmail = (\<lambda>_. None), tl_GetTenantByID = (\<lambda>_. None)\<rparr>"

definition sample_authorize :: AuthorizeServer where
  "sample_authorize = NewAuthorizeServer None sample_lookup (relay_issuer [] ''k'' ''https://as'') (relay_verifier [] ''https://as'') ''https://as''"

definition sample_server :: oauth_server where
  "sample_server = \<lparr>sv_sha256 = string_bytes, sv_jwt = sample_jwt, sv_parse = (\<lambda>_. Some \<lparr>Scheme = ''https'', Hostname = ''app'', Fragment = []\<rparr>),
     sv_authorize = sample_authorize, sv_audience = ''https://as/mcp'', sv_tenants = None\<rparr>"

definition sample_post :: "(string \<times> string) list \<Rightarrow> oauth_request" where
  "sample_post form = \<lparr>rq_Method = ''POST'', rq_Query = [], rq_PostForm = form, rq_FormOk = True, rq_Cookie = None,
     rq_Body = Some \<lparr>dq_ClientName = ''app'', dq_RedirectURIs = [''https://app''], dq_GrantTypes = [], dq_Scope = [], dq_AuthMethod = []\<rparr>,
     rq_Headers = sample_request []\<rparr>"

definition no_failure :: fails where "no_failure = (\<lambda>_. False)"

definition sample_consent :: oauth_request where
  "sample_consent = sample_post [(''session'', ''eyJt''), (''client_id'', ''cli_07''), (''redirect_uri'', ''https://app''), (''action'', ''allow''),
     (''code_challenge'', base64url (string_bytes ''v''))]"

definition sample_redeem :: oauth_request where
  "sample_redeem = sample_post [(''grant_type'', ''authorization_code''), (''client_id'', ''cli_07''), (''redirect_uri'', ''https://app''),
     (''code'', ''01''), (''code_verifier'', ''v'')]"

definition sample_events :: "oauth_event list" where
  "sample_events = [Register 0 [7] None (sample_post []) no_failure, Confirm 0 (Some [1]) sample_consent no_failure,
     Token 0 (Some [2]) ''j'' sample_redeem no_failure, Token 0 (Some [3]) ''j'' sample_redeem no_failure]"

definition step_after :: "nat \<Rightarrow> oauth_response \<times> dcrRateLimiter \<times> oauth_store" where
  "step_after n = oauth_step sample_server (sample_events ! n) (snd (oauth_run sample_server (take n sample_events) ([], empty_oauth_store)))"

fun access_of :: "oauth_response \<Rightarrow> string option" where
  "access_of (TokenJSON tr) = Some (access_token tr)"
| "access_of _ = None"

lemma sample_token: "access_of (fst (step_after 2)) = Some ''eyJt''"
  by code_simp

lemma sample_reuse: "fst (step_after 3) = OAuthError ''invalid_grant'' ''authorization code is invalid or expired'' 400"
  by code_simp

lemma sample_hist:
  "fst (oauth_run sample_server sample_events ([], empty_oauth_store)) =
     [(sample_events ! 0, fst (step_after 0)), (sample_events ! 1, fst (step_after 1)), (sample_events ! 2, fst (step_after 2)),
      (sample_events ! 3, fst (step_after 3))]"
  by (simp add: sample_events_def step_after_def Let_def case_prod_beta)

lemma access_of_Some: "access_of resp = Some a \<longleftrightarrow> (\<exists>tr. resp = TokenJSON tr \<and> access_token tr = a)"
  by (cases resp) auto

theorem code_grant_sound_witness:
  "\<exists>x c. issued_code sample_server x = Some c \<and> CodeHash c = HashToken string_bytes ''01'' \<and> cd_ClientID c = ''cli_07'' \<and>
     CodeChallenge c = base64url (string_bytes ''v'')"
proof -
  obtain tr where tr: "fst (step_after 2) = TokenJSON tr" using sample_token by (auto simp: access_of_Some)
  let ?before = "[(sample_events ! 0, fst (step_after 0)), (sample_events ! 1, fst (step_after 1))]" and ?after = "[(sample_events ! 3, fst (step_after 3))]"
  have hist: "fst (oauth_run sample_server sample_events ([], empty_oauth_store)) =
      ?before @ (Token 0 (Some [2]) ''j'' sample_redeem no_failure, TokenJSON tr) # ?after"
    unfolding sample_hist tr by (simp add: sample_events_def)
  moreover have "fresh_codes sample_server (?before @ (Token 0 (Some [2]) ''j'' sample_redeem no_failure, TokenJSON tr) # ?after)"
    by (simp add: fresh_codes_def sample_events_def List.map_filter_def)
  moreover have "FormValue sample_redeem ''grant_type'' = ''authorization_code''" and "FormValue sample_redeem ''client_id'' = ''cli_07''"
    and "FormValue sample_redeem ''code'' = ''01''" and "FormValue sample_redeem ''code_verifier'' = ''v''"
    by (simp_all add: sample_redeem_def sample_post_def FormValue_def Values_Get_def)
  moreover have "sv_sha256 sample_server = string_bytes" by (simp add: sample_server_def)
  ultimately show ?thesis using code_grant_sound [of sample_server sample_events ?before] by metis
qed

definition sample_store :: oauth_store where
  "sample_store = \<lparr>oauth_clients = [(''cli_07'', \<lparr>oc_ClientID = ''cli_07'', ClientSecretHash = [], ClientName = ''app'', RedirectURIs = [''https://app''],
     GrantTypes = [''authorization_code''], oc_Scope = [], TokenEndpointAuthMethod = ''none'', ClientIDIssuedAt = 0, ClientSecretExpiresAt = 0,
     CreatedIP = []\<rparr>)], oauth_codes = [],
     oauth_refresh_tokens = [(HashToken string_bytes ''09'', \<lparr>TokenHash = HashToken string_bytes ''09'', rt_ClientID = ''cli_07'', rt_TenantID = ''t'',
       rt_Scope = [], rt_ExpiresAt = 100, Revoked = False\<rparr>)]\<rparr>"

definition sample_refresh :: oauth_request where
  "sample_refresh = sample_post [(''refresh_token'', ''09''), (''client_id'', ''cli_07'')]"

lemma sample_form_values [simp]:
  "FormValue sample_consent ''client_id'' = ''cli_07''" "FormValue sample_consent ''redirect_uri'' = ''https://app''"
  "FormValue sample_consent ''state'' = []" "FormValue sample_consent ''scope'' = []" "FormValue sample_refresh ''refresh_token'' = ''09''"
  "FormValue sample_refresh ''client_id'' = ''cli_07''"
  by (simp_all add: sample_consent_def sample_refresh_def sample_post_def FormValue_def Values_Get_def)

lemma sample_consent_form: "consent_form sample_consent ''eyJt''"
  by (simp add: consent_form_def sample_consent_def sample_post_def FormValue_def Values_Get_def)

theorem access_token_is_session_witness:
  "\<exists>s'. HandleConfirm string_bytes sample_jwt no_failure sample_authorize 5 (Some [1]) sample_consent sample_store =
     (Redirect ''https://app'' [(''code'', hex_bytes [1])], s')"
proof -
  have "az_verifier sample_authorize = relay_verifier [] ''https://as''" by (simp add: sample_authorize_def NewAuthorizeServer_def)
  moreover have "IssueAccessToken sample_jwt (relay_issuer [] ''k'' ''https://as'') 0 ''t'' ''cli_01'' [] (''https://as'' @ ''/mcp'') ''j'' [] [] = Some ''eyJt''"
    by (simp add: IssueAccessToken_def sample_jwt_def)
  moreover have "redirect_registered no_failure sample_consent sample_store" and "\<not> no_failure ''PutCode''"
    and "map_of (oauth_codes sample_store) (HashToken string_bytes (hex_bytes [1])) = None"
    by (simp_all add: redirect_registered_def GetClient_def no_failure_def sample_store_def)
  ultimately show ?thesis
    using access_token_is_session [OF sample_jwt_ok _ _ _ _ sample_consent_form, of sample_authorize "[]" "''https://as''" "''k''" 0 "''t''" "''cli_01''" "[]"
        "''j''" "[]" "[]" 5 no_failure sample_store string_bytes "[1]"]
    by (auto simp: AccessTokenTTL_def opt_param_def)
qed

theorem refresh_loses_tenant_witness:
  "\<exists>tr s'. handleRefresh string_bytes sample_jwt no_failure (relay_issuer [] ''k'' ''https://as'') (''https://as'' @ ''/mcp'') None 5 (Some [2]) ''j'' sample_refresh
      sample_store = (TokenJSON tr, s') \<and> ValidateClaims sample_jwt (relay_verifier [] ''https://as'') 6 (access_token tr) = None"
proof -
  let ?run = "handleRefresh string_bytes sample_jwt no_failure (relay_issuer [] ''k'' ''https://as'') (''https://as'' @ ''/mcp'') None 5 (Some [2]) ''j''
      sample_refresh sample_store"
  have "access_of (fst ?run) = Some ''eyJ''" by code_simp
  then obtain tr s' where run: "?run = (TokenJSON tr, s')" by (cases ?run) (auto simp only: access_of_Some fst_conv)
  from refresh_loses_tenant [OF sample_jwt_ok this, of 6]
  have "ValidateClaims sample_jwt (relay_verifier [] ''https://as'') 6 (access_token tr) = None" by (rule conjunct1)
  with run show ?thesis by (intro exI conjI)
qed

lemma sample_redeeming_form: "redeeming_form string_bytes sample_consent sample_redeem (hex_bytes [1])"
proof -
  have "hex_bytes [1] = ''01''" by code_simp
  then show ?thesis
    by (simp add: redeeming_form_def sample_redeem_def sample_consent_def sample_post_def FormValue_def Values_Get_def)
qed

theorem oauth_flow_completes_witness:
  "\<exists>tr s'. TokenHandler string_bytes sample_jwt no_failure (relay_issuer [] ''k'' ''https://as'') (''https://as'' @ ''/mcp'') None 9 (Some [2]) ''j'' sample_redeem
      (snd (HandleConfirm string_bytes sample_jwt no_failure sample_authorize 5 (Some [1]) sample_consent sample_store)) = (TokenJSON tr, s') \<and>
    fst (BearerMiddleware (\<lambda>k. k) (Some (ValidateClaims sample_jwt (relay_verifier [] ''https://as'') 20)) [] False 20
      (PutTenant (sample_tenant ''t'' 1 2) NewAccountStore) (sample_request (access_token tr)) []) = Serve (Some (sample_tenant ''t'' 1 2))"
proof -
  let ?t = "sample_tenant ''t'' 1 2" and ?c = "snd (hd (oauth_clients sample_store))"
  have t: "tn_ID ?t = ''t''" "tn_Status ?t = TenantStatusActive" "BillingStatus ?t = ''active''"
    "map_of (as_tenants (PutTenant ?t NewAccountStore)) (tn_ID ?t) = Some ?t"
    by (simp_all add: PutTenant_def NewAccountStore_def sample_tenant_def NewTenant_def)
  have verifier: "az_verifier sample_authorize = relay_verifier [] ''https://as''" by (simp add: sample_authorize_def NewAuthorizeServer_def)
  have session: "IssueSessionCookie sample_jwt (relay_issuer [] ''k'' ''https://as'') 0 (tn_ID ?t) = Some ''eyJt''"
    by (simp add: IssueSessionCookie_def sample_jwt_def t)
  have "HashToken string_bytes (hex_bytes [2]) \<noteq> HashToken string_bytes ''09''" by code_simp
  then have new: "map_of (oauth_codes sample_store) (HashToken string_bytes (hex_bytes [1])) = None"
    "map_of (oauth_refresh_tokens sample_store) (HashToken string_bytes (hex_bytes [2])) = None" by (simp_all add: sample_store_def)
  have client: "map_of (oauth_clients sample_store) (FormValue sample_consent ''client_id'') = Some ?c"
    "TokenEndpointAuthMethod ?c = ''none''" "FormValue sample_consent ''redirect_uri'' \<in> set (RedirectURIs ?c)"
    by (simp_all add: sample_store_def)
  have r: "\<not> public_path (sample_request x)" "fst (AuthAllow 20 (realIP (sample_request x)) [])" "Authorization (sample_request x) = ''Bearer '' @ x" for x
    by (simp_all add: AuthAllow_level sample_request_def public_path_def HasPrefix_def auth_level_def authBucketCapacity_def)
  have times: "(0 :: int) \<le> 5" "5 + 1000000000 \<le> 0 + SessionCookieTTL" "(9 :: int) \<le> 5 + 59 * 1000000000" "tn_ID ?t \<noteq> []"
    by (simp_all add: SessionCookieTTL_def t(1))
  from oauth_flow_completes [OF sample_jwt_ok verifier no_failure_def client session sample_consent_form times(1,2) new sample_redeeming_form times(3)
      t(4) times(4) t(2,3), of None "''j''" "\<lambda>k. k" "[]"]
  show ?thesis
  proof (elim exE conjE, intro exI conjI)
    fix tr
    assume serve: "\<forall>t3 r3 al. 9 \<le> t3 \<and> t3 + 1000000000 \<le> 9 + AccessTokenTTL \<and> Authorization r3 = ''Bearer '' @ access_token tr \<and> \<not> public_path r3 \<and>
       fst (AuthAllow t3 (realIP r3) al) \<longrightarrow> fst (BearerMiddleware (\<lambda>k. k) (Some (ValidateClaims sample_jwt (relay_verifier [] ''https://as'') t3)) [] False t3
         (PutTenant ?t NewAccountStore) r3 al) = Serve (Some ?t)"
    have "20 + 1000000000 \<le> 9 + AccessTokenTTL" by (simp add: AccessTokenTTL_def)
    with r show "fst (BearerMiddleware (\<lambda>k. k) (Some (ValidateClaims sample_jwt (relay_verifier [] ''https://as'') 20)) [] False 20
        (PutTenant ?t NewAccountStore) (sample_request (access_token tr)) []) = Serve (Some ?t)"
      by (intro serve [rule_format]) simp
  qed
qed

end
