(* ===== verification/Agent_Runtime.thy ===== *)
theory Agent_Runtime
  imports Messaging Agent_Registry Acl Identity Jsonrpc
begin

text \<open>
  The agent runtime of \<open>pkg/agent\<close>: an agent's state, its life cycle, the operations that sign,
  encrypt and send messages, the calls to the relay, and the handlers of incoming frames with
  signature verification, decryption, access control and deduplication. A Go channel of
  capacity one is a cell of a store of queues, because a waiter keeps its channel after the
  map entry is gone; a blocking call is split where it waits. Transports are numbered, the
  frames handed to them and the calls of the registered handlers are logged in the state. The
  JSON codec, the UUID text and the registered handlers are parameters; what one call reads
  from outside (clock, fresh identifiers, randomness, the outcome of a send, the answer of the
  relay) is its \<open>inputs\<close>. A nil dereference ends the process: \<open>None\<close> of a handler and the
  error \<open>NilDereference\<close> of an operation.
\<close>

section \<open>Data\<close>

datatype agent_error = ErrNotStarted | ErrAlreadyStarted | ErrPeerNotFound | ErrSenderNotFound | ErrNoSigningKey
  | ErrSignatureInvalid | ErrBodyDecryptionFailed | ErrNoEncryptionKey | ErrRecipientNotFound | ErrSenderKeyNotFound
  | ErrListenerFailed | ErrAlreadyListening | ErrEncryptionRequired agent_error | ErrRateLimited | ErrQuotaExceeded
  | MessageFailed message_error | RpcFailed rpc_error | EncodeFailed | CryptoFailed crypto_error | IdentityFailed identity_error
  | SendFailed | Canceled | ContextErr | RelayFailed string | UnmarshalError | NilDereference

abbreviation second :: duration where "second \<equiv> 1000000000"

definition DefaultShutdownTimeout :: duration where "DefaultShutdownTimeout = 10 * second"
definition DefaultDedupTTL :: duration where "DefaultDedupTTL = 5 * 60 * second"

type_synonym transport = nat

text \<open>The values a handler's context carries; handlers of notifications get the bare context.\<close>

datatype contextKey = ctxKeyFrom | ctxKeyMethod

type_synonym context_values = "(contextKey, string) gomap"

definition MessageFrom :: "context_values \<Rightarrow> string" where
  "MessageFrom c = (case map_of c ctxKeyFrom of None \<Rightarrow> [] | Some v \<Rightarrow> v)"

definition MessageMethod :: "context_values \<Rightarrow> string" where
  "MessageMethod c = (case map_of c ctxKeyMethod of None \<Rightarrow> [] | Some v \<Rightarrow> v)"

text \<open>A method handler answers with an error text or with a value, nil (\<open>None\<close>) included.\<close>

type_synonym MethodHandler = "context_values \<Rightarrow> slice \<Rightarrow> string + json option"

datatype call = RequestCall time Message string | NotificationCall string slice

record agent_rt =
  rt_identity :: Identity
  rt_record :: Agent
  rt_store :: AgentStore
  rt_handlers :: "(string, MethodHandler) gomap"
  peers :: "(string, transport) gomap"
  peerCount :: int
  pending :: "(uuid, nat) gomap"
  pendingRPC :: "(string, nat) gomap"
  started :: bool
  listening :: bool
  stopping :: bool
  rt_listener :: "string option"
  relayAddr :: string
  listenAddr :: string
  tlsEnabled :: bool
  seenMsgs :: "(string, time) gomap"
  dedupTTL :: duration
  ackHandlers :: "nat list"
  requireEncryption :: bool
  shutdownTimeout :: duration
  chans :: "Message option list list"
  rpcchans :: "JSONRPCResponse option list list"
  sent :: "(transport \<times> bytes) list"
  calls :: "call list"
  acked :: "(nat \<times> uuid \<times> bool \<times> string option) list"

record agent_config =
  cfg_Domain :: string
  cfg_AgentID :: string
  cfg_DisplayName :: string
  cfg_ListenAddr :: string
  cfg_RelayAddr :: string
  cfg_RequireEncryption :: bool
  cfg_ShutdownTimeout :: duration
  cfg_DedupTTL :: duration
  cfg_TLSEnabled :: bool
  cfg_Identity :: "Identity option"

record discovered_peer =
  dp_DID :: did
  dp_DisplayName :: string
  dp_PublicKeys :: "PeerKey list"

record relay_ack =
  ra_MessageID :: string
  ra_Delivered :: bool
  ra_Status :: string

text \<open>\<open>u_left\<close> is what \<open>json.Unmarshal\<close> leaves in a zero message when its error is ignored.\<close>

record agent_env = identity_env +
  m_msg :: "Message \<Rightarrow> bytes option"
  u_msg :: "bytes \<Rightarrow> Message option"
  u_left :: "bytes \<Rightarrow> Message"
  m_req :: "JSONRPCRequest \<Rightarrow> bytes option"
  u_req :: "bytes \<Rightarrow> JSONRPCRequest option"
  m_resp :: "JSONRPCResponse \<Rightarrow> bytes option"
  u_resp :: "bytes \<Rightarrow> JSONRPCResponse option"
  m_any :: "json \<Rightarrow> bytes option"
  m_errbody :: "ErrorBody \<Rightarrow> bytes option"
  m_rpcerror :: "JSONRPCError \<Rightarrow> bytes option"
  m_typing :: "TypingIndicator \<Rightarrow> bytes option"
  m_receipt :: "Receipt \<Rightarrow> bytes option"
  u_announce :: "bytes \<Rightarrow> DiscoveryMessage option"
  u_peers :: "bytes \<Rightarrow> discovered_peer list option"
  u_ack :: "bytes \<Rightarrow> relay_ack option"
  uuid_String :: "uuid \<Rightarrow> string"
  uuid_Parse :: "string \<Rightarrow> uuid option"
  decodeKey :: "string \<Rightarrow> bytes option"

record inputs =
  in_now :: time
  in_msg_id :: uuid
  in_rpc_id :: uuid
  in_peer_id :: uuid
  in_nonce :: "bytes option"
  in_send :: "transport \<Rightarrow> bytes \<Rightarrow> bool"
  in_arrival :: "JSONRPCResponse option option"
  in_ord :: "(string, transport) gomap \<Rightarrow> (string, transport) gomap"

definition zero_Message :: Message where
  "zero_Message = NewMessage 0 0 [] [] [] []"

section \<open>Life cycle\<close>

text \<open>The record \<open>New\<close> publishes for an identity.\<close>

definition agent_record :: "uuid \<Rightarrow> time \<Rightarrow> agent_config \<Rightarrow> Identity \<Rightarrow> Agent" where
  "agent_record i now cfg ident =
     (let r = AddPublicKey ''encryption'' KeyTypeX25519 (Some (PublicKey (Encryption (id_Keys ident)))) ''encryption''
                (AddPublicKey ''signing'' KeyTypeEd25519 (Some (PublicKey (Signing (id_Keys ident)))) ''signing''
                  (NewAgent i now (did_String (id_DID ident)) (cfg_DisplayName cfg)))
      in if cfg_ListenAddr cfg \<noteq> [] then AddEndpoint ''websocket'' (cfg_ListenAddr cfg) 1 r else r)"

definition New :: "'a agent_env_scheme \<Rightarrow> inputs \<Rightarrow> bytes option \<Rightarrow> bytes option \<Rightarrow> agent_config \<Rightarrow> agent_error + agent_rt" where
  "New e i r1 r2 cfg =
     (case (case cfg_Identity cfg of
              Some ident \<Rightarrow> Inr ident
            | None \<Rightarrow> NewIdentity e r1 r2 (cfg_Domain cfg) (cfg_AgentID cfg)) of
        Inl er \<Rightarrow> Inl (IdentityFailed er)
      | Inr ident \<Rightarrow> Inr
          \<lparr>rt_identity = ident, rt_record = agent_record (in_peer_id i) (in_now i) cfg ident, rt_store = NewAgentStore,
           rt_handlers = [], peers = [], peerCount = 0, pending = [], pendingRPC = [],
           started = False, listening = False, stopping = False, rt_listener = None,
           relayAddr = cfg_RelayAddr cfg, listenAddr = cfg_ListenAddr cfg, tlsEnabled = cfg_TLSEnabled cfg,
           seenMsgs = [], dedupTTL = (if cfg_DedupTTL cfg = 0 then DefaultDedupTTL else cfg_DedupTTL cfg),
           ackHandlers = [], requireEncryption = cfg_RequireEncryption cfg,
           shutdownTimeout = (if cfg_ShutdownTimeout cfg = 0 then DefaultShutdownTimeout else cfg_ShutdownTimeout cfg),
           chans = [], rpcchans = [], sent = [], calls = [], acked = []\<rparr>)"

definition agent_DID :: "agent_rt \<Rightarrow> did" where
  "agent_DID a = did_String (id_DID (rt_identity a))"

definition RegisterMethod :: "string \<Rightarrow> MethodHandler \<Rightarrow> agent_rt \<Rightarrow> agent_rt" where
  "RegisterMethod m h a = a\<lparr>rt_handlers := mput m h (rt_handlers a)\<rparr>"

definition AgentAddCapability :: "string \<Rightarrow> string \<Rightarrow> string list \<Rightarrow> agent_rt \<Rightarrow> agent_rt" where
  "AgentAddCapability n d ms a = a\<lparr>rt_record := AddCapability n d ms (rt_record a)\<rparr>"

definition SetACL :: "ACLPolicy option \<Rightarrow> agent_rt \<Rightarrow> agent_rt" where
  "SetACL policy a = a\<lparr>rt_record := (rt_record a)\<lparr>ACL := policy\<rparr>\<rparr>"

definition Start :: "time \<Rightarrow> agent_rt \<Rightarrow> agent_error option \<times> agent_rt" where
  "Start now a =
     (if started a then (Some ErrAlreadyStarted, a)
      else (None, a\<lparr>started := True, rt_record := SetOnline now (rt_record a)\<rparr>))"

text \<open>A send on a channel of capacity one with a \<open>default\<close> case.\<close>

definition try_send :: "nat \<Rightarrow> 'a \<Rightarrow> 'a list list \<Rightarrow> 'a list list" where
  "try_send c v cs = (if cs ! c = [] then cs[c := [v]] else cs)"

definition drainPendingChannels :: "agent_rt \<Rightarrow> agent_rt" where
  "drainPendingChannels a =
     a\<lparr>chans := fold (\<lambda>(i, c). try_send c None) (pending a) (chans a), pending := [],
       rpcchans := fold (\<lambda>(i, c). try_send c None) (pendingRPC a) (rpcchans a), pendingRPC := []\<rparr>"

definition AgentStop :: "time \<Rightarrow> agent_rt \<Rightarrow> agent_error option \<times> agent_rt" where
  "AgentStop now a =
     (if \<not> started a then (Some ErrNotStarted, a)
      else (None, drainPendingChannels
             (a\<lparr>stopping := True, started := False, listening := False,
                rt_record := SetOffline now (rt_record a), rt_listener := None, peers := []\<rparr>)))"

definition cleanupDedup :: "time \<Rightarrow> agent_rt \<Rightarrow> agent_rt" where
  "cleanupDedup now a = a\<lparr>seenMsgs := filter (\<lambda>(i, seenAt). \<not> now - seenAt > dedupTTL a) (seenMsgs a)\<rparr>"

definition isDuplicateMessage :: "time \<Rightarrow> string \<Rightarrow> agent_rt \<Rightarrow> bool \<times> agent_rt" where
  "isDuplicateMessage now msgID a =
     (if msgID = [] then (False, a)
      else if map_of (seenMsgs a) msgID \<noteq> None then (True, a)
      else (False, a\<lparr>seenMsgs := mput msgID now (seenMsgs a)\<rparr>))"

text \<open>\<open>Listen\<close>, with the address the listener was bound to, or \<open>None\<close> when it failed to start.\<close>

definition Listen :: "string option \<Rightarrow> agent_rt \<Rightarrow> agent_error option \<times> agent_rt" where
  "Listen bound a =
     (if listening a then (Some ErrAlreadyListening, a)
      else if listenAddr a = [] then (None, a)
      else case bound of
        None \<Rightarrow> (Some ErrListenerFailed, a\<lparr>listening := False\<rparr>)
      | Some actualAddr \<Rightarrow>
          (None, a\<lparr>listening := True, rt_listener := Some actualAddr,
             rt_record := AddEndpoint ''websocket'' ((if tlsEnabled a then ''wss://'' else ''ws://'') @ actualAddr) 1
               ((rt_record a)\<lparr>Endpoints := []\<rparr>)\<rparr>))"

definition IsListening :: "agent_rt \<Rightarrow> bool" where
  "IsListening a \<longleftrightarrow> listening a \<and> rt_listener a \<noteq> None"

definition ListenAddr :: "agent_rt \<Rightarrow> string" where
  "ListenAddr a = (case rt_listener a of None \<Rightarrow> [] | Some s \<Rightarrow> s)"

text \<open>One round of \<open>acceptLoop\<close>, and the end of the goroutine it starts for a connection.\<close>

definition accept_peer :: "string \<Rightarrow> transport \<Rightarrow> agent_rt \<Rightarrow> agent_rt" where
  "accept_peer peerID conn a =
     a\<lparr>peerCount := peerCount a + 1, peers := mput (''peer:'' @ peerID) conn (peers a)\<rparr>"

definition peer_disconnected :: "string \<Rightarrow> agent_rt \<Rightarrow> agent_rt" where
  "peer_disconnected peerID a =
     a\<lparr>peers := mdel (''peer:'' @ peerID) (peers a), peerCount := peerCount a - 1\<rparr>"

definition Connect :: "string \<Rightarrow> transport option \<Rightarrow> agent_rt \<Rightarrow> agent_error option \<times> agent_rt" where
  "Connect addr dialled a =
     (case dialled of None \<Rightarrow> (Some SendFailed, a) | Some t \<Rightarrow> (None, a\<lparr>peers := mput addr t (peers a)\<rparr>))"

section \<open>The agent card\<close>

record CardCapability =
  Streaming :: bool
  PushNotifications :: bool
  StateTransitionHistory :: bool
  EndToEndEncryption :: bool

record CardSkill =
  sk_ID :: string
  sk_Name :: string
  sk_Description :: string
  sk_Methods :: "string list"

record CardKey =
  ck_ID :: string
  ck_Type :: string
  ck_Purpose :: string
  ck_Key :: string

record Card =
  card_Name :: string
  card_Description :: string
  card_URL :: string
  card_Version :: string
  card_DID :: did
  card_Capabilities :: CardCapability
  DefaultInputModes :: "string list"
  DefaultOutputModes :: "string list"
  Skills :: "CardSkill list"
  card_PublicKeys :: "CardKey list"

definition buildAgentCard :: "agent_rt \<Rightarrow> Card" where
  "buildAgentCard a =
     \<lparr>card_Name = DisplayName (rt_record a), card_Description = [],
      card_URL = (case Endpoints (rt_record a) of [] \<Rightarrow> [] | ep # _ \<Rightarrow> URL ep),
      card_Version = ''1.0.0'', card_DID = agent_DID a,
      card_Capabilities = \<lparr>Streaming = True, PushNotifications = False, StateTransitionHistory = False,
        EndToEndEncryption = True\<rparr>,
      DefaultInputModes = [''text''], DefaultOutputModes = [''text''],
      Skills = map (\<lambda>c. \<lparr>sk_ID = cap_Name c, sk_Name = cap_Name c, sk_Description = cap_Description c,
        sk_Methods = Methods c\<rparr>) (Capabilities (rt_record a)),
      card_PublicKeys = map (\<lambda>k. \<lparr>ck_ID = pk_ID k, ck_Type = pk_Type k, ck_Purpose = Purpose k,
        ck_Key = encodeBase58 (slice_bytes (pk_Key k))\<rparr>) (PublicKeys (rt_record a))\<rparr>"

section \<open>Sending\<close>

definition transport_Send :: "inputs \<Rightarrow> transport \<Rightarrow> bytes \<Rightarrow> agent_rt \<Rightarrow> agent_error option \<times> agent_rt" where
  "transport_Send i t data a =
     (if in_send i t data then (None, a\<lparr>sent := sent a @ [(t, data)]\<rparr>) else (Some SendFailed, a))"

definition first_peer :: "inputs \<Rightarrow> agent_rt \<Rightarrow> transport option" where
  "first_peer i a = (case in_ord i (peers a) of [] \<Rightarrow> None | (addr, t) # _ \<Rightarrow> Some t)"

fun direct_peer :: "Endpoint list \<Rightarrow> (string, transport) gomap \<Rightarrow> transport option" where
  "direct_peer [] ps = None"
| "direct_peer (ep # eps) ps = (case map_of ps (URL ep) of Some t \<Rightarrow> Some t | None \<Rightarrow> direct_peer eps ps)"

text \<open>\<open>Inr None\<close>: no transport; the Boolean says whether the message goes through a relay.\<close>

definition findTransportForRecipient :: "inputs \<Rightarrow> did \<Rightarrow> agent_rt \<Rightarrow> agent_error + (transport \<times> bool) option" where
  "findTransportForRecipient i to a =
     (let relayed =
        (case (if relayAddr a \<noteq> [] then map_of (peers a) (relayAddr a) else None) of
           Some t \<Rightarrow> Some (t, True)
         | None \<Rightarrow> map_option (\<lambda>t. (t, True)) (first_peer i a))
      in case GetByDID to (rt_store a) of
           Inl er \<Rightarrow> Inr relayed
         | Inr None \<Rightarrow> Inl NilDereference
         | Inr (Some ag) \<Rightarrow>
             (case direct_peer (Endpoints ag) (peers a) of Some t \<Rightarrow> Inr (Some (t, False)) | None \<Rightarrow> Inr relayed))"

definition message_frame :: "'a agent_env_scheme \<Rightarrow> Message \<Rightarrow> agent_error + bytes" where
  "message_frame e msg =
     (case NewRPCRequest (m_msg e) (JStr (uuid_String e (msg_ID msg))) (Method msg) (Some msg) of
        Inl er \<Rightarrow> Inl (RpcFailed er)
      | Inr rpcMsg \<Rightarrow> (case Encode (m_req e) rpcMsg of None \<Rightarrow> Inl EncodeFailed | Some data \<Rightarrow> Inr data))"

definition sendMessage :: "'a agent_env_scheme \<Rightarrow> inputs \<Rightarrow> Message \<Rightarrow> agent_rt \<Rightarrow> agent_error option \<times> agent_rt" where
  "sendMessage e i msg a =
     (case message_frame e msg of
        Inl er \<Rightarrow> (Some er, a)
      | Inr data \<Rightarrow>
          (case findTransportForRecipient i (To msg) a of
             Inl er \<Rightarrow> (Some er, a)
           | Inr None \<Rightarrow> (Some ErrPeerNotFound, a)
           | Inr (Some (t, isRelay)) \<Rightarrow> transport_Send i t data a))"

definition identity_Sign :: "'a agent_env_scheme \<Rightarrow> Identity \<Rightarrow> bytes \<Rightarrow> bytes" where
  "identity_Sign e ident data = Sign e (Signing (id_Keys ident)) data"

text \<open>The signing block of every sender: the marshalled message, nothing on a marshalling error.\<close>

definition sign_message :: "'a agent_env_scheme \<Rightarrow> Identity \<Rightarrow> Message \<Rightarrow> Message" where
  "sign_message e ident msg = msg\<lparr>Signature := Some (identity_Sign e ident (slice_bytes (m_msg e msg)))\<rparr>"

definition encryptMessageBody :: "'a agent_env_scheme \<Rightarrow> inputs \<Rightarrow> agent_rt \<Rightarrow> Message \<Rightarrow> agent_error + Message" where
  "encryptMessageBody e i a msg =
     (if slice_bytes (Body msg) = [] then Inr msg
      else case GetByDID (To msg) (rt_store a) of
        Inl er \<Rightarrow> Inl ErrRecipientNotFound
      | Inr None \<Rightarrow> Inl NilDereference
      | Inr (Some recipient) \<Rightarrow>
          (case GetEncryptionKey recipient of
             None \<Rightarrow> Inl ErrNoEncryptionKey
           | Some encKey \<Rightarrow>
               (case Encrypt e (in_nonce i) (slice_bytes (Body msg)) (PrivateKey (Encryption (id_Keys (rt_identity a))))
                       (slice_bytes (pk_Key encKey)) of
                  Inl er \<Rightarrow> Inl (CryptoFailed er)
                | Inr encrypted \<Rightarrow> Inr (msg\<lparr>Body := Some encrypted, Encrypted := True\<rparr>))))"

text \<open>The block the senders share: encrypt, and on failure either refuse or go on in clear; then sign.\<close>

definition encrypt_and_sign :: "'a agent_env_scheme \<Rightarrow> inputs \<Rightarrow> agent_rt \<Rightarrow> Message \<Rightarrow> agent_error + Message" where
  "encrypt_and_sign e i a msg =
     (case encryptMessageBody e i a msg of
        Inr msg' \<Rightarrow> Inr (sign_message e (rt_identity a) msg')
      | Inl er \<Rightarrow>
          if er = NilDereference then Inl er
          else if requireEncryption a then Inl (ErrEncryptionRequired er)
          else Inr (sign_message e (rt_identity a) msg))"

text \<open>\<open>sendAndWait\<close> up to its \<open>select\<close>, which answers with the channel, and from there on.\<close>

definition sendAndWait_begin :: "'a agent_env_scheme \<Rightarrow> inputs \<Rightarrow> Message \<Rightarrow> agent_rt \<Rightarrow> (agent_error + nat) \<times> agent_rt" where
  "sendAndWait_begin e i msg a =
     (let respCh = length (chans a); a1 = a\<lparr>chans := chans a @ [[]], pending := mput (msg_ID msg) respCh (pending a)\<rparr>
      in case sendMessage e i msg a1 of
           (Some er, a2) \<Rightarrow> (Inl er, a2\<lparr>pending := mdel (msg_ID msg) (pending a2)\<rparr>)
         | (None, a2) \<Rightarrow> (Inr respCh, a2))"

datatype 'v select = Received 'v | Done | Blocked

text \<open>A \<open>select\<close> on a channel and a context; \<open>choice\<close> decides when both are ready.\<close>

definition select_recv :: "bool \<Rightarrow> bool \<Rightarrow> 'v list \<Rightarrow> 'v select" where
  "select_recv choice ctxDone q =
     (case q of
        [] \<Rightarrow> if ctxDone then Done else Blocked
      | v # _ \<Rightarrow> if ctxDone \<and> \<not> choice then Done else Received v)"

definition sendAndWait_end ::
  "bool \<Rightarrow> bool \<Rightarrow> uuid \<Rightarrow> nat \<Rightarrow> agent_rt \<Rightarrow> ((agent_error + Message) \<times> agent_rt) option" where
  "sendAndWait_end choice ctxDone msgID respCh a =
     (let a1 = a\<lparr>pending := mdel msgID (pending a)\<rparr>
      in case select_recv choice ctxDone (chans a ! respCh) of
           Blocked \<Rightarrow> None
         | Done \<Rightarrow> Some (Inl ContextErr, a1)
         | Received None \<Rightarrow> Some (Inl Canceled, a1\<lparr>chans := (chans a)[respCh := []]\<rparr>)
         | Received (Some resp) \<Rightarrow> Some (Inr resp, a1\<lparr>chans := (chans a)[respCh := []]\<rparr>))"

definition Send_begin ::
  "'a agent_env_scheme \<Rightarrow> inputs \<Rightarrow> did \<Rightarrow> string \<Rightarrow> json option \<Rightarrow> agent_rt \<Rightarrow> (agent_error + Message \<times> nat) \<times> agent_rt" where
  "Send_begin e i to m params a =
     (case NewRequest (m_any e) (in_msg_id i) (in_now i) (agent_DID a) to m params of
        Inl er \<Rightarrow> (Inl (MessageFailed er), a)
      | Inr msg \<Rightarrow>
          (case encrypt_and_sign e i a msg of
             Inl er \<Rightarrow> (Inl er, a)
           | Inr msg' \<Rightarrow>
               (case sendAndWait_begin e i msg' a of
                  (Inl er, a') \<Rightarrow> (Inl er, a')
                | (Inr ch, a') \<Rightarrow> (Inr (msg', ch), a'))))"

text \<open>A sender that does not wait: construct, protect, send, and answer with the message sent.\<close>

definition send_built ::
  "'a agent_env_scheme \<Rightarrow> inputs \<Rightarrow> (message_error + Message) \<Rightarrow> agent_rt \<Rightarrow> (agent_error + Message) \<times> agent_rt" where
  "send_built e i built a =
     (case built of
        Inl er \<Rightarrow> (Inl (MessageFailed er), a)
      | Inr msg \<Rightarrow>
          (case encrypt_and_sign e i a msg of
             Inl er \<Rightarrow> (Inl er, a)
           | Inr msg' \<Rightarrow> (case sendMessage e i msg' a of (Some er, a') \<Rightarrow> (Inl er, a') | (None, a') \<Rightarrow> (Inr msg', a'))))"

definition error_of :: "('e + 'v) \<times> 's \<Rightarrow> 'e option \<times> 's" where
  "error_of r = (case r of (Inl er, s) \<Rightarrow> (Some er, s) | (Inr _, s) \<Rightarrow> (None, s))"

definition AgentNotify ::
  "'a agent_env_scheme \<Rightarrow> inputs \<Rightarrow> did \<Rightarrow> string \<Rightarrow> json option \<Rightarrow> agent_rt \<Rightarrow> agent_error option \<times> agent_rt" where
  "AgentNotify e i to m params a =
     error_of (send_built e i (NewNotification (m_any e) (in_msg_id i) (in_now i) (agent_DID a) to m params) a)"

definition SendAsync ::
  "'a agent_env_scheme \<Rightarrow> inputs \<Rightarrow> did \<Rightarrow> string \<Rightarrow> json option \<Rightarrow> agent_rt \<Rightarrow> (agent_error + uuid) \<times> agent_rt" where
  "SendAsync e i to m params a =
     (case send_built e i
             (map_sum id (\<lambda>msg. msg\<lparr>RequestAck := True\<rparr>)
               (NewRequest (m_any e) (in_msg_id i) (in_now i) (agent_DID a) to m params)) a of
        (Inl er, a') \<Rightarrow> (Inl er, a')
      | (Inr msg, a') \<Rightarrow> (Inr (msg_ID msg), a'))"

definition SendChat ::
  "'a agent_env_scheme \<Rightarrow> inputs \<Rightarrow> did \<Rightarrow> json option \<Rightarrow> agent_rt \<Rightarrow> (agent_error + Message) \<times> agent_rt" where
  "SendChat e i to body a =
     send_built e i (NewChatMessage (m_any e) (in_msg_id i) (in_now i) (agent_DID a) to body) a"

definition SendChatReply ::
  "'a agent_env_scheme \<Rightarrow> inputs \<Rightarrow> did \<Rightarrow> uuid \<Rightarrow> uuid option \<Rightarrow> int \<Rightarrow> json option \<Rightarrow> agent_rt
   \<Rightarrow> (agent_error + Message) \<times> agent_rt" where
  "SendChatReply e i to threadID parentID seqNo body a =
     send_built e i (NewChatReply (m_any e) (in_msg_id i) (in_now i) (agent_DID a) to threadID parentID seqNo body) a"

definition SendTypingIndicator ::
  "'a agent_env_scheme \<Rightarrow> inputs \<Rightarrow> did \<Rightarrow> uuid option \<Rightarrow> bool \<Rightarrow> agent_rt \<Rightarrow> agent_error option \<times> agent_rt" where
  "SendTypingIndicator e i to threadID typing a =
     sendMessage e i (sign_message e (rt_identity a)
       (NewTypingIndicator (m_typing e) (in_msg_id i) (in_now i) (agent_DID a) to threadID typing)) a"

definition SendReceipt ::
  "'a agent_env_scheme \<Rightarrow> inputs \<Rightarrow> did \<Rightarrow> uuid \<Rightarrow> string \<Rightarrow> agent_rt \<Rightarrow> agent_error option \<times> agent_rt" where
  "SendReceipt e i to messageID receiptType a =
     sendMessage e i (sign_message e (rt_identity a)
       (NewReceipt (m_receipt e) (in_msg_id i) (in_now i) (agent_DID a) to messageID receiptType)) a"

text \<open>Gateway delegation: the tenant signs the message, then the gateway adds its own proof.\<close>

definition delegate :: "'a agent_env_scheme \<Rightarrow> Identity \<Rightarrow> agent_rt \<Rightarrow> Message \<Rightarrow> Message" where
  "delegate e tenantIdent a msg =
     (sign_message e tenantIdent msg)
       \<lparr>ActorDID := agent_DID a,
        ActorProof := Some (identity_Sign e (rt_identity a)
          (string_bytes (agent_DID a @ '':'' @ did_String (id_DID tenantIdent) @ '':'' @ uuid_String e (msg_ID msg))))\<rparr>"

definition SendAs_begin ::
  "'a agent_env_scheme \<Rightarrow> inputs \<Rightarrow> Identity \<Rightarrow> did \<Rightarrow> string \<Rightarrow> json option \<Rightarrow> agent_rt
   \<Rightarrow> (agent_error + Message \<times> nat) \<times> agent_rt" where
  "SendAs_begin e i tenantIdent to m params a =
     (case NewRequest (m_any e) (in_msg_id i) (in_now i) (did_String (id_DID tenantIdent)) to m params of
        Inl er \<Rightarrow> (Inl (MessageFailed er), a)
      | Inr msg \<Rightarrow>
          (case sendAndWait_begin e i (delegate e tenantIdent a msg) a of
             (Inl er, a') \<Rightarrow> (Inl er, a')
           | (Inr ch, a') \<Rightarrow> (Inr (delegate e tenantIdent a msg, ch), a')))"

definition SendAsAsync ::
  "'a agent_env_scheme \<Rightarrow> inputs \<Rightarrow> Identity \<Rightarrow> did \<Rightarrow> string \<Rightarrow> json option \<Rightarrow> agent_rt
   \<Rightarrow> (agent_error + uuid) \<times> agent_rt" where
  "SendAsAsync e i tenantIdent to m params a =
     (case NewRequest (m_any e) (in_msg_id i) (in_now i) (did_String (id_DID tenantIdent)) to m params of
        Inl er \<Rightarrow> (Inl (MessageFailed er), a)
      | Inr msg \<Rightarrow>
          (case sendMessage e i (delegate e tenantIdent a (msg\<lparr>RequestAck := True\<rparr>)) a of
             (Some er, a') \<Rightarrow> (Inl er, a')
           | (None, a') \<Rightarrow> (Inr (msg_ID msg), a')))"

definition OnDeliveryAck :: "nat \<Rightarrow> agent_rt \<Rightarrow> agent_rt" where
  "OnDeliveryAck h a = a\<lparr>ackHandlers := ackHandlers a @ [h]\<rparr>"

definition notifyDeliveryAck :: "uuid \<Rightarrow> bool \<Rightarrow> string option \<Rightarrow> agent_rt \<Rightarrow> agent_rt" where
  "notifyDeliveryAck messageID delivered er a =
     a\<lparr>acked := acked a @ map (\<lambda>h. (h, messageID, delivered, er)) (ackHandlers a)\<rparr>"

text \<open>The keys of the agent, for its owner.\<close>

definition EncryptFor :: "'a agent_env_scheme \<Rightarrow> bytes option \<Rightarrow> bytes \<Rightarrow> bytes \<Rightarrow> agent_rt \<Rightarrow> crypto_error + bytes" where
  "EncryptFor e nonce recipientPubKey data a =
     Encrypt e nonce data (PrivateKey (Encryption (id_Keys (rt_identity a)))) recipientPubKey"

definition AgentDecrypt :: "'a agent_env_scheme \<Rightarrow> bytes \<Rightarrow> bytes \<Rightarrow> agent_rt \<Rightarrow> crypto_error + bytes" where
  "AgentDecrypt e senderPubKey data a =
     Decrypt e data (PrivateKey (Encryption (id_Keys (rt_identity a)))) senderPubKey"

definition AgentSign :: "'a agent_env_scheme \<Rightarrow> bytes \<Rightarrow> agent_rt \<Rightarrow> bytes" where
  "AgentSign e data a = identity_Sign e (rt_identity a) data"

section \<open>Calls to the relay\<close>

definition relay_peer :: "inputs \<Rightarrow> agent_rt \<Rightarrow> transport option" where
  "relay_peer i a =
     (if relayAddr a \<noteq> [] then
        (case map_of (peers a) (relayAddr a) of Some t \<Rightarrow> Some t | None \<Rightarrow> first_peer i a)
      else first_peer i a)"

definition CallRelay_begin ::
  "'a agent_env_scheme \<Rightarrow> inputs \<Rightarrow> string \<Rightarrow> json option \<Rightarrow> agent_rt \<Rightarrow> (agent_error + nat) \<times> agent_rt" where
  "CallRelay_begin e i m params a =
     (let cid = uuid_String e (in_rpc_id i)
      in case NewRPCRequest (m_any e) (JStr cid) m params of
           Inl er \<Rightarrow> (Inl (RpcFailed er), a)
         | Inr req \<Rightarrow>
             (case Encode (m_req e) req of
                None \<Rightarrow> (Inl EncodeFailed, a)
              | Some data \<Rightarrow>
                  let respCh = length (rpcchans a);
                      a1 = a\<lparr>rpcchans := rpcchans a @ [[]], pendingRPC := mput cid respCh (pendingRPC a)\<rparr>
                  in (case relay_peer i a1 of
                        None \<Rightarrow> (Inl ErrPeerNotFound, a1\<lparr>pendingRPC := mdel cid (pendingRPC a1)\<rparr>)
                      | Some t \<Rightarrow>
                          (case transport_Send i t data a1 of
                             (Some er, a2) \<Rightarrow> (Inl er, a2\<lparr>pendingRPC := mdel cid (pendingRPC a2)\<rparr>)
                           | (None, a2) \<Rightarrow> (Inr respCh, a2)))))"

definition rpc_result :: "JSONRPCResponse option \<Rightarrow> agent_error + slice" where
  "rpc_result r =
     (case r of
        None \<Rightarrow> Inl Canceled
      | Some resp \<Rightarrow>
          (case rs_Error resp of
             None \<Rightarrow> Inr (rs_Result resp)
           | Some er \<Rightarrow>
               if er_Code er = CodeRateLimited then Inl ErrRateLimited
               else if er_Code er = CodeQuotaExceeded then Inl ErrQuotaExceeded
               else Inl (RelayFailed (er_Message er))))"

definition CallRelay_end ::
  "bool \<Rightarrow> bool \<Rightarrow> string \<Rightarrow> nat \<Rightarrow> agent_rt \<Rightarrow> ((agent_error + slice) \<times> agent_rt) option" where
  "CallRelay_end choice ctxDone cid respCh a =
     (let a1 = a\<lparr>pendingRPC := mdel cid (pendingRPC a)\<rparr>
      in case select_recv choice ctxDone (rpcchans a ! respCh) of
           Blocked \<Rightarrow> None
         | Done \<Rightarrow> Some (Inl ContextErr, a1)
         | Received r \<Rightarrow> Some (rpc_result r, a1\<lparr>rpcchans := (rpcchans a)[respCh := []]\<rparr>))"

text \<open>
  The whole call, with what its wait sees: a value put on its channel, or the end of the context.
\<close>

definition CallRelay ::
  "'a agent_env_scheme \<Rightarrow> inputs \<Rightarrow> string \<Rightarrow> json option \<Rightarrow> agent_rt \<Rightarrow> (agent_error + slice) \<times> agent_rt" where
  "CallRelay e i m params a =
     (case CallRelay_begin e i m params a of
        (Inl er, a1) \<Rightarrow> (Inl er, a1)
      | (Inr ch, a1) \<Rightarrow>
          let a2 = (case in_arrival i of None \<Rightarrow> a1 | Some r \<Rightarrow> a1\<lparr>rpcchans := try_send ch r (rpcchans a1)\<rparr>)
          in (case CallRelay_end True (in_arrival i = None) (uuid_String e (in_rpc_id i)) ch a2 of
                Some res \<Rightarrow> res
              | None \<Rightarrow> (Inl ContextErr, a2)))"

text \<open>
  The retry loop: attempt number, attempts left, the inputs of each attempt and whether the
  context ends during the pause after it. The pauses are returned with the result.
\<close>

definition retry_delay :: "nat \<Rightarrow> duration" where
  "retry_delay attempt = (let delay = 2 ^ attempt * 500000000 in if delay > 30 * second then 30 * second else delay)"

fun retry_calls ::
  "'a agent_env_scheme \<Rightarrow> (nat \<Rightarrow> inputs) \<Rightarrow> (nat \<Rightarrow> bool) \<Rightarrow> string \<Rightarrow> json option \<Rightarrow> nat \<Rightarrow> nat \<Rightarrow> duration list
   \<Rightarrow> agent_rt \<Rightarrow> (agent_error + slice) \<times> duration list \<times> agent_rt" where
  "retry_calls e is stop m params attempt 0 ds a = (Inl ErrRateLimited, ds, a)"
| "retry_calls e is stop m params attempt (Suc n) ds a =
     (case CallRelay e (is attempt) m params a of
        (Inr res, a') \<Rightarrow> (Inr res, ds, a')
      | (Inl er, a') \<Rightarrow>
          if er \<noteq> ErrRateLimited then (Inl er, ds, a')
          else if stop attempt then (Inl ContextErr, ds, a')
          else retry_calls e is stop m params (Suc attempt) n (ds @ [retry_delay attempt]) a')"

definition CallRelayWithRetry ::
  "'a agent_env_scheme \<Rightarrow> (nat \<Rightarrow> inputs) \<Rightarrow> (nat \<Rightarrow> bool) \<Rightarrow> string \<Rightarrow> json option
   \<Rightarrow> agent_rt \<Rightarrow> (agent_error + slice) \<times> duration list \<times> agent_rt" where
  "CallRelayWithRetry e is stop m params a = retry_calls e is stop m params 0 5 [] a"

definition resolvePeer :: "'a agent_env_scheme \<Rightarrow> inputs \<Rightarrow> did \<Rightarrow> agent_rt \<Rightarrow> agent_error option \<times> agent_rt" where
  "resolvePeer e i d a =
     (case CallRelay e i ''relay.discover'' None a of
        (Inl er, a1) \<Rightarrow> (Some er, a1)
      | (Inr discoverResult, a1) \<Rightarrow>
          (case u_peers e (slice_bytes discoverResult) of
             None \<Rightarrow> (Some UnmarshalError, a1)
           | Some ps \<Rightarrow>
               (case find (\<lambda>p. dp_DID p = d) ps of
                  None \<Rightarrow> (Some ErrSenderNotFound, a1)
                | Some p \<Rightarrow>
                    (None, a1\<lparr>rt_store := ds_store (AddPeer (decodeKey e) (in_peer_id i) (in_now i) (dp_DID p)
                       (dp_DisplayName p) (dp_PublicKeys p) (NewDiscovery (rt_store a1) (rt_record a1) :: unit Discovery))\<rparr>))))"

section \<open>Incoming frames\<close>

definition crypto_VerifySignature :: "'a crypto_env_scheme \<Rightarrow> slice \<Rightarrow> bytes \<Rightarrow> slice \<Rightarrow> bool" where
  "crypto_VerifySignature e publicKey data sig =
     (if length (slice_bytes publicKey) \<noteq> Ed25519PublicKeySize then False
      else ed_Verify e (slice_bytes publicKey) data (slice_bytes sig))"

text \<open>The lookup both checks of a message share: the store, then the relay, then the store again.\<close>

definition find_sender :: "'a agent_env_scheme \<Rightarrow> inputs \<Rightarrow> did \<Rightarrow> agent_rt \<Rightarrow> (agent_error + Agent) \<times> agent_rt" where
  "find_sender e i d a =
     (case GetByDID d (rt_store a) of
        Inr None \<Rightarrow> (Inl NilDereference, a)
      | Inr (Some sender) \<Rightarrow> (Inr sender, a)
      | Inl er \<Rightarrow>
          (case resolvePeer e i d a of
             (Some rerr, a1) \<Rightarrow> (Inl ErrSenderNotFound, a1)
           | (None, a1) \<Rightarrow>
               (case GetByDID d (rt_store a1) of
                  Inl er \<Rightarrow> (Inl ErrSenderNotFound, a1)
                | Inr None \<Rightarrow> (Inl NilDereference, a1)
                | Inr (Some sender) \<Rightarrow> (Inr sender, a1))))"

text \<open>What a signature covers: the message without the signature and the delegation envelope.\<close>

definition signed_part :: "Message \<Rightarrow> Message" where
  "signed_part msg = msg\<lparr>Signature := None, ActorDID := [], ActorProof := None\<rparr>"

definition check_signature :: "'a agent_env_scheme \<Rightarrow> Agent \<Rightarrow> Message \<Rightarrow> agent_error option" where
  "check_signature e sender msg =
     (case GetSigningKey sender of
        None \<Rightarrow> Some ErrNoSigningKey
      | Some signingKey \<Rightarrow>
          (case m_msg e (signed_part msg) of
             None \<Rightarrow> Some EncodeFailed
           | Some msgBytes \<Rightarrow>
               if \<not> crypto_VerifySignature e (pk_Key signingKey) msgBytes (Signature msg) then Some ErrSignatureInvalid
               else None))"

definition verifyMessageSignature ::
  "'a agent_env_scheme \<Rightarrow> inputs \<Rightarrow> Message \<Rightarrow> agent_rt \<Rightarrow> agent_error option \<times> agent_rt" where
  "verifyMessageSignature e i msg a =
     (if slice_bytes (Signature msg) = [] then (Some ErrSignatureInvalid, a)
      else case find_sender e i (From msg) a of
        (Inl er, a1) \<Rightarrow> (Some er, a1)
      | (Inr sender, a1) \<Rightarrow> (check_signature e sender msg, a1))"

definition decryptMessageBody ::
  "'a agent_env_scheme \<Rightarrow> inputs \<Rightarrow> Message \<Rightarrow> agent_rt \<Rightarrow> (agent_error + Message) \<times> agent_rt" where
  "decryptMessageBody e i msg a =
     (if \<not> Encrypted msg \<or> slice_bytes (Body msg) = [] then (Inr msg, a)
      else case find_sender e i (From msg) a of
        (Inl er, a1) \<Rightarrow> (Inl er, a1)
      | (Inr sender, a1) \<Rightarrow>
          (case GetEncryptionKey sender of
             None \<Rightarrow> (Inl ErrSenderKeyNotFound, a1)
           | Some encKey \<Rightarrow>
               (case Decrypt e (slice_bytes (Body msg)) (PrivateKey (Encryption (id_Keys (rt_identity a1))))
                       (slice_bytes (pk_Key encKey)) of
                  Inl er \<Rightarrow> (Inl ErrBodyDecryptionFailed, a1)
                | Inr decrypted \<Rightarrow> (Inr (msg\<lparr>Body := Some decrypted, Encrypted := False\<rparr>), a1))))"

definition sendErrorResponse ::
  "'a agent_env_scheme \<Rightarrow> inputs \<Rightarrow> transport \<Rightarrow> json \<Rightarrow> int \<Rightarrow> string \<Rightarrow> agent_rt \<Rightarrow> agent_rt" where
  "sendErrorResponse e i t rid code txt a =
     snd (transport_Send i t (slice_bytes (Encode (m_resp e) (NewRPCErrorResponse rid code txt JNull))) a)"

text \<open>A send whose error is logged or dropped; a nil dereference still ends the process.\<close>

definition best_effort :: "agent_error option \<times> agent_rt \<Rightarrow> agent_rt option" where
  "best_effort r = (if fst r = Some NilDereference then None else Some (snd r))"

definition from_relay :: "transport \<Rightarrow> agent_rt \<Rightarrow> bool" where
  "from_relay t a \<longleftrightarrow> map_of (peers a) (relayAddr a) = Some t"

definition sendErrorToSender ::
  "'a agent_env_scheme \<Rightarrow> inputs \<Rightarrow> transport \<Rightarrow> JSONRPCRequest \<Rightarrow> Message \<Rightarrow> int \<Rightarrow> string \<Rightarrow> agent_rt \<Rightarrow> agent_rt option" where
  "sendErrorToSender e i t req msg code errMsg a =
     (if from_relay t a then
        (case NewErrorResponse (m_errbody e) (in_msg_id i) (in_now i) msg code errMsg of
           Inl er \<Rightarrow> Some a
         | Inr errResp \<Rightarrow> best_effort (sendMessage e i (sign_message e (rt_identity a) errResp) a))
      else Some (sendErrorResponse e i t (rq_ID req) code errMsg a))"

text \<open>The end of \<open>handleRequest\<close>: the answer as a routable message, or as a plain JSON-RPC response.
  A response that cannot be built is a nil pointer, which encodes as \<open>null\<close>.\<close>

definition send_result ::
  "'a agent_env_scheme \<Rightarrow> inputs \<Rightarrow> transport \<Rightarrow> JSONRPCRequest \<Rightarrow> Message \<Rightarrow> json option \<Rightarrow> agent_rt \<Rightarrow> agent_rt option" where
  "send_result e i t req msg result a =
     (if from_relay t a then
        (case NewResponse (m_any e) (in_msg_id i) (in_now i) msg result of
           Inl er \<Rightarrow> Some a
         | Inr respMsg \<Rightarrow> best_effort (sendMessage e i (sign_message e (rt_identity a) respMsg) a))
      else
        let respData = (case NewRPCResponse (m_any e) (rq_ID req) result of
                          Inl er \<Rightarrow> string_bytes ''null''
                        | Inr resp \<Rightarrow> slice_bytes (Encode (m_resp e) resp))
        in Some (snd (transport_Send i t respData a)))"

definition find_handler :: "string \<Rightarrow> agent_rt \<Rightarrow> (string \<times> MethodHandler) option" where
  "find_handler m a =
     (case map_of (rt_handlers a) m of
        Some h \<Rightarrow> Some (m, h)
      | None \<Rightarrow> map_option (\<lambda>h. (''*'', h)) (map_of (rt_handlers a) ''*''))"

definition run_handler ::
  "'a agent_env_scheme \<Rightarrow> inputs \<Rightarrow> transport \<Rightarrow> JSONRPCRequest \<Rightarrow> Message \<Rightarrow> agent_rt \<Rightarrow> agent_rt option" where
  "run_handler e i t req msg a =
     (case find_handler (Method msg) a of
        None \<Rightarrow> sendErrorToSender e i t req msg CodeMethodNotFound ''method not found'' a
      | Some (key, handler) \<Rightarrow>
          let a1 = a\<lparr>calls := calls a @ [RequestCall (in_now i) msg key]\<rparr>
          in (case handler [(ctxKeyMethod, Method msg), (ctxKeyFrom, From msg)] (Body msg) of
                Inl er \<Rightarrow> sendErrorToSender e i t req msg CodeInternalError er a1
              | Inr result \<Rightarrow> send_result e i t req msg result a1))"

text \<open>\<open>handleRequest\<close> from the signature check on.\<close>

definition authorize_request ::
  "'a agent_env_scheme \<Rightarrow> inputs \<Rightarrow> transport \<Rightarrow> JSONRPCRequest \<Rightarrow> Message \<Rightarrow> agent_rt \<Rightarrow> agent_rt option" where
  "authorize_request e i t req msg a =
     (case verifyMessageSignature e i msg a of
        (Some er, a1) \<Rightarrow>
          if er = NilDereference then None
          else sendErrorToSender e i t req msg CodeSignatureInvalid ''signature verification failed'' a1
      | (None, a1) \<Rightarrow>
          (case decryptMessageBody e i msg a1 of
             (Inl er, a2) \<Rightarrow>
               if er = NilDereference then None
               else sendErrorToSender e i t req msg CodeDecryptionFailed ''decryption failed'' a2
           | (Inr msg', a2) \<Rightarrow>
               if CheckAccess (rt_record a2) (From msg') (Method msg') \<noteq> None then
                 sendErrorToSender e i t req msg' CodeAccessDenied ''access denied'' a2
               else run_handler e i t req msg' a2))"

definition handleMessageResponse :: "Message \<Rightarrow> agent_rt \<Rightarrow> agent_rt" where
  "handleMessageResponse msg a =
     (case CorrelationID msg of
        None \<Rightarrow> a
      | Some cid \<Rightarrow>
          (case map_of (pending a) cid of
             None \<Rightarrow> a
           | Some ch \<Rightarrow> a\<lparr>chans := try_send ch (Some msg) (chans a)\<rparr>))"

definition handleRequest ::
  "'a agent_env_scheme \<Rightarrow> inputs \<Rightarrow> transport \<Rightarrow> JSONRPCRequest \<Rightarrow> agent_rt \<Rightarrow> agent_rt option" where
  "handleRequest e i t req a =
     (case ParseParams (u_msg e) zero_Message req of
        None \<Rightarrow> Some (sendErrorResponse e i t (rq_ID req) CodeInvalidParams ''invalid params'' a)
      | Some msg \<Rightarrow>
          (case isDuplicateMessage (in_now i) (uuid_String e (msg_ID msg)) a of
             (True, a1) \<Rightarrow> Some a1
           | (False, a1) \<Rightarrow>
               if IsResponse msg \<or> IsError msg then Some (handleMessageResponse msg a1)
               else authorize_request e i t req msg a1))"

definition agentHandleResponse :: "'a agent_env_scheme \<Rightarrow> JSONRPCResponse \<Rightarrow> agent_rt \<Rightarrow> agent_rt" where
  "agentHandleResponse e resp a =
     (case rs_ID resp of
        JStr idStr \<Rightarrow>
          (case map_of (pendingRPC a) idStr of
             Some ch \<Rightarrow> a\<lparr>rpcchans := try_send ch (Some resp) (rpcchans a)\<rparr>
           | None \<Rightarrow>
               (case uuid_Parse e idStr of
                  None \<Rightarrow> a
                | Some mid \<Rightarrow>
                    (case map_of (pending a) mid of
                       None \<Rightarrow> a
                     | Some ch \<Rightarrow>
                         let msg = (case rs_Error resp of
                               Some er \<Rightarrow>
                                 (let z = zero_Message\<lparr>msg_ID := mid, MsgType := TypeError\<rparr>
                                  in case SetBody (m_rpcerror e) er z of Inl _ \<Rightarrow> z | Inr m \<Rightarrow> m)
                             | None \<Rightarrow>
                                 (case rs_Result resp of None \<Rightarrow> zero_Message | Some p \<Rightarrow> u_left e p))
                         in a\<lparr>chans := try_send ch (Some msg) (chans a)\<rparr>)))
      | _ \<Rightarrow> a)"

definition handleRelayAck :: "'a agent_env_scheme \<Rightarrow> JSONRPCRequest \<Rightarrow> agent_rt \<Rightarrow> agent_rt" where
  "handleRelayAck e req a =
     (case ParseParams (u_ack e) \<lparr>ra_MessageID = [], ra_Delivered = False, ra_Status = []\<rparr> req of
        None \<Rightarrow> a
      | Some ack \<Rightarrow>
          (case uuid_Parse e (ra_MessageID ack) of
             None \<Rightarrow> a
           | Some msgID \<Rightarrow>
               notifyDeliveryAck msgID (ra_Delivered ack) (if ra_Delivered ack then None else Some (ra_Status ack)) a))"

definition notify_handler :: "string \<Rightarrow> slice \<Rightarrow> agent_rt \<Rightarrow> agent_rt" where
  "notify_handler key params a =
     (if map_of (rt_handlers a) key = None then a else a\<lparr>calls := calls a @ [NotificationCall key params]\<rparr>)"

definition handleNotification :: "'a agent_env_scheme \<Rightarrow> JSONRPCRequest \<Rightarrow> agent_rt \<Rightarrow> agent_rt" where
  "handleNotification e req a =
     (if rq_Method req = ''relay.ack'' then handleRelayAck e req a
      else if rq_Method req = ''relay.presence'' then notify_handler ''relay.presence'' (rq_Params req) a
      else if rq_Method req = ''relay.typing'' then notify_handler ''relay.typing'' (rq_Params req) a
      else if rq_Method req = ''discovery.announce'' then
        (case u_announce e (slice_bytes (rq_Params req)) of
           None \<Rightarrow> a
         | Some msg \<Rightarrow>
             (case dm_Agent msg of
                None \<Rightarrow> a
              | Some ag \<Rightarrow> if DID ag = agent_DID a then a else a\<lparr>rt_store := Put ag (rt_store a)\<rparr>))
      else
        (case ParseParams (u_msg e) zero_Message req of
           None \<Rightarrow> a
         | Some msg \<Rightarrow>
             (case find_handler (Method msg) a of
                None \<Rightarrow> a
              | Some (key, handler) \<Rightarrow> a\<lparr>calls := calls a @ [NotificationCall key (Body msg)]\<rparr>)))"

definition handleIncoming ::
  "'a agent_env_scheme \<Rightarrow> inputs \<Rightarrow> transport \<Rightarrow> bytes \<Rightarrow> agent_rt \<Rightarrow> agent_rt option" where
  "handleIncoming e i t data a =
     (case DecodeRequest (u_req e) data of
        Inr req \<Rightarrow> if rq_ID req = JNull then Some (handleNotification e req a) else handleRequest e i t req a
      | Inl _ \<Rightarrow>
          (case DecodeResponse (u_resp e) data of
             Inr resp \<Rightarrow> Some (agentHandleResponse e resp a)
           | Inl _ \<Rightarrow> Some a))"

section \<open>Histories\<close>

text \<open>
  The operations an agent performs, whoever triggers them: its owner, its goroutines or a peer.
  A wait that is not ready leaves the agent as it is; \<open>None\<close> is the end of the process.
\<close>

datatype agent_op = OpRegister string MethodHandler | OpCapability string string "string list" | OpACL "ACLPolicy option"
  | OpStart | OpStop | OpListen "string option" | OpAccept string transport | OpDisconnect string
  | OpConnect string "transport option" | OpTick | OpIncoming transport bytes
  | OpSend did string "json option" | OpWait bool bool uuid nat | OpNotify did string "json option"
  | OpAsync did string "json option" | OpSendAs Identity did string "json option"
  | OpSendAsAsync Identity did string "json option" | OpChat did "json option"
  | OpReply did uuid "uuid option" int "json option" | OpTyping did "uuid option" bool
  | OpReceipt did uuid string | OpCall string "json option" | OpOnAck nat

definition op_outcome :: "agent_error option \<times> agent_rt \<Rightarrow> agent_rt option" where
  "op_outcome r = (case r of (Some NilDereference, a) \<Rightarrow> None | (_, a) \<Rightarrow> Some a)"

fun agent_exec :: "'a agent_env_scheme \<Rightarrow> inputs \<Rightarrow> agent_op \<Rightarrow> agent_rt \<Rightarrow> agent_rt option" where
  "agent_exec e i (OpRegister m h) a = Some (RegisterMethod m h a)"
| "agent_exec e i (OpCapability n d ms) a = Some (AgentAddCapability n d ms a)"
| "agent_exec e i (OpACL p) a = Some (SetACL p a)"
| "agent_exec e i OpStart a = Some (snd (Start (in_now i) a))"
| "agent_exec e i OpStop a = Some (snd (AgentStop (in_now i) a))"
| "agent_exec e i (OpListen bound) a = Some (snd (Listen bound a))"
| "agent_exec e i (OpAccept p t) a = Some (accept_peer p t a)"
| "agent_exec e i (OpDisconnect p) a = Some (peer_disconnected p a)"
| "agent_exec e i (OpConnect addr t) a = Some (snd (Connect addr t a))"
| "agent_exec e i OpTick a = Some (cleanupDedup (in_now i) a)"
| "agent_exec e i (OpIncoming t data) a = handleIncoming e i t data a"
| "agent_exec e i (OpSend to m p) a = op_outcome (error_of (Send_begin e i to m p a))"
| "agent_exec e i (OpWait c d mid ch) a =
     (if ch < length (chans a) then
        (case sendAndWait_end c d mid ch a of None \<Rightarrow> Some a | Some (_, a') \<Rightarrow> Some a')
      else Some a)"
| "agent_exec e i (OpNotify to m p) a = op_outcome (AgentNotify e i to m p a)"
| "agent_exec e i (OpAsync to m p) a = op_outcome (error_of (SendAsync e i to m p a))"
| "agent_exec e i (OpSendAs ident to m p) a = op_outcome (error_of (SendAs_begin e i ident to m p a))"
| "agent_exec e i (OpSendAsAsync ident to m p) a = op_outcome (error_of (SendAsAsync e i ident to m p a))"
| "agent_exec e i (OpChat to b) a = op_outcome (error_of (SendChat e i to b a))"
| "agent_exec e i (OpReply to th par sq b) a = op_outcome (error_of (SendChatReply e i to th par sq b a))"
| "agent_exec e i (OpTyping to th ty) a = op_outcome (SendTypingIndicator e i to th ty a)"
| "agent_exec e i (OpReceipt to mid ty) a = op_outcome (SendReceipt e i to mid ty a)"
| "agent_exec e i (OpCall m p) a = Some (snd (CallRelay e i m p a))"
| "agent_exec e i (OpOnAck h) a = Some (OnDeliveryAck h a)"

inductive agent_reach :: "'a agent_env_scheme \<Rightarrow> agent_rt \<Rightarrow> time \<Rightarrow> agent_rt \<Rightarrow> bool" for e a0 where
  agent_init: "agent_reach e a0 t a0"
| agent_step: "agent_reach e a0 t a \<Longrightarrow> t \<le> in_now i \<Longrightarrow> agent_exec e i op a = Some a' \<Longrightarrow> agent_reach e a0 (in_now i) a'"

section \<open>Well-formed states\<close>

text \<open>
  A queue of capacity one, channels that exist, and an index of the store that leads to an
  agent whatever was announced.
\<close>

definition chans_ok :: "('k, nat) gomap \<Rightarrow> 'v list list \<Rightarrow> bool" where
  "chans_ok p cs \<longleftrightarrow> distinct (mkeys p) \<and> (\<forall>(k, c) \<in> set p. c < length cs) \<and> (\<forall>q \<in> set cs. length q \<le> 1)"

definition index_total :: "AgentStore \<Rightarrow> bool" where
  "index_total s \<longleftrightarrow> (\<forall>d i. map_of (byDID s) d = Some i \<longrightarrow> map_of (agents s) i \<noteq> None)"

definition agent_wf :: "agent_rt \<Rightarrow> bool" where
  "agent_wf a \<longleftrightarrow> chans_ok (pending a) (chans a) \<and> chans_ok (pendingRPC a) (rpcchans a)
     \<and> index_total (rt_store a) \<and> distinct (mkeys (peers a)) \<and> distinct (mkeys (seenMsgs a)) \<and> distinct (mkeys (rt_handlers a))"

named_theorems agent_intros \<open>preservation of the parts of a well-formed agent\<close>

lemma chans_ok_Nil [simp]: "chans_ok [] cs \<longleftrightarrow> (\<forall>q \<in> set cs. length q \<le> 1)"
  by (simp add: chans_ok_def)

lemma chans_ok_open [agent_intros]: "chans_ok p cs \<Longrightarrow> chans_ok (mput k (length cs) p) (cs @ [[]])"
  by (auto simp: chans_ok_def gomap)

lemma chans_ok_close [agent_intros]: "chans_ok p cs \<Longrightarrow> chans_ok (mdel k p) cs"
  by (auto simp: chans_ok_def gomap)

lemma chans_ok_take [agent_intros]: "chans_ok p cs \<Longrightarrow> chans_ok p (cs[c := []])"
  by (auto simp: chans_ok_def dest!: set_update_subset_insert [THEN subsetD])

lemma chans_ok_try_send [agent_intros]: "chans_ok p cs \<Longrightarrow> chans_ok p (try_send c v cs)"
  by (auto simp: chans_ok_def try_send_def dest!: set_update_subset_insert [THEN subsetD])

lemma chans_ok_drain: "chans_ok p cs \<Longrightarrow> chans_ok p (fold (\<lambda>(k, c). try_send c v) ps cs)"
  by (induction ps arbitrary: cs) (auto intro: chans_ok_try_send)

lemma chans_ok_drained:
  "chans_ok p cs \<Longrightarrow> q \<in> set (fold (\<lambda>(k, c). try_send c v) ps cs) \<Longrightarrow> length q \<le> Suc 0"
  using chans_ok_drain [of p cs v ps] by (auto simp: chans_ok_def)

lemma index_total_Put [agent_intros]: "index_total s \<Longrightarrow> index_total (Put a s)"
  by (auto simp: index_total_def Put_lookup)

lemma index_total_found: "index_total s \<Longrightarrow> GetByDID d s \<noteq> Inr None"
  by (auto simp: index_total_def GetByDID_def split: option.splits)

text \<open>What the operations touch: sending a message only adds to the log of frames.\<close>

lemma transport_Send_effect: "\<exists>s. snd (transport_Send i t data a) = a\<lparr>sent := s\<rparr>"
  by (simp add: transport_Send_def) (metis agent_rt.surjective agent_rt.update_convs(23))

lemma sendMessage_effect: "\<exists>er s. sendMessage e i msg a = (er, a\<lparr>sent := s\<rparr>)"
  using transport_Send_effect [where i = i and a = a]
  by (auto simp: sendMessage_def split: sum.splits option.splits) (metis agent_rt.surjective agent_rt.update_convs(23) prod.collapse)+

lemma message_frame_no_panic: "message_frame e msg \<noteq> Inl NilDereference"
  by (simp add: message_frame_def split: sum.split option.split)

lemma transport_Send_no_panic: "fst (transport_Send i t data a) \<noteq> Some NilDereference"
  by (simp add: transport_Send_def)

lemma sendMessage_no_panic: "index_total (rt_store a) \<Longrightarrow> fst (sendMessage e i msg a) \<noteq> Some NilDereference"
  using message_frame_no_panic [of e msg]
  by (auto simp: sendMessage_def findTransportForRecipient_def Let_def transport_Send_no_panic index_total_found
      split: sum.splits option.splits)

lemma best_effort_send:
  assumes "index_total (rt_store a)"
  shows "\<exists>s. best_effort (sendMessage e i msg a) = Some (a\<lparr>sent := s\<rparr>)"
  using sendMessage_effect [of e i msg a] sendMessage_no_panic [OF assms, of e i msg] by (auto simp: best_effort_def)

lemma no_frames_sent: "\<exists>s. a = a\<lparr>sent := s\<rparr>"
  by (rule exI [of _ "sent a"]) simp

lemma sendErrorToSender_effect:
  assumes "index_total (rt_store a)"
  shows "\<exists>s. sendErrorToSender e i t req msg code txt a = Some (a\<lparr>sent := s\<rparr>)"
  using best_effort_send [OF assms] transport_Send_effect [where i = i and a = a] no_frames_sent [of a]
  by (auto simp: sendErrorToSender_def sendErrorResponse_def split: sum.split)

lemma send_result_effect:
  assumes "index_total (rt_store a)"
  shows "\<exists>s. send_result e i t req msg result a = Some (a\<lparr>sent := s\<rparr>)"
  using best_effort_send [OF assms] transport_Send_effect [where i = i and a = a] no_frames_sent [of a]
  by (auto simp: send_result_def Let_def split: sum.split)

text \<open>The parts of the state a lookup through the relay may touch, and that it leaves them in order.\<close>

definition lookup_effect :: "agent_rt \<Rightarrow> agent_rt \<Rightarrow> bool" where
  "lookup_effect a a' \<longleftrightarrow>
     a' = a\<lparr>rt_store := rt_store a', sent := sent a', pendingRPC := pendingRPC a', rpcchans := rpcchans a'\<rparr>"

lemma lookup_effect_simps [simp]:
  "lookup_effect a a"
  "lookup_effect a (b\<lparr>rt_store := st\<rparr>) \<longleftrightarrow> lookup_effect a b"
  "lookup_effect a (b\<lparr>sent := s\<rparr>) \<longleftrightarrow> lookup_effect a b"
  "lookup_effect a (b\<lparr>pendingRPC := p\<rparr>) \<longleftrightarrow> lookup_effect a b"
  "lookup_effect a (b\<lparr>rpcchans := q\<rparr>) \<longleftrightarrow> lookup_effect a b"
  by (cases a, cases b, simp add: lookup_effect_def)+

lemma lookup_effectD:
  assumes "lookup_effect a a'"
  shows "a' = a\<lparr>rt_store := rt_store a', sent := sent a', pendingRPC := pendingRPC a', rpcchans := rpcchans a'\<rparr>"
  using assms by (simp add: lookup_effect_def)

lemma lookup_effect_trans: "lookup_effect a b \<Longrightarrow> lookup_effect b c \<Longrightarrow> lookup_effect a c"
  by (cases a, cases b, cases c) (simp add: lookup_effect_def)

lemma lookup_effect_fields:
  assumes "lookup_effect a a'"
  shows "rt_identity a' = rt_identity a" "rt_record a' = rt_record a" "rt_handlers a' = rt_handlers a" "peers a' = peers a"
    "pending a' = pending a" "chans a' = chans a" "seenMsgs a' = seenMsgs a" "dedupTTL a' = dedupTTL a" "calls a' = calls a"
    "relayAddr a' = relayAddr a"
  by (subst lookup_effectD [OF assms], simp)+

definition rpc_ok :: "agent_rt \<Rightarrow> bool" where
  "rpc_ok a \<longleftrightarrow> chans_ok (pendingRPC a) (rpcchans a) \<and> index_total (rt_store a)"

lemma CallRelay_begin_effect:
  assumes "rpc_ok a" and "CallRelay_begin e i m ps a = (r, a')"
  shows "lookup_effect a a' \<and> rpc_ok a'"
  using assms
  by (auto simp: CallRelay_begin_def Let_def transport_Send_def rpc_ok_def split: sum.splits option.splits if_splits
      intro!: chans_ok_close chans_ok_open)

lemma CallRelay_effect:
  assumes "rpc_ok a" and "CallRelay e i m ps a = (r, a')"
  shows "lookup_effect a a' \<and> rpc_ok a'"
proof -
  obtain r1 a1 where b: "CallRelay_begin e i m ps a = (r1, a1)" by fastforce
  note eff = CallRelay_begin_effect [OF assms(1) b]
  show ?thesis
  proof (cases r1)
    case (Inl er)
    then show ?thesis using assms(2) b eff by (simp add: CallRelay_def)
  next
    case (Inr ch)
    then show ?thesis using assms(2) b eff
      by (auto simp: CallRelay_def CallRelay_end_def Let_def rpc_ok_def split: option.splits select.splits
          intro!: chans_ok_close chans_ok_take chans_ok_try_send)
  qed
qed

lemma resolvePeer_effect:
  assumes "rpc_ok a" and "resolvePeer e i d a = (r, a')"
  shows "lookup_effect a a' \<and> rpc_ok a'"
proof -
  obtain r1 a1 where c: "CallRelay e i ''relay.discover'' None a = (r1, a1)" by fastforce
  then show ?thesis using assms(2) CallRelay_effect [OF assms(1) c]
    by (auto simp: resolvePeer_def AddPeer_def NewDiscovery_def rpc_ok_def intro!: index_total_Put split: option.splits sum.splits)
qed

lemma find_sender_effect:
  assumes "rpc_ok a" and "find_sender e i d a = (r, a')"
  shows "lookup_effect a a' \<and> rpc_ok a' \<and> r \<noteq> Inl NilDereference"
proof -
  obtain r1 a1 where c: "resolvePeer e i d a = (r1, a1)" by fastforce
  note eff = resolvePeer_effect [OF assms(1) c]
  have "GetByDID d (rt_store a) \<noteq> Inr None" "GetByDID d (rt_store a1) \<noteq> Inr None"
    using assms(1) eff by (simp_all add: rpc_ok_def index_total_found)
  then show ?thesis using assms c eff by (auto simp: find_sender_def split: option.splits sum.splits)
qed

section \<open>What runs a handler\<close>

lemma find_sender_found: "find_sender e i d a = (Inr s, a') \<Longrightarrow> GetByDID d (rt_store a') = Inr (Some s)"
  by (auto simp: find_sender_def split: option.splits sum.splits prod.splits)

lemma find_sender_known: "GetByDID d (rt_store a) = Inr (Some s) \<Longrightarrow> find_sender e i d a = (Inr s, a)"
  by (simp add: find_sender_def)

lemma verifyMessageSignature_effect:
  assumes "rpc_ok a" and "verifyMessageSignature e i msg a = (r, a')"
  shows "lookup_effect a a' \<and> rpc_ok a' \<and> r \<noteq> Some NilDereference"
proof -
  obtain r1 a1 where f: "find_sender e i (From msg) a = (r1, a1)" by fastforce
  have "check_signature e s msg \<noteq> Some NilDereference" for s
    by (simp add: check_signature_def split: option.split)
  then show ?thesis using assms find_sender_effect [OF assms(1) f] f
    by (auto simp: verifyMessageSignature_def split: if_splits sum.splits)
qed

lemma verifyMessageSignature_passes:
  "verifyMessageSignature e i msg a = (None, a') \<longleftrightarrow>
     slice_bytes (Signature msg) \<noteq> [] \<and> (\<exists>s. find_sender e i (From msg) a = (Inr s, a') \<and> check_signature e s msg = None)"
  by (auto simp: verifyMessageSignature_def split: prod.splits sum.splits)

text \<open>The decryption of a message whose sender is known: the state stays, a failure is an error.\<close>

lemma decryptMessageBody_known:
  assumes "GetByDID (From msg) (rt_store a) = Inr (Some s)"
  shows "\<exists>r. decryptMessageBody e i msg a = (r, a) \<and> r \<noteq> Inl NilDereference"
  using assms by (auto simp: decryptMessageBody_def find_sender_known split: option.split sum.split)

definition opened :: "'a agent_env_scheme \<Rightarrow> Identity \<Rightarrow> Agent \<Rightarrow> Message \<Rightarrow> Message \<Rightarrow> bool" where
  "opened e ident s msg msg' \<longleftrightarrow>
     (if \<not> Encrypted msg \<or> slice_bytes (Body msg) = [] then msg' = msg
      else \<exists>k b. GetEncryptionKey s = Some k
        \<and> Decrypt e (slice_bytes (Body msg)) (PrivateKey (Encryption (id_Keys ident))) (slice_bytes (pk_Key k)) = Inr b
        \<and> msg' = msg\<lparr>Body := Some b, Encrypted := False\<rparr>)"

lemma decryptMessageBody_opens:
  assumes "GetByDID (From msg) (rt_store a) = Inr (Some s)" and "decryptMessageBody e i msg a = (Inr msg', a')"
  shows "a' = a \<and> opened e (rt_identity a) s msg msg'"
  using assms by (auto simp: decryptMessageBody_def find_sender_known opened_def split: option.splits sum.splits if_splits)

lemma opened_routing:
  "opened e ident s msg msg' \<Longrightarrow> From msg' = From msg \<and> Method msg' = Method msg \<and> msg_ID msg' = msg_ID msg"
  by (auto simp: opened_def split: if_splits)

text \<open>What a request has passed when its handler runs, over the state in which it ran.\<close>

definition authorized :: "'a agent_env_scheme \<Rightarrow> agent_rt \<Rightarrow> Message \<Rightarrow> Message \<Rightarrow> string \<Rightarrow> bool" where
  "authorized e a msg msg' key \<longleftrightarrow>
     (\<exists>s. GetByDID (From msg) (rt_store a) = Inr (Some s) \<and> slice_bytes (Signature msg) \<noteq> []
        \<and> check_signature e s msg = None \<and> opened e (rt_identity a) s msg msg'
        \<and> CheckAccess (rt_record a) (From msg) (Method msg) = None
        \<and> map_option fst (find_handler (Method msg) a) = Some key)"

lemma authorized_sent [simp]:
  "authorized e (a\<lparr>sent := s\<rparr>) msg msg' key \<longleftrightarrow> authorized e a msg msg' key"
  "authorized e (a\<lparr>calls := cs\<rparr>) msg msg' key \<longleftrightarrow> authorized e a msg msg' key"
  by (simp_all add: authorized_def find_handler_def cong: option.case_cong)

lemma rpc_ok_simps [simp]: "rpc_ok (a\<lparr>sent := s\<rparr>) \<longleftrightarrow> rpc_ok a" "rpc_ok (a\<lparr>calls := cs\<rparr>) \<longleftrightarrow> rpc_ok a"
  "rpc_ok (a\<lparr>seenMsgs := sm\<rparr>) \<longleftrightarrow> rpc_ok a" "rpc_ok (a\<lparr>chans := ch\<rparr>) \<longleftrightarrow> rpc_ok a"
  by (simp_all add: rpc_ok_def)

definition logged :: "time \<Rightarrow> Message \<Rightarrow> string \<Rightarrow> agent_rt \<Rightarrow> agent_rt" where
  "logged now msg key a = a\<lparr>calls := calls a @ [RequestCall now msg key]\<rparr>"

lemma run_handler_effect:
  assumes "index_total (rt_store a)"
  shows "(find_handler (Method msg) a = None \<and> (\<exists>s. run_handler e i t req msg a = Some (a\<lparr>sent := s\<rparr>)))
    \<or> (\<exists>key s. map_option fst (find_handler (Method msg) a) = Some key
         \<and> run_handler e i t req msg a = Some ((logged (in_now i) msg key a)\<lparr>sent := s\<rparr>))"
proof (cases "find_handler (Method msg) a")
  case None
  then show ?thesis using sendErrorToSender_effect [OF assms] by (simp add: run_handler_def)
next
  case (Some kh)
  have ok: "index_total (rt_store (a\<lparr>calls := calls a @ [RequestCall (in_now i) msg (fst kh)]\<rparr>))" using assms by simp
  show ?thesis
    using Some sendErrorToSender_effect [OF ok] send_result_effect [OF ok]
    by (auto simp: run_handler_def Let_def logged_def split: prod.split sum.split)
qed

lemma authorize_request_cases:
  assumes "rpc_ok a"
  obtains (refused) a' where "authorize_request e i t req msg a = Some a'" "lookup_effect a a'" "rpc_ok a'"
  | (ran) a1 msg' key s where "authorize_request e i t req msg a = Some ((logged (in_now i) msg' key a1)\<lparr>sent := s\<rparr>)"
      "lookup_effect a a1" "rpc_ok a1" "authorized e a1 msg msg' key"
proof -
  obtain r a1 where v: "verifyMessageSignature e i msg a = (r, a1)" by fastforce
  have eff: "lookup_effect a a1" "rpc_ok a1" "r \<noteq> Some NilDereference" "index_total (rt_store a1)"
    using verifyMessageSignature_effect [OF assms v] by (simp_all add: rpc_ok_def)
  have err: thesis if "authorize_request e i t req msg a = sendErrorToSender e i t req m code tx a1" for m code tx
    using sendErrorToSender_effect [OF eff(4), of e i t req m code tx] that eff(1,2) refused by auto
  show thesis
  proof (cases r)
    case (Some er)
    then show thesis using v eff(3) by (intro err) (auto simp: authorize_request_def)
  next
    case None
    then obtain s where s: "slice_bytes (Signature msg) \<noteq> []" "find_sender e i (From msg) a = (Inr s, a1)" "check_signature e s msg = None"
      using v by (auto simp: verifyMessageSignature_passes)
    note known = find_sender_found [OF s(2)]
    obtain r2 where d: "decryptMessageBody e i msg a1 = (r2, a1)" "r2 \<noteq> Inl NilDereference"
      using decryptMessageBody_known [OF known] by blast
    show thesis
    proof (cases r2)
      case (Inl er)
      then show thesis using v None d by (intro err) (auto simp: authorize_request_def)
    next
      case (Inr msg')
      note op = decryptMessageBody_opens [OF known d(1) [unfolded Inr], THEN conjunct2]
      have step: "authorize_request e i t req msg a =
          (if CheckAccess (rt_record a1) (From msg) (Method msg) \<noteq> None then
             sendErrorToSender e i t req msg' CodeAccessDenied ''access denied'' a1
           else run_handler e i t req msg' a1)"
        using v None d Inr opened_routing [OF op] by (simp add: authorize_request_def)
      show thesis
        using run_handler_effect [OF eff(4), of msg' e i t req] step s known op opened_routing [OF op] eff(1,2) err ran refused
        by (cases "CheckAccess (rt_record a1) (From msg) (Method msg) = None") (auto simp: authorized_def)
    qed
  qed
qed

section \<open>Progress and preservation\<close>

lemma agent_wf_iff:
  "agent_wf a \<longleftrightarrow> rpc_ok a \<and> chans_ok (pending a) (chans a) \<and> distinct (mkeys (peers a)) \<and> distinct (mkeys (seenMsgs a))
     \<and> distinct (mkeys (rt_handlers a))"
  by (auto simp: agent_wf_def rpc_ok_def)

lemma agent_wf_lookup: "agent_wf a \<Longrightarrow> lookup_effect a a' \<Longrightarrow> rpc_ok a' \<Longrightarrow> agent_wf a'"
  by (simp add: agent_wf_iff lookup_effect_fields)

lemma agent_wf_simps [simp]:
  "agent_wf (a\<lparr>sent := s\<rparr>) \<longleftrightarrow> agent_wf a" "agent_wf (a\<lparr>calls := cs\<rparr>) \<longleftrightarrow> agent_wf a"
  "agent_wf (a\<lparr>acked := ac\<rparr>) \<longleftrightarrow> agent_wf a" "agent_wf (a\<lparr>rt_record := r\<rparr>) \<longleftrightarrow> agent_wf a"
  "agent_wf (logged now msg key a) \<longleftrightarrow> agent_wf a"
  by (simp_all add: agent_wf_def logged_def)

lemma isDuplicateMessage_wf: "agent_wf a \<Longrightarrow> agent_wf (snd (isDuplicateMessage now k a))"
  by (simp add: isDuplicateMessage_def agent_wf_def gomap)

lemma handleMessageResponse_wf: "agent_wf a \<Longrightarrow> agent_wf (handleMessageResponse msg a)"
  by (auto simp: handleMessageResponse_def agent_wf_def intro!: chans_ok_try_send split: option.split)

lemma agentHandleResponse_wf: "agent_wf a \<Longrightarrow> agent_wf (agentHandleResponse e resp a)"
  by (auto simp: agentHandleResponse_def agent_wf_def Let_def intro!: chans_ok_try_send split: option.split json.split)

lemma handleNotification_wf: "agent_wf a \<Longrightarrow> agent_wf (handleNotification e req a)"
  by (auto simp: handleNotification_def handleRelayAck_def notifyDeliveryAck_def notify_handler_def agent_wf_def
      intro!: index_total_Put split: option.split)

text \<open>The ways a request can go, with the state after the duplicate check.\<close>

lemma handleRequest_cases:
  assumes "agent_wf a"
  obtains (invalid) s where "handleRequest e i t req a = Some (a\<lparr>sent := s\<rparr>)"
  | (duplicate) msg where "handleRequest e i t req a = Some a" "ParseParams (u_msg e) zero_Message req = Some msg"
      "map_of (seenMsgs a) (uuid_String e (msg_ID msg)) \<noteq> None"
  | (response) msg a1 where "handleRequest e i t req a = Some (handleMessageResponse msg a1)"
      "ParseParams (u_msg e) zero_Message req = Some msg" "isDuplicateMessage (in_now i) (uuid_String e (msg_ID msg)) a = (False, a1)"
      "IsResponse msg \<or> IsError msg"
  | (refused) msg a1 a' where "handleRequest e i t req a = Some a'" "ParseParams (u_msg e) zero_Message req = Some msg"
      "isDuplicateMessage (in_now i) (uuid_String e (msg_ID msg)) a = (False, a1)" "lookup_effect a1 a'" "rpc_ok a'"
  | (ran) msg a1 a2 msg' key s where "handleRequest e i t req a = Some ((logged (in_now i) msg' key a2)\<lparr>sent := s\<rparr>)"
      "ParseParams (u_msg e) zero_Message req = Some msg" "isDuplicateMessage (in_now i) (uuid_String e (msg_ID msg)) a = (False, a1)"
      "lookup_effect a1 a2" "rpc_ok a2" "authorized e a2 msg msg' key"
proof (cases "ParseParams (u_msg e) zero_Message req")
  case None
  then show thesis
    using transport_Send_effect invalid by (auto simp: handleRequest_def sendErrorResponse_def) metis
next
  case (Some msg)
  obtain dup a1 where d: "isDuplicateMessage (in_now i) (uuid_String e (msg_ID msg)) a = (dup, a1)" by fastforce
  have ok: "rpc_ok a1" using isDuplicateMessage_wf [OF assms, of "in_now i" "uuid_String e (msg_ID msg)"] d by (simp add: agent_wf_iff)
  show thesis
  proof (cases "dup \<or> IsResponse msg \<or> IsError msg")
    case True
    then show thesis
      using Some d duplicate response
      by (auto simp: handleRequest_def isDuplicateMessage_def split: if_splits)
  next
    case False
    then have step: "handleRequest e i t req a = authorize_request e i t req msg a1"
      using Some d by (auto simp: handleRequest_def)
    show thesis
      by (rule authorize_request_cases [OF ok, where e = e and i = i and t = t and req = req and msg = msg])
        (use False Some d step refused ran in \<open>auto\<close>)
  qed
qed

lemma handleIncoming_wf:
  assumes "agent_wf a"
  shows "\<exists>a'. handleIncoming e i t data a = Some a' \<and> agent_wf a'"
proof -
  have "\<exists>a'. handleRequest e i t req a = Some a' \<and> agent_wf a'" for req
    using assms
  proof (cases rule: handleRequest_cases [where e = e and i = i and t = t and req = req])
    case (response msg a1)
    then show ?thesis using isDuplicateMessage_wf [OF assms, of "in_now i" "uuid_String e (msg_ID msg)"] handleMessageResponse_wf by auto
  next
    case (refused msg a1 a')
    then show ?thesis using isDuplicateMessage_wf [OF assms, of "in_now i" "uuid_String e (msg_ID msg)"] agent_wf_lookup by auto
  next
    case (ran msg a1 a2 msg' key s)
    then show ?thesis using isDuplicateMessage_wf [OF assms, of "in_now i" "uuid_String e (msg_ID msg)"] agent_wf_lookup [of a1 a2] by auto
  qed (use assms in auto)
  then show ?thesis
    using handleNotification_wf [OF assms] agentHandleResponse_wf [OF assms] assms
    by (auto simp: handleIncoming_def split: sum.split)
qed

lemma encrypt_and_sign_no_panic: "index_total (rt_store a) \<Longrightarrow> encrypt_and_sign e i a msg \<noteq> Inl NilDereference"
  using index_total_found [of "rt_store a" "To msg"]
  by (auto simp: encrypt_and_sign_def encryptMessageBody_def split: sum.splits option.splits if_splits)

text \<open>Sending alone: never a panic, and only the log of frames grows.\<close>

definition sent_only :: "agent_rt \<Rightarrow> agent_error option \<times> agent_rt \<Rightarrow> bool" where
  "sent_only a r \<longleftrightarrow> fst r \<noteq> Some NilDereference \<and> (\<exists>s. snd r = a\<lparr>sent := s\<rparr>)"

lemma sent_only_sendMessage: "index_total (rt_store a) \<Longrightarrow> sent_only a (sendMessage e i msg a)"
  using sendMessage_effect [of e i msg a] sendMessage_no_panic [of a e i msg] by (auto simp: sent_only_def)

lemma sent_only_same: "er \<noteq> NilDereference \<Longrightarrow> sent_only a (Some er, a)"
  by (simp add: sent_only_def no_frames_sent)

lemma sent_only_send_built:
  assumes "index_total (rt_store a)"
  shows "sent_only a (error_of (send_built e i built a))"
proof (cases built)
  case (Inl er)
  then show ?thesis by (simp add: send_built_def error_of_def sent_only_same)
next
  case (Inr msg)
  show ?thesis
  proof (cases "encrypt_and_sign e i a msg")
    case (Inl er)
    then show ?thesis using Inr encrypt_and_sign_no_panic [OF assms, of e i msg]
      by (auto simp: send_built_def error_of_def intro!: sent_only_same)
  next
    case enc: (Inr msg')
    obtain er a' where "sendMessage e i msg' a = (er, a')" by fastforce
    then show ?thesis using Inr enc sent_only_sendMessage [OF assms, of e i msg']
      by (cases er) (simp_all add: send_built_def error_of_def)
  qed
qed

lemma op_outcome_sent_only: "sent_only a r \<Longrightarrow> \<exists>s. op_outcome r = Some (a\<lparr>sent := s\<rparr>)"
  by (cases r, cases "fst r") (auto simp: sent_only_def op_outcome_def split: agent_error.split)

text \<open>Operations other than an incoming frame leave the logs and the duplicate cache alone.\<close>

definition quiet :: "agent_rt \<Rightarrow> agent_rt \<Rightarrow> bool" where
  "quiet a a' \<longleftrightarrow> calls a' = calls a \<and> seenMsgs a' = seenMsgs a \<and> dedupTTL a' = dedupTTL a"

lemma sendAndWait_begin_effect:
  assumes "agent_wf a" and "sendAndWait_begin e i msg a = (r, a')"
  shows "agent_wf a' \<and> quiet a a' \<and> r \<noteq> Inl NilDereference"
proof -
  let ?a1 = "a\<lparr>chans := chans a @ [[]], pending := mput (msg_ID msg) (length (chans a)) (pending a)\<rparr>"
  have wf: "agent_wf ?a1" using assms(1) by (simp add: agent_wf_def chans_ok_open)
  then have ix: "index_total (rt_store ?a1)" by (simp add: agent_wf_def)
  obtain er s where s: "sendMessage e i msg ?a1 = (er, ?a1\<lparr>sent := s\<rparr>)" using sendMessage_effect by blast
  then have "er \<noteq> Some NilDereference" using sendMessage_no_panic [OF ix, of e i msg] by simp
  then show ?thesis
    using assms(2) s wf chans_ok_close
    by (cases er) (auto simp: sendAndWait_begin_def Let_def quiet_def agent_wf_def)
qed

lemma sendAndWait_end_effect:
  assumes "agent_wf a" and "sendAndWait_end c d mid ch a = Some (r, a')"
  shows "agent_wf a' \<and> quiet a a'"
  using assms
  by (auto simp: sendAndWait_end_def Let_def agent_wf_def quiet_def split: select.splits option.splits
      intro!: chans_ok_close chans_ok_take)

lemma op_outcome_error_of:
  "r \<noteq> Inl NilDereference \<Longrightarrow> op_outcome (error_of (r, a)) = Some a"
  by (cases r) (auto simp: op_outcome_def error_of_def split: agent_error.split)

lemma Send_begin_effect:
  assumes "agent_wf a" and "Send_begin e i to m p a = (r, a')"
  shows "agent_wf a' \<and> quiet a a' \<and> r \<noteq> Inl NilDereference"
proof (cases "NewRequest (m_any e) (in_msg_id i) (in_now i) (agent_DID a) to m p")
  case (Inl er)
  then show ?thesis using assms by (auto simp: Send_begin_def quiet_def)
next
  case (Inr msg)
  have ix: "index_total (rt_store a)" using assms(1) by (simp add: agent_wf_def)
  show ?thesis
  proof (cases "encrypt_and_sign e i a msg")
    case (Inl er)
    then show ?thesis using assms Inr encrypt_and_sign_no_panic [OF ix, of e i msg] by (auto simp: Send_begin_def quiet_def)
  next
    case enc: (Inr msg')
    obtain r1 a1 where w: "sendAndWait_begin e i msg' a = (r1, a1)" by fastforce
    show ?thesis using assms(2) Inr enc w sendAndWait_begin_effect [OF assms(1) w] by (cases r1) (auto simp: Send_begin_def)
  qed
qed

lemma SendAs_begin_effect:
  assumes "agent_wf a" and "SendAs_begin e i ident to m p a = (r, a')"
  shows "agent_wf a' \<and> quiet a a' \<and> r \<noteq> Inl NilDereference"
proof (cases "NewRequest (m_any e) (in_msg_id i) (in_now i) (did_String (id_DID ident)) to m p")
  case (Inl er)
  then show ?thesis using assms by (auto simp: SendAs_begin_def quiet_def)
next
  case (Inr msg)
  obtain r1 a1 where w: "sendAndWait_begin e i (delegate e ident a msg) a = (r1, a1)" by fastforce
  show ?thesis using assms(2) Inr w sendAndWait_begin_effect [OF assms(1) w] by (cases r1) (auto simp: SendAs_begin_def)
qed

lemma SendAsync_sent_only:
  assumes "index_total (rt_store a)"
  shows "sent_only a (error_of (SendAsync e i to m p a))"
proof -
  let ?b = "map_sum id (\<lambda>msg. msg\<lparr>RequestAck := True\<rparr>) (NewRequest (m_any e) (in_msg_id i) (in_now i) (agent_DID a) to m p)"
  obtain r a' where "send_built e i ?b a = (r, a')" by fastforce
  then show ?thesis using sent_only_send_built [OF assms, of e i ?b] by (cases r) (simp_all add: SendAsync_def error_of_def)
qed

lemma SendAsAsync_sent_only:
  assumes "index_total (rt_store a)"
  shows "sent_only a (error_of (SendAsAsync e i ident to m p a))"
proof (cases "NewRequest (m_any e) (in_msg_id i) (in_now i) (did_String (id_DID ident)) to m p")
  case (Inl er)
  then show ?thesis by (simp add: SendAsAsync_def error_of_def sent_only_same)
next
  case (Inr msg)
  obtain r a' where s: "sendMessage e i (delegate e ident a (msg\<lparr>RequestAck := True\<rparr>)) a = (r, a')" by fastforce
  then show ?thesis using Inr sent_only_sendMessage [OF assms, of e i "delegate e ident a (msg\<lparr>RequestAck := True\<rparr>)"]
    by (cases r) (simp_all add: SendAsAsync_def error_of_def)
qed

lemma agent_wf_sent_only:
  assumes "agent_wf a" and "sent_only a r"
  shows "\<exists>a'. op_outcome r = Some a' \<and> agent_wf a' \<and> quiet a a'"
  using op_outcome_sent_only [OF assms(2)] assms(1) by (auto simp: quiet_def)

definition is_frame :: "agent_op \<Rightarrow> bool" where
  "is_frame op \<longleftrightarrow> (\<exists>t data. op = OpIncoming t data)"

lemma agent_exec_lifecycle:
  assumes "agent_wf a"
  shows "agent_wf (RegisterMethod m h a)" "agent_wf (AgentAddCapability n d ms a)" "agent_wf (SetACL p a)"
    "agent_wf (snd (Start now a))" "agent_wf (snd (AgentStop now a))" "agent_wf (snd (Listen bound a))"
    "agent_wf (accept_peer q t a)" "agent_wf (peer_disconnected q a)" "agent_wf (snd (Connect addr ot a))"
    "agent_wf (cleanupDedup now a)" "agent_wf (OnDeliveryAck k a)"
  using assms chans_ok_drained [of "pending a" "chans a"] chans_ok_drained [of "pendingRPC a" "rpcchans a"]
  by (auto simp: agent_wf_def RegisterMethod_def AgentAddCapability_def SetACL_def Start_def AgentStop_def drainPendingChannels_def
      Listen_def accept_peer_def peer_disconnected_def Connect_def cleanupDedup_def OnDeliveryAck_def gomap distinct_map_filter
      split: option.split)

lemma lifecycle_quiet:
  "quiet a (RegisterMethod m h a)" "quiet a (AgentAddCapability n d ms a)" "quiet a (SetACL p a)"
  "quiet a (snd (Start now a))" "quiet a (snd (AgentStop now a))" "quiet a (snd (Listen bound a))"
  "quiet a (accept_peer q t a)" "quiet a (peer_disconnected q a)" "quiet a (snd (Connect addr ot a))" "quiet a (OnDeliveryAck k a)"
  by (auto simp: quiet_def RegisterMethod_def AgentAddCapability_def SetACL_def Start_def AgentStop_def drainPendingChannels_def
      Listen_def accept_peer_def peer_disconnected_def Connect_def OnDeliveryAck_def split: option.split)

lemma agent_exec_wf:
  assumes "agent_wf a"
  shows "\<exists>a'. agent_exec e i op a = Some a' \<and> agent_wf a' \<and> (is_frame op \<or> op = OpTick \<or> quiet a a')"
proof -
  have ix: "index_total (rt_store a)" and rpc: "rpc_ok a" using assms by (simp_all add: agent_wf_def agent_wf_iff [of a, symmetric] rpc_ok_def)
  have send: "\<exists>a'. op_outcome r = Some a' \<and> agent_wf a' \<and> (P \<or> Q \<or> quiet a a')"
    "\<exists>a'. op_outcome r = Some a' \<and> agent_wf a' \<and> (Q \<or> quiet a a')" "\<exists>a'. op_outcome r = Some a' \<and> agent_wf a' \<and> quiet a a'"
    if "sent_only a r" for r P Q
    using agent_wf_sent_only [OF assms that] by blast+
  note built = sent_only_send_built [OF ix] and plain = sent_only_sendMessage [OF ix]
  show ?thesis
  proof (cases op)
    case (OpIncoming t data)
    then show ?thesis using handleIncoming_wf [OF assms] by (simp add: is_frame_def)
  next
    case (OpSend to m p)
    obtain r a' where s: "Send_begin e i to m p a = (r, a')" by fastforce
    then show ?thesis using OpSend Send_begin_effect [OF assms s] by (simp add: op_outcome_error_of)
  next
    case (OpSendAs ident to m p)
    obtain r a' where s: "SendAs_begin e i ident to m p a = (r, a')" by fastforce
    then show ?thesis using OpSendAs SendAs_begin_effect [OF assms s] by (simp add: op_outcome_error_of)
  next
    case (OpWait c d mid ch)
    then show ?thesis using assms sendAndWait_end_effect [OF assms, of c d mid ch] by (auto simp: quiet_def split: option.split)
  next
    case (OpCall m p)
    obtain r a' where c: "CallRelay e i m p a = (r, a')" by fastforce
    have eff: "lookup_effect a a'" "rpc_ok a'" using CallRelay_effect [OF rpc c] by simp_all
    then show ?thesis using OpCall c agent_wf_lookup [OF assms eff] by (simp add: quiet_def lookup_effect_fields)
  qed (simp_all add: agent_exec_lifecycle [OF assms] lifecycle_quiet send built plain SendAsync_sent_only [OF ix]
      SendAsAsync_sent_only [OF ix] AgentNotify_def SendChat_def SendChatReply_def SendTypingIndicator_def SendReceipt_def)
qed

lemma New_wf: "New e i r1 r2 cfg = Inr a \<Longrightarrow> agent_wf a"
  by (auto simp: New_def agent_wf_def chans_ok_def index_total_def NewAgentStore_def split: sum.splits option.splits)

lemma agent_reach_wf:
  assumes "agent_reach e a0 t a" and "agent_wf a0"
  shows "agent_wf a"
  using assms by (induction rule: agent_reach.induct) (metis agent_exec_wf option.inject)+

section \<open>Deduplication\<close>

fun request_log :: "call list \<Rightarrow> (time \<times> uuid) list" where
  "request_log [] = []"
| "request_log (RequestCall t msg key # cs) = (t, msg_ID msg) # request_log cs"
| "request_log (NotificationCall key params # cs) = request_log cs"

lemma request_log_append [simp]: "request_log (xs @ ys) = request_log xs @ request_log ys"
  by (induction xs rule: request_log.induct) simp_all

definition far_apart :: "duration \<Rightarrow> time \<times> uuid \<Rightarrow> time \<times> uuid \<Rightarrow> bool" where
  "far_apart ttl x y \<longleftrightarrow> (snd x = snd y \<longrightarrow> fst y - fst x > ttl)"

text \<open>
  The invariant at time \<open>t\<close>: the calls of one message are far apart, and a message that was
  called is still in the cache with a later time, or its last call is longer ago than the
  lifetime of the cache.
\<close>

definition remembered :: "'a agent_env_scheme \<Rightarrow> time \<Rightarrow> agent_rt \<Rightarrow> time \<Rightarrow> uuid \<Rightarrow> bool" where
  "remembered e t a s m \<longleftrightarrow>
     (case map_of (seenMsgs a) (uuid_String e m) of Some s' \<Rightarrow> s \<le> s' | None \<Rightarrow> t - s > dedupTTL a)"

definition dedup_inv :: "'a agent_env_scheme \<Rightarrow> time \<Rightarrow> agent_rt \<Rightarrow> bool" where
  "dedup_inv e t a \<longleftrightarrow> sorted_wrt (far_apart (dedupTTL a)) (request_log (calls a))
     \<and> (\<forall>s m. (s, m) \<in> set (request_log (calls a)) \<longrightarrow> s \<le> t \<and> remembered e t a s m)"

lemma remembered_later: "remembered e t a s m \<Longrightarrow> t \<le> t' \<Longrightarrow> remembered e t' a s m"
  by (simp add: remembered_def split: option.splits)

lemma dedup_inv_later: "dedup_inv e t a \<Longrightarrow> t \<le> t' \<Longrightarrow> dedup_inv e t' a"
  unfolding dedup_inv_def using remembered_later [of e t a _ _ t'] order_trans [of _ t t'] by blast

lemma dedup_inv_same:
  assumes "dedup_inv e t a" and "request_log (calls a') = request_log (calls a)" and "seenMsgs a' = seenMsgs a" and "dedupTTL a' = dedupTTL a"
  shows "dedup_inv e t a'"
  using assms(1) unfolding dedup_inv_def remembered_def assms(2-4) .

lemma remembered_tick:
  assumes "remembered e t a s m" and "distinct (mkeys (seenMsgs a))"
  shows "remembered e t (cleanupDedup t a) s m"
  using assms(1) map_of_filter_distinct [OF assms(2), of "\<lambda>(i, seenAt). \<not> t - seenAt > dedupTTL a" "uuid_String e m"]
  by (auto simp: remembered_def cleanupDedup_def split: option.splits if_splits)

lemma dedup_inv_tick:
  assumes "dedup_inv e t a" and "distinct (mkeys (seenMsgs a))"
  shows "dedup_inv e t (cleanupDedup t a)"
proof -
  have "calls (cleanupDedup t a) = calls a" "dedupTTL (cleanupDedup t a) = dedupTTL a" by (simp_all add: cleanupDedup_def)
  then show ?thesis
    using assms(1) remembered_tick [OF _ assms(2), of e t] unfolding dedup_inv_def by presburger
qed

lemma dedup_inv_mark:
  assumes inv: "dedup_inv e t a" and "\<And>u. uuid_String e u \<noteq> []"
    and "isDuplicateMessage t (uuid_String e m) a = (False, a1)"
  shows "dedup_inv e t a1" and "map_of (seenMsgs a1) (uuid_String e m) = Some t"
    and "(s, m) \<in> set (request_log (calls a1)) \<Longrightarrow> t - s > dedupTTL a1"
proof -
  have a1: "a1 = a\<lparr>seenMsgs := mput (uuid_String e m) t (seenMsgs a)\<rparr>" and fresh: "map_of (seenMsgs a) (uuid_String e m) = None"
    using assms(2,3) by (auto simp: isDuplicateMessage_def split: if_splits)
  then show "map_of (seenMsgs a1) (uuid_String e m) = Some t" by (simp add: gomap)
  show "t - s > dedupTTL a1" if "(s, m) \<in> set (request_log (calls a1))"
  proof -
    have "remembered e t a s m" using inv that a1 by (simp add: dedup_inv_def)
    then show ?thesis using fresh a1 by (simp add: remembered_def)
  qed
  have "remembered e t a1 s' m'" if "s' \<le> t" "remembered e t a s' m'" for s' m'
    using that unfolding remembered_def a1 by (auto simp: gomap split: option.splits)
  then show "dedup_inv e t a1"
    using inv unfolding dedup_inv_def by (simp add: a1)
qed

lemma dedup_inv_log:
  assumes inv: "dedup_inv e t a" and seen: "map_of (seenMsgs a) (uuid_String e (msg_ID msg)) = Some t"
    and fresh: "\<And>s. (s, msg_ID msg) \<in> set (request_log (calls a)) \<Longrightarrow> t - s > dedupTTL a"
  shows "dedup_inv e t (logged t msg key a)"
proof -
  have "far_apart (dedupTTL a) x (t, msg_ID msg)" if "x \<in> set (request_log (calls a))" for x
    using fresh that by (cases x) (auto simp: far_apart_def)
  moreover have "remembered e t (logged t msg key a) s m \<longleftrightarrow> remembered e t a s m" for s m
    by (simp add: remembered_def logged_def split: option.split)
  moreover have "remembered e t a t (msg_ID msg)" using seen by (simp add: remembered_def)
  ultimately show ?thesis
    using inv by (auto simp: dedup_inv_def logged_def sorted_wrt_append)
qed

lemma dedup_inv_frame:
  assumes wf: "agent_wf a" and inv: "dedup_inv e (in_now i) a" and us: "\<And>u. uuid_String e u \<noteq> []"
    and frame: "handleIncoming e i t data a = Some a'"
  shows "dedup_inv e (in_now i) a'"
proof -
  have req: "dedup_inv e (in_now i) a'" if "handleRequest e i t req a = Some a'" for req
    using wf
  proof (cases rule: handleRequest_cases [where e = e and i = i and t = t and req = req])
    case (response msg a1)
    then show ?thesis
      using that dedup_inv_mark(1) [OF inv us, of "msg_ID msg" a1]
      by (auto simp: handleMessageResponse_def elim!: dedup_inv_same split: option.splits)
  next
    case (refused msg a1 a2)
    then show ?thesis
      using that dedup_inv_mark(1) [OF inv us, of "msg_ID msg" a1] by (auto simp: lookup_effect_fields elim!: dedup_inv_same)
  next
    case (ran msg a1 a2 msg' key s)
    note eff = lookup_effect_fields [OF ran(4)]
    have mid: "msg_ID msg' = msg_ID msg" using ran(6) by (auto simp: authorized_def dest!: opened_routing)
    note marked = dedup_inv_mark [OF inv us ran(3)]
    have "dedup_inv e (in_now i) (logged (in_now i) msg' key a2)"
      by (rule dedup_inv_log [OF dedup_inv_same [OF marked(1)]]) (use marked(2,3) eff mid in simp_all)
    then show ?thesis using that ran(1) by (auto elim!: dedup_inv_same)
  qed (use that inv in \<open>auto elim!: dedup_inv_same\<close>)
  show ?thesis
    using frame req inv
    by (auto simp: handleIncoming_def handleNotification_def handleRelayAck_def notifyDeliveryAck_def notify_handler_def
        agentHandleResponse_def Let_def elim!: dedup_inv_same split: sum.splits if_splits option.splits json.splits)
qed

lemma dedup_inv_exec:
  assumes wf: "agent_wf a" and inv: "dedup_inv e (in_now i) a" and us: "\<And>u. uuid_String e u \<noteq> []"
    and step: "agent_exec e i op a = Some a'"
  shows "dedup_inv e (in_now i) a'"
proof -
  consider t data where "op = OpIncoming t data" | "op = OpTick" | "quiet a a'"
    using agent_exec_wf [OF wf, of e i op] step by (auto simp: is_frame_def)
  then show ?thesis
  proof cases
    case 1
    then show ?thesis using dedup_inv_frame [OF wf inv us] step by auto
  next
    case 2
    then show ?thesis using dedup_inv_tick [OF inv] wf step by (auto simp: agent_wf_def)
  next
    case 3
    then show ?thesis using dedup_inv_same [OF inv] by (simp add: quiet_def)
  qed
qed

lemma agent_reach_dedup:
  assumes "agent_reach e a0 t a" and "agent_wf a0" and "calls a0 = []" and us: "\<And>u. uuid_String e u \<noteq> []"
  shows "dedup_inv e t a"
  using assms(1)
proof (induction rule: agent_reach.induct)
  case (agent_init t)
  then show ?case using assms(3) by (simp add: dedup_inv_def)
next
  case (agent_step t a i op a')
  then show ?case using dedup_inv_exec [OF agent_reach_wf [OF agent_step(1) assms(2)] _ us] dedup_inv_later by blast
qed

section \<open>Authorization\<close>

lemma handleNotification_calls:
  "calls (handleNotification e req a) = calls a \<or> (\<exists>key p. calls (handleNotification e req a) = calls a @ [NotificationCall key p])"
  by (auto simp: handleNotification_def handleRelayAck_def notifyDeliveryAck_def notify_handler_def split: option.split)

lemma handleNotification_no_request: "calls (handleNotification e req a) \<noteq> calls a @ [RequestCall now msg key]"
  using handleNotification_calls [of e req a] by auto

lemma agentHandleResponse_calls [simp]: "calls (agentHandleResponse e resp a) = calls a"
  by (simp add: agentHandleResponse_def Let_def split: option.split json.split)

lemma handleMessageResponse_calls [simp]: "calls (handleMessageResponse msg a) = calls a"
  by (simp add: handleMessageResponse_def split: option.split)

lemma find_handler_cong: "rt_handlers a' = rt_handlers a \<Longrightarrow> find_handler m a' = find_handler m a"
  by (simp add: find_handler_def split: option.split)

lemma isDuplicateMessage_fields:
  assumes "isDuplicateMessage now k a = (d, a1)"
  shows "calls a1 = calls a" "rt_record a1 = rt_record a" "rt_identity a1 = rt_identity a" "rt_handlers a1 = rt_handlers a"
    "rt_store a1 = rt_store a" "peers a1 = peers a" "relayAddr a1 = relayAddr a"
  using assms by (auto simp: isDuplicateMessage_def split: if_splits)

lemma frame_runs_handler:
  assumes wf: "agent_wf a" and frame: "handleIncoming e i t data a = Some a'"
    and ext: "calls a' = calls a @ [RequestCall now msg' key]"
  obtains req msg where "DecodeRequest (u_req e) data = Inr req" "rq_ID req \<noteq> JNull"
    "ParseParams (u_msg e) zero_Message req = Some msg" "\<not> fst (isDuplicateMessage (in_now i) (uuid_String e (msg_ID msg)) a)"
    "authorized e a' msg msg' key" "rt_record a' = rt_record a" "rt_identity a' = rt_identity a" "rt_handlers a' = rt_handlers a"
proof -
  obtain req where req: "DecodeRequest (u_req e) data = Inr req" "rq_ID req \<noteq> JNull" "handleRequest e i t req a = Some a'"
    using frame ext by (auto simp: handleIncoming_def handleNotification_no_request split: sum.splits if_splits)
  show thesis
    using wf
  proof (cases rule: handleRequest_cases [where e = e and i = i and t = t and req = req])
    case (response msg a1)
    then show thesis using req(3) ext isDuplicateMessage_fields(1) by auto
  next
    case (refused msg a1 a2)
    then show thesis using req(3) ext isDuplicateMessage_fields(1) lookup_effect_fields(9) by fastforce
  next
    case (ran msg a1 a2 m k s)
    note kept = isDuplicateMessage_fields [OF ran(3)] lookup_effect_fields [OF ran(4)]
    have a': "a' = (logged (in_now i) m k a2)\<lparr>sent := s\<rparr>" using ran(1) req(3) by simp
    then have "m = msg'" "k = key" using ext kept by (simp_all add: logged_def)
    then show thesis using that [OF req(1,2) ran(2)] ran(3,6) a' kept by (simp add: logged_def)
  qed (use req(3) ext in auto)
qed

end
