(* ===== verification/Agent_Calls.thy ===== *)
theory Agent_Calls
  imports Agent_Runtime "HOL-Library.Monad_Syntax"
begin

text \<open>
  Calls between agents: two runtimes of \<open>Agent_Runtime\<close> joined by the frames they hand to their
  transports. The theory states what the code relies on in the JSON package and in the
  signatures, shows that a call through the relay is encrypted, authorized, handled once and
  answered, and what happens to answers on a direct connection, to announced keys and to
  notifications. A concrete codec and concrete agents show that the hypotheses can hold.
\<close>

section \<open>A call from one agent to another\<close>

text \<open>
  What the JSON package promises of messages and their frames. Text is ASCII, because Go
  replaces bytes that are not valid UTF-8; a byte slice with \<open>omitempty\<close> is nil or not empty;
  the time is one that RFC 3339 can express. Such a message can be marshalled and is decoded
  as it was, and so is the JSON-RPC request that carries it.
\<close>

definition json_text :: "string \<Rightarrow> bool" where
  "json_text s \<longleftrightarrow> list_all (\<lambda>c. (of_char c :: nat) < 128) s"

definition clean_message :: "Message \<Rightarrow> bool" where
  "clean_message m \<longleftrightarrow> json_text (From m) \<and> json_text (To m) \<and> json_text (MsgType m) \<and> json_text (Method m) \<and> json_text (TraceID m)
     \<and> json_text (ActorDID m) \<and> Signature m \<noteq> Some [] \<and> ActorProof m \<noteq> Some [] \<and> 0 \<le> Timestamp m \<and> Timestamp m < 2 ^ 63"

definition message_codec_ok :: "'a agent_env_scheme \<Rightarrow> bool" where
  "message_codec_ok e \<longleftrightarrow> (\<forall>m. clean_message m \<longrightarrow> (\<exists>d. m_msg e m = Some d \<and> u_msg e d = Some m))"

definition frame_codec_ok :: "'a agent_env_scheme \<Rightarrow> bool" where
  "frame_codec_ok e \<longleftrightarrow> (\<forall>m d cid req. m_msg e m = Some d \<longrightarrow> json_text cid \<longrightarrow> json_text (Method m) \<longrightarrow>
     req = \<lparr>rq_JSONRPC = ''2.0'', rq_ID = JStr cid, rq_Method = Method m, rq_Params = Some d\<rparr> \<longrightarrow>
     (\<exists>data. m_req e req = Some data \<and> u_req e data = Some req))"

definition uuid_ok :: "'a agent_env_scheme \<Rightarrow> bool" where
  "uuid_ok e \<longleftrightarrow> (\<forall>u. uuid_String e u \<noteq> [] \<and> json_text (uuid_String e u))"

definition sign_ok :: "'a crypto_env_scheme \<Rightarrow> bool" where
  "sign_ok e \<longleftrightarrow> (\<forall>k d. length k = 64 \<longrightarrow> ed_Sign e k d \<noteq> [])"

definition own_keys :: "'a crypto_env_scheme \<Rightarrow> Identity \<Rightarrow> bool" where
  "own_keys e ident \<longleftrightarrow> (\<exists>s r. length s = 32 \<and> length r = 32 \<and> GenerateAgentKeys e (Some s) (Some r) = Inr (id_Keys ident))"

text \<open>A registry that holds the public keys of an identity under its DID.\<close>

definition knows :: "AgentStore \<Rightarrow> Identity \<Rightarrow> bool" where
  "knows st ident \<longleftrightarrow>
     (case GetByDID (did_String (id_DID ident)) st of
        Inr (Some r) \<Rightarrow>
          map_option pk_Key (GetSigningKey r) = Some (Some (PublicKey (Signing (id_Keys ident))))
          \<and> map_option pk_Key (GetEncryptionKey r) = Some (Some (PublicKey (Encryption (id_Keys ident))))
      | _ \<Rightarrow> False)"

lemma knowsE:
  assumes "knows st ident"
  obtains r ks ke where "GetByDID (did_String (id_DID ident)) st = Inr (Some r)" "GetSigningKey r = Some ks"
    "pk_Key ks = Some (PublicKey (Signing (id_Keys ident)))" "GetEncryptionKey r = Some ke"
    "pk_Key ke = Some (PublicKey (Encryption (id_Keys ident)))"
  using assms by (auto simp: knows_def split: sum.splits option.splits)

lemma message_frame_decodes:
  assumes "message_codec_ok e" and "frame_codec_ok e" and "uuid_ok e" and "clean_message m" and "Method m \<noteq> []"
  obtains data req where "message_frame e m = Inr data" "DecodeRequest (u_req e) data = Inr req" "rq_ID req \<noteq> JNull"
    "ParseParams (u_msg e) zero_Message req = Some m"
proof -
  obtain d where d: "m_msg e m = Some d" "u_msg e d = Some m" using assms(1,4) by (auto simp: message_codec_ok_def)
  let ?req = "\<lparr>rq_JSONRPC = ''2.0'', rq_ID = JStr (uuid_String e (msg_ID m)), rq_Method = Method m, rq_Params = Some d\<rparr>"
  have "json_text (uuid_String e (msg_ID m))" "json_text (Method m)" using assms(3,4) by (simp_all add: uuid_ok_def clean_message_def)
  then obtain data where data: "m_req e ?req = Some data" "u_req e data = Some ?req"
    using assms(2) d(1) unfolding frame_codec_ok_def by blast
  show thesis
    by (rule that [of data ?req]) (use data d assms(5) in \<open>simp_all add: message_frame_def NewRPCRequest_def marshal_field_def
      Encode_def DecodeRequest_def ParseParams_def\<close>)
qed

lemma own_keysE:
  assumes "own_keys e ident"
  obtains s r where "length s = 32" "length r = 32" "PrivateKey (Signing (id_Keys ident)) = ed_NewKeyFromSeed e s"
    "PublicKey (Signing (id_Keys ident)) = ed_Public e (ed_NewKeyFromSeed e s)" "PrivateKey (Encryption (id_Keys ident)) = r"
    "GenerateEncryptionKeyPair e (Some r) = Inr (Encryption (id_Keys ident))"
    "X25519 e r (Basepoint e) = Some (PublicKey (Encryption (id_Keys ident)))"
proof -
  obtain s r where g: "length s = 32" "length r = 32" "GenerateAgentKeys e (Some s) (Some r) = Inr (id_Keys ident)"
    using assms by (auto simp: own_keys_def)
  obtain p where p: "X25519 e r (Basepoint e) = Some p"
    using g(3) by (cases "X25519 e r (Basepoint e)") (simp_all add: GenerateAgentKeys_def GenerateSigningKeyPair_def
        GenerateEncryptionKeyPair_def Let_def)
  have "id_Keys ident = \<lparr>Signing = \<lparr>PublicKey = ed_Public e (ed_NewKeyFromSeed e s), PrivateKey = ed_NewKeyFromSeed e s\<rparr>,
      Encryption = \<lparr>PublicKey = p, PrivateKey = r\<rparr>\<rparr>"
    using g(3) p by (simp add: GenerateAgentKeys_def GenerateSigningKeyPair_def GenerateEncryptionKeyPair_def Let_def)
  then show thesis using that [OF g(1,2)] p by (simp add: GenerateEncryptionKeyPair_def)
qed

text \<open>A signature made by \<open>sign_message\<close> verifies, with or without a delegation envelope added later.\<close>

lemma signature_verifies:
  assumes "ed25519_ok e" and "sign_ok e" and "own_keys e ident" and "GetSigningKey r = Some ks"
    and "pk_Key ks = Some (PublicKey (Signing (id_Keys ident)))" and "m_msg e m = Some d" and "signed_part m = m"
    and "Signature m' = Signature (sign_message e ident m)" and "signed_part m' = m"
  shows "check_signature e r m' = None" and "slice_bytes (Signature m') \<noteq> []"
proof -
  obtain s where s: "length s = 32" "PrivateKey (Signing (id_Keys ident)) = ed_NewKeyFromSeed e s"
    "PublicKey (Signing (id_Keys ident)) = ed_Public e (ed_NewKeyFromSeed e s)"
    using own_keysE [OF assms(3)] by metis
  have key: "length (ed_NewKeyFromSeed e s) = 64" "drop 32 (ed_NewKeyFromSeed e s) = ed_Public e (ed_NewKeyFromSeed e s)"
    "ed_Verify e (ed_Public e (ed_NewKeyFromSeed e s)) d (ed_Sign e (ed_NewKeyFromSeed e s) d)"
    using assms(1) s(1) by (auto simp: ed25519_ok_def)
  then have "length (ed_Public e (ed_NewKeyFromSeed e s)) = 32" by (metis length_drop diff_numeral_special add_diff_cancel_left' numeral_Bit0)
  moreover have sig: "Signature m' = Some (ed_Sign e (ed_NewKeyFromSeed e s) d)"
    using assms(6,8) s(2) by (simp add: sign_message_def identity_Sign_def Sign_def slice_bytes_def)
  ultimately show "check_signature e r m' = None"
    using assms(4-6,9) s key by (simp add: check_signature_def crypto_VerifySignature_def key_sizes slice_bytes_def)
  show "slice_bytes (Signature m') \<noteq> []" using assms(2) key(1) sig by (simp add: sign_ok_def slice_bytes_def)
qed

lemma body_opens:
  assumes "x25519_ok e" and "box_ok e" and "own_keys e ia" and "own_keys e ib" and "length n = 24"
  obtains c where "Encrypt e (Some n) m (PrivateKey (Encryption (id_Keys ia))) (PublicKey (Encryption (id_Keys ib))) = Inr c"
    "length c = length m + 40" "Decrypt e c (PrivateKey (Encryption (id_Keys ib))) (PublicKey (Encryption (id_Keys ia))) = Inr m"
proof -
  obtain ra where a: "length ra = 32" "PrivateKey (Encryption (id_Keys ia)) = ra" "X25519 e ra (Basepoint e) = Some (PublicKey (Encryption (id_Keys ia)))"
    using own_keysE [OF assms(3)] by metis
  obtain rb where b: "length rb = 32" "PrivateKey (Encryption (id_Keys ib)) = rb" "X25519 e rb (Basepoint e) = Some (PublicKey (Encryption (id_Keys ib)))"
    using own_keysE [OF assms(4)] by metis
  have "length (PublicKey (Encryption (id_Keys ia))) = 32" "length (PublicKey (Encryption (id_Keys ib))) = 32"
    using x25519_length [OF assms(1) a(3)] x25519_length [OF assms(1) b(3)] by simp_all
  then show thesis
    using that box_opens(1) [OF assms(2) a(3) b(3) assms(5)] box_opens(2) [OF assms(2)] a b assms(5)
    by (simp add: Encrypt_def Decrypt_def key_sizes)
qed

definition relay_connected :: "agent_rt \<Rightarrow> bool" where
  "relay_connected a \<longleftrightarrow> relayAddr a \<noteq> [] \<and> map_of (peers a) (relayAddr a) \<noteq> None"

lemma sendMessage_sends:
  assumes "message_frame e m = Inr data" and "index_total (rt_store a)" and "relay_connected a" and "\<And>t d. in_send i t d"
  obtains t where "sendMessage e i m a = (None, a\<lparr>sent := sent a @ [(t, data)]\<rparr>)"
proof -
  have "\<exists>x. findTransportForRecipient i (To m) a = Inr (Some x)"
    using assms(3) index_total_found [OF assms(2), of "To m"]
    by (auto simp: findTransportForRecipient_def relay_connected_def Let_def split: sum.split option.split)
  then obtain t r where "findTransportForRecipient i (To m) a = Inr (Some (t, r))" by auto
  then show thesis using that [of t] assms(1,4) by (simp add: sendMessage_def transport_Send_def)
qed

text \<open>The request \<open>Send\<close> puts on the wire, before it is signed.\<close>

definition sealed_request :: "inputs \<Rightarrow> did \<Rightarrow> did \<Rightarrow> string \<Rightarrow> bytes \<Rightarrow> Message" where
  "sealed_request i d to m c = (NewMessage (in_msg_id i) (in_now i) d to TypeRequest m)\<lparr>Body := Some c, Encrypted := True\<rparr>"

lemma Send_begin_sends:
  assumes wf: "agent_wf a" and relay: "relay_connected a" and send: "\<And>t d. in_send i t d"
    and knows: "knows (rt_store a) ident" and p: "m_any e p = Some body" "body \<noteq> []"
    and enc: "in_nonce i = Some n" "Encrypt e (Some n) body (PrivateKey (Encryption (id_Keys (rt_identity a))))
      (PublicKey (Encryption (id_Keys ident))) = Inr c"
    and msg: "msg = sign_message e (rt_identity a) (sealed_request i (agent_DID a) (did_String (id_DID ident)) m c)"
    and frame: "message_frame e msg = Inr data"
  obtains t where "Send_begin e i (did_String (id_DID ident)) m (Some p) a = (Inr (msg, length (chans a)),
    a\<lparr>chans := chans a @ [[]], pending := mput (in_msg_id i) (length (chans a)) (pending a), sent := sent a @ [(t, data)]\<rparr>)"
proof -
  let ?msg0 = "(NewMessage (in_msg_id i) (in_now i) (agent_DID a) (did_String (id_DID ident)) TypeRequest m)\<lparr>Body := Some body\<rparr>"
  let ?a1 = "a\<lparr>chans := chans a @ [[]], pending := mput (in_msg_id i) (length (chans a)) (pending a)\<rparr>"
  obtain r ke where r: "GetByDID (did_String (id_DID ident)) (rt_store a) = Inr (Some r)" "GetEncryptionKey r = Some ke"
      "pk_Key ke = Some (PublicKey (Encryption (id_Keys ident)))"
    using knowsE [OF knows] by metis
  have new: "NewRequest (m_any e) (in_msg_id i) (in_now i) (agent_DID a) (did_String (id_DID ident)) m (Some p) = Inr ?msg0"
    using p by (simp add: NewRequest_def with_body_def)
  have seal: "encryptMessageBody e i a ?msg0 = Inr (sealed_request i (agent_DID a) (did_String (id_DID ident)) m c)"
    using p r enc by (simp add: encryptMessageBody_def slice_bytes_def sealed_request_def NewMessage_def)
  have ids: "msg_ID msg = in_msg_id i" by (simp add: msg sign_message_def sealed_request_def NewMessage_def)
  have ix: "index_total (rt_store ?a1)" and rc: "relay_connected ?a1" using wf relay by (simp_all add: agent_wf_def relay_connected_def)
  obtain t where "sendMessage e i msg ?a1 = (None, ?a1\<lparr>sent := sent ?a1 @ [(t, data)]\<rparr>)"
    using sendMessage_sends [OF frame ix rc send] by metis
  then show thesis
    using that [of t] new seal ids
    by (simp add: Send_begin_def encrypt_and_sign_def msg [symmetric] sendAndWait_begin_def Let_def)
qed

lemma request_handled:
  assumes wf: "agent_wf b" and relay: "relay_connected b" "from_relay t b" and send: "\<And>t d. in_send j t d"
    and dec: "DecodeRequest (u_req e) data = Inr req" "rq_ID req \<noteq> JNull" "ParseParams (u_msg e) zero_Message req = Some msg"
    and fresh: "uuid_String e (msg_ID msg) \<noteq> []" "map_of (seenMsgs b) (uuid_String e (msg_ID msg)) = None"
    and kind: "MsgType msg = TypeRequest"
    and sender: "GetByDID (From msg) (rt_store b) = Inr (Some r)" "slice_bytes (Signature msg) \<noteq> []" "check_signature e r msg = None"
    and op: "Encrypted msg" "slice_bytes (Body msg) \<noteq> []" "GetEncryptionKey r = Some ke"
      "Decrypt e (slice_bytes (Body msg)) (PrivateKey (Encryption (id_Keys (rt_identity b)))) (slice_bytes (pk_Key ke)) = Inr body"
    and acl: "CheckAccess (rt_record b) (From msg) (Method msg) = None"
    and h: "map_of (rt_handlers b) (Method msg) = Some h"
      "h [(ctxKeyMethod, Method msg), (ctxKeyFrom, From msg)] (Some body) = Inr (Some res)" "m_any e res = Some rb"
    and resp: "resp = sign_message e (rt_identity b) ((NewMessage (in_msg_id j) (in_now j) (To msg) (From msg) TypeResponse (Method msg))
      \<lparr>CorrelationID := Some (msg_ID msg), Body := Some rb\<rparr>)" "message_frame e resp = Inr rdata"
  obtains t' where "handleIncoming e j t data b = Some (b\<lparr>seenMsgs := mput (uuid_String e (msg_ID msg)) (in_now j) (seenMsgs b),
    calls := calls b @ [RequestCall (in_now j) (msg\<lparr>Body := Some body, Encrypted := False\<rparr>) (Method msg)], sent := sent b @ [(t', rdata)]\<rparr>)"
proof -
  let ?msg = "msg\<lparr>Body := Some body, Encrypted := False\<rparr>"
  let ?b1 = "b\<lparr>seenMsgs := mput (uuid_String e (msg_ID msg)) (in_now j) (seenMsgs b)\<rparr>"
  let ?b2 = "?b1\<lparr>calls := calls b @ [RequestCall (in_now j) ?msg (Method msg)]\<rparr>"
  have known: "GetByDID (From msg) (rt_store ?b1) = Inr (Some r)" using sender(1) by simp
  have ver: "verifyMessageSignature e j msg ?b1 = (None, ?b1)"
    using sender(2,3) find_sender_known [OF known, of e j] by (simp add: verifyMessageSignature_def)
  have dcr: "decryptMessageBody e j msg ?b1 = (Inr ?msg, ?b1)"
    using op find_sender_known [OF known, of e j] by (simp add: decryptMessageBody_def)
  have ix: "index_total (rt_store ?b2)" and rc: "relay_connected ?b2" "from_relay t ?b2"
    using wf relay by (simp_all add: agent_wf_def relay_connected_def from_relay_def)
  obtain t' where s: "sendMessage e j resp ?b2 = (None, ?b2\<lparr>sent := sent ?b2 @ [(t', rdata)]\<rparr>)"
    using sendMessage_sends [OF resp(2) ix rc(1) send] by metis
  have "send_result e j t req ?msg (Some res) ?b2 = Some (?b2\<lparr>sent := sent ?b2 @ [(t', rdata)]\<rparr>)"
    using rc(2) h(3) s resp(1) by (simp add: send_result_def NewResponse_def with_body_def best_effort_def)
  then have "run_handler e j t req ?msg ?b1 = Some (?b2\<lparr>sent := sent ?b2 @ [(t', rdata)]\<rparr>)"
    using h(1,2) by (simp add: run_handler_def find_handler_def Let_def)
  then have "handleRequest e j t req b = Some (?b2\<lparr>sent := sent ?b2 @ [(t', rdata)]\<rparr>)"
    using dec(3) fresh kind ver dcr acl
    by (simp add: handleRequest_def isDuplicateMessage_def IsResponse_def IsError_def authorize_request_def)
  then show thesis using that [of t'] dec(1,2) by (simp add: handleIncoming_def)
qed

lemma response_delivered:
  assumes "DecodeRequest (u_req e) data = Inr req" and "rq_ID req \<noteq> JNull" and "ParseParams (u_msg e) zero_Message req = Some resp"
    and "map_of (seenMsgs a) (uuid_String e (msg_ID resp)) = None" and "MsgType resp = TypeResponse"
    and "CorrelationID resp = Some mid" and "map_of (pending a) mid = Some ch" and "ch < length (chans a)" and "chans a ! ch = []"
  obtains a' a'' where "handleIncoming e k t data a = Some a'" "sendAndWait_end choice False mid ch a' = Some (Inr resp, a'')"
    "map_of (pending a'') mid = None"
proof -
  obtain a1 where a1: "isDuplicateMessage (in_now k) (uuid_String e (msg_ID resp)) a = (False, a1)"
      "pending a1 = pending a" "chans a1 = chans a"
    using assms(4) by (cases "uuid_String e (msg_ID resp) = []") (simp_all add: isDuplicateMessage_def)
  let ?a' = "a1\<lparr>chans := (chans a)[ch := [Some resp]]\<rparr>"
  have "handleMessageResponse resp a1 = ?a'"
    using assms(6-9) a1 by (simp add: handleMessageResponse_def try_send_def)
  then have "handleIncoming e k t data a = Some ?a'"
    using assms(1-3,5) a1(1) by (simp add: handleIncoming_def handleRequest_def IsResponse_def)
  then show thesis
    using that [of ?a' "?a'\<lparr>pending := mdel mid (pending ?a'), chans := (chans ?a')[ch := []]\<rparr>"] assms(8)
    by (simp add: sendAndWait_end_def select_recv_def Let_def gomap)
qed

lemma clean_signed:
  assumes "sign_ok e" and "own_keys e ident" and "ed25519_ok e" and "clean_message m"
  shows "clean_message (sign_message e ident m)"
proof -
  obtain s where "length s = 32" "PrivateKey (Signing (id_Keys ident)) = ed_NewKeyFromSeed e s" using own_keysE [OF assms(2)] by metis
  then have "length (PrivateKey (Signing (id_Keys ident))) = 64" using assms(3) by (simp add: ed25519_ok_def)
  then show ?thesis using assms(1,4) by (simp add: clean_message_def sign_message_def identity_Sign_def Sign_def sign_ok_def)
qed

lemma json_text_types [simp]: "json_text TypeRequest" "json_text TypeResponse" "json_text []"
  by (simp_all add: json_text_def)

text \<open>A signed message of an agent: its frame decodes to it, and whoever knows the agent accepts it.\<close>

lemma signed_frame:
  assumes "ed25519_ok e" "sign_ok e" and codec: "message_codec_ok e" "frame_codec_ok e" "uuid_ok e"
    and "own_keys e ident" and clean: "clean_message m" and "Method m \<noteq> []"
  obtains data req where "message_frame e (sign_message e ident m) = Inr data" "DecodeRequest (u_req e) data = Inr req" "rq_ID req \<noteq> JNull"
    "ParseParams (u_msg e) zero_Message req = Some (sign_message e ident m)"
proof -
  have "clean_message (sign_message e ident m)" "Method (sign_message e ident m) \<noteq> []"
    using clean_signed [OF assms(2,6,1) clean] assms(8) by (simp_all add: sign_message_def)
  then show thesis using that message_frame_decodes [OF codec] by metis
qed

lemma signed_accepted:
  assumes "ed25519_ok e" "sign_ok e" "message_codec_ok e" "own_keys e ident" and clean: "clean_message m" and plain: "signed_part m = m"
    and knows: "knows st ident" and sender: "From m = did_String (id_DID ident)"
  obtains r ke where "GetByDID (From m) st = Inr (Some r)" "check_signature e r (sign_message e ident m) = None"
    "slice_bytes (Signature (sign_message e ident m)) \<noteq> []" "GetEncryptionKey r = Some ke"
    "pk_Key ke = Some (PublicKey (Encryption (id_Keys ident)))"
proof -
  obtain r ks ke where r: "GetByDID (From m) st = Inr (Some r)" "GetSigningKey r = Some ks"
      "pk_Key ks = Some (PublicKey (Signing (id_Keys ident)))" "GetEncryptionKey r = Some ke"
      "pk_Key ke = Some (PublicKey (Encryption (id_Keys ident)))"
    using knowsE [OF knows] sender by metis
  obtain d where d: "m_msg e m = Some d" using assms(3) clean by (auto simp: message_codec_ok_def)
  have "signed_part (sign_message e ident m) = m" using plain by (simp add: sign_message_def signed_part_def)
  then show thesis
    using that [OF r(1) _ _ r(4,5)] signature_verifies [OF assms(1,2,4) r(2,3) d plain, of "sign_message e ident m"] by simp
qed

lemma sealed_request_fields:
  "msg_ID (sealed_request i d to m c) = in_msg_id i" "From (sealed_request i d to m c) = d" "Method (sealed_request i d to m c) = m"
  "signed_part (sealed_request i d to m c) = sealed_request i d to m c"
  "Body (sealed_request i d to m c) = Some c" "Encrypted (sealed_request i d to m c)"
  "clean_message (sealed_request i d to m c) \<longleftrightarrow> json_text d \<and> json_text to \<and> json_text m \<and> 0 \<le> in_now i \<and> in_now i < 2 ^ 63"
  by (auto simp: sealed_request_def NewMessage_def signed_part_def clean_message_def)

definition plain_response :: "inputs \<Rightarrow> did \<Rightarrow> did \<Rightarrow> string \<Rightarrow> uuid \<Rightarrow> bytes \<Rightarrow> Message" where
  "plain_response j d to m cid b = (NewMessage (in_msg_id j) (in_now j) d to TypeResponse m)\<lparr>CorrelationID := Some cid, Body := Some b\<rparr>"

lemma plain_response_fields:
  "Method (plain_response j d to m cid b) = m" "From (plain_response j d to m cid b) = d"
  "CorrelationID (plain_response j d to m cid b) = Some cid" "Body (plain_response j d to m cid b) = Some b"
  "\<not> Encrypted (plain_response j d to m cid b)"
  "clean_message (plain_response j d to m cid b) \<longleftrightarrow> json_text d \<and> json_text to \<and> json_text m \<and> 0 \<le> in_now j \<and> in_now j < 2 ^ 63"
  by (auto simp: plain_response_def NewMessage_def clean_message_def)

lemma sign_message_fields [simp]:
  "msg_ID (sign_message e ident m) = msg_ID m" "From (sign_message e ident m) = From m" "To (sign_message e ident m) = To m"
  "MsgType (sign_message e ident m) = MsgType m" "Method (sign_message e ident m) = Method m" "Body (sign_message e ident m) = Body m"
  "Encrypted (sign_message e ident m) = Encrypted m" "CorrelationID (sign_message e ident m) = CorrelationID m"
  by (simp_all add: sign_message_def)

text \<open>
  Property C7. A call between two agents goes all the way. Two agents with generated keys that know each
  other's keys and are connected to a relay that passes frames on: \<open>Send\<close> puts one signed frame
  on the wire with the body encrypted; the receiver checks and decrypts it and its handler gets
  exactly the marshalled parameters, once, from the DID of the sender, when the access policy
  permits it; its answer reaches the waiting call of the sender, which returns the marshalled
  result of the handler. The answer itself travels unencrypted.
\<close>

theorem agent_call_returns:
  assumes crypto: "ed25519_ok e" "x25519_ok e" "box_ok e" "sign_ok e"
    and codec: "message_codec_ok e" "frame_codec_ok e" "uuid_ok e"
    and agents: "agent_wf a" "agent_wf b" "own_keys e (rt_identity a)" "own_keys e (rt_identity b)"
      "knows (rt_store a) (rt_identity b)" "knows (rt_store b) (rt_identity a)"
    and net: "relay_connected a" "relay_connected b" "from_relay t b" "\<And>t d. in_send i t d" "\<And>t d. in_send j t d"
    and plain: "json_text (agent_DID a)" "json_text (agent_DID b)" "json_text m" "m \<noteq> []"
    and time: "0 \<le> in_now i" "in_now i < 2 ^ 63" "0 \<le> in_now j" "in_now j < 2 ^ 63"
    and call: "m_any e p = Some body" "body \<noteq> []" "in_nonce i = Some n" "length n = 24"
    and fresh: "map_of (seenMsgs b) (uuid_String e (in_msg_id i)) = None" "map_of (seenMsgs a) (uuid_String e (in_msg_id j)) = None"
    and acl: "CheckAccess (rt_record b) (agent_DID a) m = None"
    and h: "map_of (rt_handlers b) m = Some h" "h [(ctxKeyMethod, m), (ctxKeyFrom, agent_DID a)] (Some body) = Inr (Some res)"
      "m_any e res = Some rb"
  shows "\<exists>msg ch a1 t1 data b' t2 rdata a2 resp a3. Send_begin e i (agent_DID b) m (Some p) a = (Inr (msg, ch), a1)
    \<and> sent a1 = sent a @ [(t1, data)] \<and> Encrypted msg \<and> length (slice_bytes (Body msg)) = length body + 40
    \<and> handleIncoming e j t data b = Some b'
    \<and> calls b' = calls b @ [RequestCall (in_now j) (msg\<lparr>Body := Some body, Encrypted := False\<rparr>) m] \<and> From msg = agent_DID a
    \<and> sent b' = sent b @ [(t2, rdata)] \<and> handleIncoming e k t' rdata a1 = Some a2
    \<and> sendAndWait_end choice False (msg_ID msg) ch a2 = Some (Inr resp, a3)
    \<and> From resp = agent_DID b \<and> CorrelationID resp = Some (in_msg_id i) \<and> Body resp = Some rb \<and> \<not> Encrypted resp"
proof -
  obtain c where c: "Encrypt e (Some n) body (PrivateKey (Encryption (id_Keys (rt_identity a)))) (PublicKey (Encryption (id_Keys (rt_identity b)))) = Inr c"
      "length c = length body + 40"
      "Decrypt e c (PrivateKey (Encryption (id_Keys (rt_identity b)))) (PublicKey (Encryption (id_Keys (rt_identity a)))) = Inr body"
    using body_opens [OF crypto(2,3) agents(3,4) call(4)] by metis
  let ?sealed = "sealed_request i (agent_DID a) (agent_DID b) m c" and ?answer = "plain_response j (agent_DID b) (agent_DID a) m (in_msg_id i) rb"
  let ?msg = "sign_message e (rt_identity a) ?sealed" and ?resp = "sign_message e (rt_identity b) ?answer"
  have clean: "clean_message ?sealed" "clean_message ?answer" using plain time by (simp_all add: sealed_request_fields plain_response_fields)
  obtain data req where d: "message_frame e ?msg = Inr data" "DecodeRequest (u_req e) data = Inr req" "rq_ID req \<noteq> JNull"
      "ParseParams (u_msg e) zero_Message req = Some ?msg"
    using signed_frame [OF crypto(1,4) codec agents(3) clean(1)] plain(4) by (auto simp: sealed_request_fields)
  obtain rdata rreq where rd: "message_frame e ?resp = Inr rdata" "DecodeRequest (u_req e) rdata = Inr rreq" "rq_ID rreq \<noteq> JNull"
      "ParseParams (u_msg e) zero_Message rreq = Some ?resp"
    using signed_frame [OF crypto(1,4) codec agents(4) clean(2)] plain(4) by (auto simp: plain_response_fields)
  obtain t1 where s: "Send_begin e i (agent_DID b) m (Some p) a = (Inr (?msg, length (chans a)), a\<lparr>chans := chans a @ [[]],
      pending := mput (in_msg_id i) (length (chans a)) (pending a), sent := sent a @ [(t1, data)]\<rparr>)" (is "_ = (_, ?a1)")
    using Send_begin_sends [OF agents(1) net(1,4) agents(5) call(1,2,3) c(1) _ d(1) [unfolded agent_DID_def [of b]]] by (auto simp: agent_DID_def)
  obtain r ke where r: "GetByDID (From ?sealed) (rt_store b) = Inr (Some r)" "check_signature e r ?msg = None"
      "slice_bytes (Signature ?msg) \<noteq> []" "GetEncryptionKey r = Some ke" "pk_Key ke = Some (PublicKey (Encryption (id_Keys (rt_identity a))))"
    using signed_accepted [OF crypto(1,4) codec(1) agents(3) clean(1) sealed_request_fields(4) agents(6)]
    by (auto simp: sealed_request_fields(2) agent_DID_def)
  obtain t2 where hb: "handleIncoming e j t data b = Some (b\<lparr>seenMsgs := mput (uuid_String e (msg_ID ?msg)) (in_now j) (seenMsgs b),
      calls := calls b @ [RequestCall (in_now j) (?msg\<lparr>Body := Some body, Encrypted := False\<rparr>) (Method ?msg)], sent := sent b @ [(t2, rdata)]\<rparr>)"
    (is "_ = Some ?b")
    by (rule request_handled [where msg = ?msg and r = r and ke = ke and h = h and res = res and rb = rb and resp = ?resp,
          OF agents(2) net(2,3,5) d(2-4) _ _ _ _ r(3,2) _ _ r(4)])
      (use fresh(1) acl h c(2,3) r(1,5) rd(1) codec(3) in
        \<open>auto simp: slice_bytes_def uuid_ok_def sealed_request_def plain_response_def NewMessage_def\<close>)
  obtain a2 a3 where w: "handleIncoming e k t' rdata ?a1 = Some a2" "sendAndWait_end choice False (in_msg_id i) (length (chans a)) a2 = Some (Inr ?resp, a3)"
    by (rule response_delivered [where a = ?a1 and mid = "in_msg_id i" and ch = "length (chans a)", OF rd(2-4)])
      (use fresh(2) in \<open>simp_all add: gomap plain_response_def NewMessage_def\<close>)
  show ?thesis
    by (rule exI [of _ ?msg], rule exI [of _ "length (chans a)"], rule exI [of _ ?a1], rule exI [of _ t1], rule exI [of _ data],
        rule exI [of _ ?b], rule exI [of _ t2], rule exI [of _ rdata], rule exI [of _ a2], rule exI [of _ ?resp], rule exI [of _ a3])
      (use s hb w c(2) in \<open>simp add: sealed_request_fields plain_response_fields slice_bytes_def\<close>)
qed

section \<open>Where the checks do not reach\<close>

text \<open>An unencrypted request of a known sender, with a valid signature, runs its handler.\<close>

lemma known_request_runs:
  assumes wf: "agent_wf b" and known: "GetByDID (From msg) (rt_store b) = Inr (Some ag)" and key: "GetSigningKey ag = Some k"
    and dec: "DecodeRequest (u_req e) data = Inr req" "rq_ID req \<noteq> JNull" "ParseParams (u_msg e) zero_Message req = Some msg"
    and fresh: "map_of (seenMsgs b) (uuid_String e (msg_ID msg)) = None" "uuid_String e (msg_ID msg) \<noteq> []"
    and msg: "MsgType msg = TypeRequest" "\<not> Encrypted msg" "m_msg e (signed_part msg) = Some d" "slice_bytes (Signature msg) \<noteq> []"
      "crypto_VerifySignature e (pk_Key k) d (Signature msg)"
    and acl: "CheckAccess (rt_record b) (From msg) (Method msg) = None" and h: "map_of (rt_handlers b) (Method msg) \<noteq> None"
  obtains s where "handleIncoming e j t data b = Some ((logged (in_now j) msg (Method msg)
    (b\<lparr>seenMsgs := mput (uuid_String e (msg_ID msg)) (in_now j) (seenMsgs b)\<rparr>))\<lparr>sent := s\<rparr>)"
proof -
  let ?b1 = "b\<lparr>seenMsgs := mput (uuid_String e (msg_ID msg)) (in_now j) (seenMsgs b)\<rparr>"
  have known1: "GetByDID (From msg) (rt_store ?b1) = Inr (Some ag)" using known by simp
  have ver: "verifyMessageSignature e j msg ?b1 = (None, ?b1)"
    using msg key find_sender_known [OF known1, of e j] by (simp add: verifyMessageSignature_def check_signature_def)
  have "index_total (rt_store ?b1)" using wf by (simp add: agent_wf_def)
  then obtain s where run: "run_handler e j t req msg ?b1 = Some ((logged (in_now j) msg (Method msg) ?b1)\<lparr>sent := s\<rparr>)"
    using run_handler_effect [of ?b1 msg e j t req] h by (auto simp: find_handler_def)
  have "handleIncoming e j t data b = Some ((logged (in_now j) msg (Method msg) ?b1)\<lparr>sent := s\<rparr>)"
    using dec fresh msg(1,2) ver run acl
    by (simp add: handleIncoming_def handleRequest_def isDuplicateMessage_def IsResponse_def IsError_def authorize_request_def
        decryptMessageBody_def)
  then show thesis by (rule that)
qed

text \<open>
  Property C31. A key announced by anyone is believed. The agent stores the record of a \<open>discovery.announce\<close>
  frame without asking who sent it, also when it replaces the keys of a known peer. After one
  such frame for the DID of a victim, an unencrypted request in the name of the victim that is signed
  with the announced key passes the signature check and, if the policy permits the victim to call the method,
  runs the handler.
\<close>

theorem announced_key_accepted:
  assumes wf: "agent_wf b"
    and ann: "DecodeRequest (u_req e) data1 = Inr req1" "rq_ID req1 = JNull" "rq_Method req1 = ''discovery.announce''"
      "u_announce e (slice_bytes (rq_Params req1)) = Some dm" "dm_Agent dm = Some ag" "DID ag \<noteq> agent_DID b" "DID ag \<noteq> []"
      "GetSigningKey ag = Some k"
    and dec: "DecodeRequest (u_req e) data2 = Inr req2" "rq_ID req2 \<noteq> JNull" "ParseParams (u_msg e) zero_Message req2 = Some msg"
    and fresh: "map_of (seenMsgs b) (uuid_String e (msg_ID msg)) = None" "uuid_String e (msg_ID msg) \<noteq> []"
    and msg: "MsgType msg = TypeRequest" "From msg = DID ag" "\<not> Encrypted msg" "m_msg e (signed_part msg) = Some d"
      "slice_bytes (Signature msg) \<noteq> []" "crypto_VerifySignature e (pk_Key k) d (Signature msg)"
    and acl: "CheckAccess (rt_record b) (DID ag) (Method msg) = None" and h: "map_of (rt_handlers b) (Method msg) \<noteq> None"
  shows "\<exists>b1 b2. handleIncoming e i t data1 b = Some b1 \<and> GetByDID (DID ag) (rt_store b1) = Inr (Some ag)
    \<and> handleIncoming e j t data2 b1 = Some b2 \<and> calls b2 = calls b @ [RequestCall (in_now j) msg (Method msg)]"
proof -
  let ?b1 = "b\<lparr>rt_store := Put ag (rt_store b)\<rparr>"
  have first: "handleIncoming e i t data1 b = Some ?b1"
    using ann by (simp add: handleIncoming_def handleNotification_def)
  have stored: "GetByDID (DID ag) (rt_store ?b1) = Inr (Some ag)" using ann(7) by (simp add: GetByDID_def Put_lookup)
  have wf1: "agent_wf ?b1" using wf index_total_Put by (simp add: agent_wf_def)
  have "GetByDID (From msg) (rt_store ?b1) = Inr (Some ag)" using stored msg(2) by simp
  then obtain s where "handleIncoming e j t data2 ?b1 = Some ((logged (in_now j) msg (Method msg)
      (?b1\<lparr>seenMsgs := mput (uuid_String e (msg_ID msg)) (in_now j) (seenMsgs ?b1)\<rparr>))\<lparr>sent := s\<rparr>)"
    by (rule known_request_runs [OF wf1 _ ann(8) dec _ _ msg(1,3-6)]) (use fresh acl h msg(2) in simp_all)
  then show ?thesis using first stored by (simp add: logged_def)
qed

text \<open>
  Property C32. A notification skips every check. One and the same message without a signature, from a sender whom the policy
  denies, is refused when its frame has an ID and leaves no call behind; when the frame has no
  ID, the handler for its method runs on the body as it came.
\<close>

theorem notification_bypasses_checks:
  assumes wf: "agent_wf b" and unsigned: "slice_bytes (Signature msg) = []" and kind: "MsgType msg = TypeRequest"
    and req: "DecodeRequest (u_req e) data = Inr req" "rq_ID req \<noteq> JNull" "ParseParams (u_msg e) zero_Message req = Some msg"
    and ntf: "DecodeRequest (u_req e) data' = Inr req'" "rq_ID req' = JNull" "ParseParams (u_msg e) zero_Message req' = Some msg"
      "rq_Method req' \<notin> {''relay.ack'', ''relay.presence'', ''relay.typing'', ''discovery.announce''}"
    and h: "map_option fst (find_handler (Method msg) b) = Some key"
  shows "(\<exists>b1. handleIncoming e i t data b = Some b1 \<and> calls b1 = calls b)
    \<and> (\<exists>b2. handleIncoming e i t data' b = Some b2 \<and> calls b2 = calls b @ [NotificationCall key (Body msg)])"
proof -
  obtain dup b1 where d: "isDuplicateMessage (in_now i) (uuid_String e (msg_ID msg)) b = (dup, b1)" by fastforce
  note kept = isDuplicateMessage_fields [OF d]
  have "index_total (rt_store b1)" using wf kept by (simp add: agent_wf_def)
  then obtain s where "sendErrorToSender e i t req msg CodeSignatureInvalid ''signature verification failed'' b1 = Some (b1\<lparr>sent := s\<rparr>)"
    using sendErrorToSender_effect by blast
  then have "\<exists>b1. handleIncoming e i t data b = Some b1 \<and> calls b1 = calls b"
    using req d kept(1) unsigned kind
    by (cases dup) (simp_all add: handleIncoming_def handleRequest_def IsResponse_def IsError_def authorize_request_def verifyMessageSignature_def)
  moreover have "\<exists>b2. handleIncoming e i t data' b = Some b2 \<and> calls b2 = calls b @ [NotificationCall key (Body msg)]"
    using ntf h by (auto simp: handleIncoming_def handleNotification_def)
  ultimately show ?thesis ..
qed

text \<open>
  What the JSON package does with a text where a message is expected, and with a response where
  a request is expected: the decoding of a string into a structure fails and leaves it zero, and
  a response has no method.
\<close>

definition response_codec_ok :: "'a agent_env_scheme \<Rightarrow> bool" where
  "response_codec_ok e \<longleftrightarrow> (\<forall>s. \<exists>d. m_any e (JStr s) = Some d \<and> u_left e d = zero_Message
     \<and> (\<forall>cid resp. resp = \<lparr>rs_JSONRPC = ''2.0'', rs_ID = JStr cid, rs_Result = Some d, rs_Error = None\<rparr> \<longrightarrow> json_text cid \<longrightarrow>
          (\<exists>data. m_resp e resp = Some data \<and> u_resp e data = Some resp \<and> (\<forall>req. u_req e data = Some req \<longrightarrow> rq_Method req = []))))"

lemma agentHandleResponse_result:
  assumes "rs_ID resp = JStr idStr" and "rs_Error resp = None" and "rs_Result resp = Some d" and "uuid_Parse e idStr = Some mid"
    and "map_of (pendingRPC a) idStr = None" and "map_of (pending a) mid = Some ch" and "chans a ! ch = []"
  shows "agentHandleResponse e resp a = a\<lparr>chans := (chans a)[ch := [Some (u_left e d)]]\<rparr>"
  using assms by (simp add: agentHandleResponse_def try_send_def)

lemma response_codecE:
  assumes "response_codec_ok e" and "json_text cid"
  obtains d data where "m_any e (JStr s) = Some d" "u_left e d = zero_Message"
    "m_resp e \<lparr>rs_JSONRPC = ''2.0'', rs_ID = JStr cid, rs_Result = Some d, rs_Error = None\<rparr> = Some data"
    "u_resp e data = Some \<lparr>rs_JSONRPC = ''2.0'', rs_ID = JStr cid, rs_Result = Some d, rs_Error = None\<rparr>"
    "\<And>req. u_req e data = Some req \<Longrightarrow> rq_Method req = []"
proof -
  obtain d where d: "m_any e (JStr s) = Some d" "u_left e d = zero_Message"
      "\<forall>cid resp. resp = \<lparr>rs_JSONRPC = ''2.0'', rs_ID = JStr cid, rs_Result = Some d, rs_Error = None\<rparr> \<longrightarrow> json_text cid \<longrightarrow>
          (\<exists>data. m_resp e resp = Some data \<and> u_resp e data = Some resp \<and> (\<forall>req. u_req e data = Some req \<longrightarrow> rq_Method req = []))"
    using assms(1) [unfolded response_codec_ok_def, rule_format, of s] by (elim exE conjE)
  show thesis
    using d(3) [rule_format, OF refl assms(2)] that [OF d(1,2)] by (elim exE conjE) metis
qed

text \<open>
  Property C33. On a direct connection the result of a call is lost. The receiver answers a direct peer with the
  handler's result itself, while the waiting call reads the result as a message: a handler
  that answers with a text makes \<open>Send\<close> return the zero message, whatever the text, and no error.
\<close>

theorem direct_result_lost:
  assumes codec: "response_codec_ok e" "uuid_ok e" and direct: "\<not> from_relay t b" and send: "\<And>t d. in_send j t d"
    and req: "rq_ID req = JStr (uuid_String e mid)" "uuid_Parse e (uuid_String e mid) = Some mid"
    and wait: "map_of (pending a) mid = Some ch" "ch < length (chans a)" "chans a ! ch = []"
      "map_of (pendingRPC a) (uuid_String e mid) = None"
  shows "\<exists>rdata a1 a2. send_result e j t req msg (Some (JStr s)) b = Some (b\<lparr>sent := sent b @ [(t, rdata)]\<rparr>)
    \<and> handleIncoming e k t' rdata a = Some a1 \<and> sendAndWait_end choice False mid ch a1 = Some (Inr zero_Message, a2)"
proof -
  have cid: "json_text (uuid_String e mid)" using codec(2) by (simp add: uuid_ok_def)
  let ?resp = "\<lambda>d. \<lparr>rs_JSONRPC = ''2.0'', rs_ID = JStr (uuid_String e mid), rs_Result = Some d, rs_Error = None\<rparr>"
  obtain d data where d: "m_any e (JStr s) = Some d" "u_left e d = zero_Message" "m_resp e (?resp d) = Some data"
      "u_resp e data = Some (?resp d)" "\<And>req. u_req e data = Some req \<Longrightarrow> rq_Method req = []"
    by (rule response_codecE [OF codec(1) cid, of s]) (rule that)
  have out: "send_result e j t req msg (Some (JStr s)) b = Some (b\<lparr>sent := sent b @ [(t, data)]\<rparr>)"
    using direct send req(1) d(1,3)
    by (simp add: send_result_def NewRPCResponse_def marshal_field_def Encode_def slice_bytes_def transport_Send_def)
  obtain er where no: "DecodeRequest (u_req e) data = Inl er"
    using d(5) by (cases "u_req e data"; cases "rq_JSONRPC (the (u_req e data)) = ''2.0''") (simp_all add: DecodeRequest_def)
  have yes: "DecodeResponse (u_resp e) data = Inr (?resp d)" using d(4) by (simp add: DecodeResponse_def)
  have "agentHandleResponse e (?resp d) a = a\<lparr>chans := (chans a)[ch := [Some zero_Message]]\<rparr>"
    using agentHandleResponse_result [of "?resp d" "uuid_String e mid" d e mid a ch] d(2) req(2) wait by simp
  then have inc: "handleIncoming e k t' data a = Some (a\<lparr>chans := (chans a)[ch := [Some zero_Message]]\<rparr>)" (is "_ = Some ?a1")
    using no yes by (simp add: handleIncoming_def)
  have "\<exists>a2. sendAndWait_end choice False mid ch ?a1 = Some (Inr zero_Message, a2)"
    using wait(2) by (simp add: sendAndWait_end_def select_recv_def Let_def)
  then show ?thesis using out inc by blast
qed

section \<open>Properties of every history\<close>

text \<open>
  Property C16. An agent never gets stuck and never dies. In every state an agent reaches from \<open>New\<close>,
  whatever its owner calls, whatever frames arrive and whatever the relay answers, the state
  is well formed (each waiter's channel exists and holds at most one value, no key of a map is
  doubled, each DID of the registry leads to an agent), and each operation ends in a
  well-formed state instead of a nil dereference.
\<close>

theorem agent_type_safe:
  assumes "New e i0 r1 r2 cfg = Inr a0" and "agent_reach e a0 t a"
  shows "agent_wf a \<and> (\<exists>a'. agent_exec e i op a = Some a' \<and> agent_wf a')"
  using agent_reach_wf [OF assms(2) New_wf [OF assms(1)]] agent_exec_wf by blast

text \<open>
  Property C8. A request runs its handler at most once per lifetime of the duplicate cache. In every
  history of an agent, with any interleaving of frames, cleanup ticks, restarts and other
  operations, two calls of a method handler for requests with the same message ID are more
  than the configured \<open>dedupTTL\<close> apart.
\<close>

theorem handler_once_per_ttl:
  assumes "New e i0 r1 r2 cfg = Inr a0" and "\<And>u. uuid_String e u \<noteq> []" and "agent_reach e a0 t a"
    and "request_log (calls a) = xs @ (s, m) # ys @ (s', m) # zs"
  shows "s' - s > dedupTTL a"
proof -
  have "calls a0 = []" using assms(1) by (auto simp: New_def split: sum.splits option.splits)
  then have "sorted_wrt (far_apart (dedupTTL a)) (request_log (calls a))"
    using agent_reach_dedup [OF assms(3) New_wf [OF assms(1)] _ assms(2)] by (simp add: dedup_inv_def)
  then show ?thesis unfolding assms(4) by (simp add: sorted_wrt_append far_apart_def)
qed

text \<open>
  Property C6. No request handler runs without authorization. In every history of an agent, an operation
  that makes it run a method handler for a request is the arrival of a frame whose message is
  not a duplicate, is signed by the key the agent's registry holds for the sender it names,
  comes from a sender the access policy permits to call that method, and is handed to the
  handler registered for the method (or for every method) with its body as sent, or, when it
  is marked encrypted, as decrypted with the sender's registered key.
\<close>

theorem handler_needs_authorization:
  assumes "New e i0 r1 r2 cfg = Inr a0" and "agent_reach e a0 t0 a"
    and "agent_exec e i op a = Some a'" and "calls a' = calls a @ [RequestCall now msg' key]"
  shows "\<exists>t data req msg s k bytes. op = OpIncoming t data \<and> DecodeRequest (u_req e) data = Inr req
    \<and> ParseParams (u_msg e) zero_Message req = Some msg \<and> \<not> fst (isDuplicateMessage (in_now i) (uuid_String e (msg_ID msg)) a)
    \<and> GetByDID (From msg) (rt_store a') = Inr (Some s) \<and> GetSigningKey s = Some k \<and> m_msg e (signed_part msg) = Some bytes
    \<and> crypto_VerifySignature e (pk_Key k) bytes (Signature msg) \<and> CheckAccess (rt_record a) (From msg) (Method msg) = None
    \<and> opened e (rt_identity a) s msg msg' \<and> map_option fst (find_handler (Method msg) a) = Some key"
proof -
  have wf: "agent_wf a" by (rule agent_reach_wf [OF assms(2) New_wf [OF assms(1)]])
  have "\<not> quiet a a'" "op \<noteq> OpTick" using assms(3,4) by (auto simp: quiet_def cleanupDedup_def)
  then obtain t data where op: "op = OpIncoming t data"
    using agent_exec_wf [OF wf, of e i op] assms(3) by (auto simp: is_frame_def)
  then have frame: "handleIncoming e i t data a = Some a'" using assms(3) by simp
  obtain req msg where req: "DecodeRequest (u_req e) data = Inr req" "ParseParams (u_msg e) zero_Message req = Some msg"
      "\<not> fst (isDuplicateMessage (in_now i) (uuid_String e (msg_ID msg)) a)" "authorized e a' msg msg' key"
      "rt_record a' = rt_record a" "rt_identity a' = rt_identity a" "rt_handlers a' = rt_handlers a"
    using frame_runs_handler [OF wf frame assms(4)] by blast
  obtain s where s: "GetByDID (From msg) (rt_store a') = Inr (Some s)" "check_signature e s msg = None"
      "opened e (rt_identity a) s msg msg'" "CheckAccess (rt_record a) (From msg) (Method msg) = None"
      "map_option fst (find_handler (Method msg) a) = Some key"
    using req(4) find_handler_cong [OF req(7)] unfolding authorized_def req(5,6) by auto
  obtain k bytes where "GetSigningKey s = Some k" "m_msg e (signed_part msg) = Some bytes"
      "crypto_VerifySignature e (pk_Key k) bytes (Signature msg)"
    using s(2) by (auto simp: check_signature_def split: option.splits if_splits)
  with op req(1-3) s show ?thesis by blast
qed

section \<open>A concrete wire format\<close>

text \<open>
  A length-prefixed format for the values of a frame, with a decoder that takes a value off the
  front of its input. It shows that the laws of the codec can hold.
\<close>

definition enc_nat :: "nat \<Rightarrow> bytes" where "enc_nat n = replicate n 1 @ [0]"

fun dec_nat :: "bytes \<Rightarrow> (nat \<times> bytes) option" where
  "dec_nat [] = None"
| "dec_nat (x # xs) = (if x = 0 then Some (0, xs) else map_option (\<lambda>(n, r). (Suc n, r)) (dec_nat xs))"

definition enc_bytes :: "bytes \<Rightarrow> bytes" where "enc_bytes b = enc_nat (length b) @ b"

definition dec_bytes :: "bytes \<Rightarrow> (bytes \<times> bytes) option" where
  "dec_bytes xs = do {(n, r) \<leftarrow> dec_nat xs; Some (take n r, drop n r)}"

definition enc_string :: "string \<Rightarrow> bytes" where "enc_string s = enc_bytes (string_bytes s)"

definition dec_string :: "bytes \<Rightarrow> (string \<times> bytes) option" where
  "dec_string xs = do {(b, r) \<leftarrow> dec_bytes xs; Some (map (\<lambda>w. char_of (unat w)) b, r)}"

definition enc_bool :: "bool \<Rightarrow> bytes" where "enc_bool b = [if b then 1 else 0]"

fun dec_bool :: "bytes \<Rightarrow> (bool \<times> bytes) option" where
  "dec_bool [] = None"
| "dec_bool (x # xs) = Some (x = 1, xs)"

fun enc_option :: "('v \<Rightarrow> bytes) \<Rightarrow> 'v option \<Rightarrow> bytes" where
  "enc_option f None = [0]"
| "enc_option f (Some v) = 1 # f v"

fun dec_option :: "(bytes \<Rightarrow> ('v \<times> bytes) option) \<Rightarrow> bytes \<Rightarrow> ('v option \<times> bytes) option" where
  "dec_option d [] = None"
| "dec_option d (x # xs) = (if x = 0 then Some (None, xs) else do {(v, r) \<leftarrow> d xs; Some (Some v, r)})"

definition enc_uuid :: "uuid \<Rightarrow> bytes" where "enc_uuid u = enc_nat (unat u)"

definition dec_uuid :: "bytes \<Rightarrow> (uuid \<times> bytes) option" where
  "dec_uuid xs = do {(n, r) \<leftarrow> dec_nat xs; Some (word_of_nat n, r)}"

definition enc_int :: "int \<Rightarrow> bytes" where "enc_int i = enc_bool (i < 0) @ enc_nat (nat \<bar>i\<bar>)"

definition dec_int :: "bytes \<Rightarrow> (int \<times> bytes) option" where
  "dec_int xs = do {(neg, r) \<leftarrow> dec_bool xs; (n, r) \<leftarrow> dec_nat r; Some (if neg then - int n else int n, r)}"

lemma dec_nat_enc [simp]: "dec_nat (enc_nat n @ r) = Some (n, r)"
  by (induction n) (simp_all add: enc_nat_def)

lemma dec_bytes_enc [simp]: "dec_bytes (enc_bytes b @ r) = Some (b, r)"
  by (simp add: dec_bytes_def enc_bytes_def)

lemma dec_bytes_all [simp]: "dec_bytes (enc_bytes b) = Some (b, [])"
  using dec_bytes_enc [of b "[]"] by simp

lemma char_of_byte: "char_of (unat (word_of_nat (of_char c) :: byte)) = c"
  by (simp add: unat_of_nat take_bit_eq_mod)

lemma dec_string_enc [simp]: "dec_string (enc_string s @ r) = Some (s, r)"
  by (simp add: dec_string_def enc_string_def string_bytes_def char_of_byte comp_def)

lemma dec_bool_enc [simp]: "dec_bool (enc_bool b @ r) = Some (b, r)"
  by (simp add: enc_bool_def)

lemma dec_option_enc: "(\<And>v r. d (f v @ r) = Some (v, r)) \<Longrightarrow> dec_option d (enc_option f ov @ r) = Some (ov, r)"
  by (cases ov) simp_all

lemma dec_uuid_enc [simp]: "dec_uuid (enc_uuid u @ r) = Some (u, r)"
  by (simp add: dec_uuid_def enc_uuid_def)

lemma dec_int_enc [simp]: "dec_int (enc_int i @ r) = Some (i, r)"
  by (simp add: dec_int_def enc_int_def)

lemmas dec_options [simp] = dec_option_enc [of dec_uuid enc_uuid, simplified] dec_option_enc [of dec_bytes enc_bytes, simplified]

definition enc_message :: "Message \<Rightarrow> bytes" where
  "enc_message m = enc_uuid (msg_ID m) @ enc_option enc_uuid (CorrelationID m) @ enc_string (From m) @ enc_string (To m)
     @ enc_string (MsgType m) @ enc_string (Method m) @ enc_option enc_bytes (Body m) @ enc_option enc_bytes (Signature m)
     @ enc_int (Timestamp m) @ enc_string (TraceID m) @ enc_bool (Encrypted m) @ enc_option enc_uuid (ThreadID m)
     @ enc_option enc_uuid (ParentID m) @ enc_int (ThreadSeqNo m) @ enc_bool (RequestAck m) @ enc_string (ActorDID m)
     @ enc_option enc_bytes (ActorProof m)"

definition dec_message :: "bytes \<Rightarrow> Message option" where
  "dec_message xs = do {
     (i, xs) \<leftarrow> dec_uuid xs; (cid, xs) \<leftarrow> dec_option dec_uuid xs; (fr, xs) \<leftarrow> dec_string xs; (to, xs) \<leftarrow> dec_string xs;
     (ty, xs) \<leftarrow> dec_string xs; (m, xs) \<leftarrow> dec_string xs; (b, xs) \<leftarrow> dec_option dec_bytes xs; (sg, xs) \<leftarrow> dec_option dec_bytes xs;
     (ts, xs) \<leftarrow> dec_int xs; (tr, xs) \<leftarrow> dec_string xs; (en, xs) \<leftarrow> dec_bool xs; (th, xs) \<leftarrow> dec_option dec_uuid xs;
     (pa, xs) \<leftarrow> dec_option dec_uuid xs; (sn, xs) \<leftarrow> dec_int xs; (ra, xs) \<leftarrow> dec_bool xs; (ad, xs) \<leftarrow> dec_string xs;
     (ap, xs) \<leftarrow> dec_option dec_bytes xs;
     Some \<lparr>msg_ID = i, CorrelationID = cid, From = fr, To = to, MsgType = ty, Method = m, Body = b, Signature = sg, Timestamp = ts,
       TraceID = tr, Encrypted = en, ThreadID = th, ParentID = pa, ThreadSeqNo = sn, RequestAck = ra, ActorDID = ad, ActorProof = ap\<rparr>}"

lemma dec_message_enc: "dec_message (enc_message m) = Some m"
  using dec_options(2) [of "ActorProof m" "[]"] by (cases m) (simp add: enc_message_def dec_message_def)

fun enc_request :: "JSONRPCRequest \<Rightarrow> bytes option" where
  "enc_request req =
     (case rq_ID req of
        JStr cid \<Rightarrow> Some (1 # enc_string (rq_JSONRPC req) @ enc_string cid @ enc_string (rq_Method req) @ enc_option enc_bytes (rq_Params req))
      | JNull \<Rightarrow> Some (2 # enc_string (rq_JSONRPC req) @ enc_string (rq_Method req) @ enc_option enc_bytes (rq_Params req))
      | _ \<Rightarrow> None)"

fun dec_request :: "bytes \<Rightarrow> JSONRPCRequest option" where
  "dec_request [] = None"
| "dec_request (x # xs) =
     (if x = 1 then
        do {(v, xs) \<leftarrow> dec_string xs; (cid, xs) \<leftarrow> dec_string xs; (m, xs) \<leftarrow> dec_string xs; (p, xs) \<leftarrow> dec_option dec_bytes xs;
            Some \<lparr>rq_JSONRPC = v, rq_ID = JStr cid, rq_Method = m, rq_Params = p\<rparr>}
      else if x = 2 then
        do {(v, xs) \<leftarrow> dec_string xs; (m, xs) \<leftarrow> dec_string xs; (p, xs) \<leftarrow> dec_option dec_bytes xs;
            Some \<lparr>rq_JSONRPC = v, rq_ID = JNull, rq_Method = m, rq_Params = p\<rparr>}
      else None)"

fun enc_response :: "JSONRPCResponse \<Rightarrow> bytes option" where
  "enc_response resp =
     (case (rs_ID resp, rs_Error resp) of
        (JStr cid, None) \<Rightarrow> Some (0 # enc_string (rs_JSONRPC resp) @ enc_string cid @ enc_option enc_bytes (rs_Result resp))
      | _ \<Rightarrow> None)"

fun dec_response :: "bytes \<Rightarrow> JSONRPCResponse option" where
  "dec_response [] = None"
| "dec_response (x # xs) =
     do {(v, xs) \<leftarrow> dec_string xs; (cid, xs) \<leftarrow> dec_string xs; (p, xs) \<leftarrow> dec_option dec_bytes xs;
         Some \<lparr>rs_JSONRPC = v, rs_ID = JStr cid, rs_Result = p, rs_Error = None\<rparr>}"

lemma dec_request_enc:
  "rq_ID req = JStr cid \<Longrightarrow> \<exists>d. enc_request req = Some d \<and> dec_request d = Some req"
  using dec_options(2) [of "rq_Params req" "[]"] by (cases req) simp

lemma dec_response_enc:
  "rs_ID resp = JStr cid \<Longrightarrow> rs_Error resp = None \<Longrightarrow> \<exists>d. enc_response resp = Some d \<and> dec_response d = Some resp \<and> dec_request d = None"
  using dec_options(2) [of "rs_Result resp" "[]"] by (cases resp) simp

text \<open>Announcements carry the sample peer; UUIDs are printed in unary.\<close>

definition key_agent :: "byte \<Rightarrow> did \<Rightarrow> Agent" where
  "key_agent w d = AddPublicKey ''encryption'' KeyTypeX25519 (Some (replicate 32 w)) ''encryption''
     (AddPublicKey ''signing'' KeyTypeEd25519 (Some (replicate 32 w)) ''signing'' (NewAgent (ucast w) 0 d ''peer''))"

definition wire_env :: agent_env where
  "wire_env = \<lparr>ed_NewKeyFromSeed = ed_NewKeyFromSeed sample_crypto, ed_Public = ed_Public sample_crypto, ed_Sign = ed_Sign sample_crypto,
     ed_Verify = ed_Verify sample_crypto, X25519 = X25519 sample_crypto, Basepoint = Basepoint sample_crypto,
     box_Seal = box_Seal sample_crypto, box_Open = box_Open sample_crypto, Sum512 = Sum512 sample_crypto,
     e_ParseDID = e_ParseDID sample_crypto, e_marshal = e_marshal sample_crypto, e_unmarshal = e_unmarshal sample_crypto,
     e_writable = e_writable sample_crypto,
     m_msg = Some \<circ> enc_message, u_msg = dec_message, u_left = (\<lambda>d. zero_Message), m_req = enc_request, u_req = dec_request,
     m_resp = enc_response, u_resp = dec_response, m_any = (\<lambda>v. case v of JStr s \<Rightarrow> Some (enc_string s) | _ \<Rightarrow> None),
     m_errbody = (\<lambda>b. Some (enc_int (eb_Code b))), m_rpcerror = (\<lambda>b. Some (enc_int (er_Code b))),
     m_typing = (\<lambda>b. Some (enc_bool (Typing b))), m_receipt = (\<lambda>b. Some (enc_string (ReceiptType b))),
     u_announce = (\<lambda>b. Some \<lparr>dm_Type = ''announce'', dm_AgentID = 0, dm_DID = ''did:wba:a'', dm_Capability = [],
       dm_Agent = Some (key_agent (if b = [] then 1 else hd b) ''did:wba:a''), dm_Timestamp = 0\<rparr>),
     u_peers = (\<lambda>b. Some []), u_ack = (\<lambda>b. None), uuid_String = (\<lambda>u. CHR ''u'' # replicate (unat u) CHR ''1''),
     uuid_Parse = (\<lambda>s. if s = [] then None else Some (word_of_nat (length s - 1))), decodeKey = (\<lambda>s. Some (string_bytes s))\<rparr>"

lemma wire_env_sel:
  "ed_NewKeyFromSeed wire_env = ed_NewKeyFromSeed sample_crypto" "ed_Public wire_env = ed_Public sample_crypto"
  "ed_Sign wire_env = ed_Sign sample_crypto" "ed_Verify wire_env = ed_Verify sample_crypto" "X25519 wire_env = X25519 sample_crypto"
  "Basepoint wire_env = Basepoint sample_crypto" "box_Seal wire_env = box_Seal sample_crypto" "box_Open wire_env = box_Open sample_crypto"
  by (simp_all add: wire_env_def)

lemma wire_env_crypto: "ed25519_ok wire_env" "x25519_ok wire_env" "box_ok wire_env" "sign_ok wire_env"
proof -
  show "ed25519_ok wire_env" "x25519_ok wire_env" "box_ok wire_env"
    using sample_crypto_ok(1-3) unfolding ed25519_ok_def x25519_ok_def box_ok_def wire_env_sel by blast+
  have "ed_Sign sample_crypto = (\<lambda>k d. k @ d)" by (simp add: sample_crypto_def)
  then show "sign_ok wire_env" unfolding sign_ok_def wire_env_sel by auto
qed

lemma json_text_unary: "json_text (CHR ''u'' # replicate n CHR ''1'')"
  by (simp add: json_text_def list_all_iff)

lemma wire_env_codec: "message_codec_ok wire_env" "frame_codec_ok wire_env" "uuid_ok wire_env" "response_codec_ok wire_env"
proof -
  show "message_codec_ok wire_env" by (simp add: message_codec_ok_def wire_env_def dec_message_enc)
  have sel: "m_req wire_env = enc_request" "u_req wire_env = dec_request" by (simp_all add: wire_env_def)
  show "frame_codec_ok wire_env" unfolding frame_codec_ok_def sel using dec_request_enc by simp
  show "uuid_ok wire_env" by (simp add: uuid_ok_def wire_env_def json_text_unary)
  have "\<exists>data. m_resp wire_env resp = Some data \<and> u_resp wire_env data = Some resp
      \<and> (\<forall>req. u_req wire_env data = Some req \<longrightarrow> rq_Method req = [])"
    if "resp = \<lparr>rs_JSONRPC = ''2.0'', rs_ID = JStr cid, rs_Result = Some d, rs_Error = None\<rparr>" for cid d resp
    using dec_response_enc [of resp cid] that by (auto simp: wire_env_def)
  then show "response_codec_ok wire_env" unfolding response_codec_ok_def by (simp add: wire_env_def)
qed

definition sample_identity :: "byte \<Rightarrow> did \<Rightarrow> Identity" where
  "sample_identity w d =
     (let keys = \<lparr>Signing = \<lparr>PublicKey = replicate 32 w, PrivateKey = replicate 64 w\<rparr>,
            Encryption = \<lparr>PublicKey = replicate 32 w, PrivateKey = replicate 32 w\<rparr>\<rparr>;
          did = \<lparr>did_Method = ''wba'', did_ID = drop 8 d, did_String = d\<rparr>
      in \<lparr>id_DID = did, id_Document = \<lparr>doc_ID = did, doc_Entries = []\<rparr>, id_Keys = keys\<rparr>)"

definition peer_config :: "byte \<Rightarrow> did \<Rightarrow> agent_config" where
  "peer_config w d = \<lparr>cfg_Domain = ''x'', cfg_AgentID = ''y'', cfg_DisplayName = ''agent'', cfg_ListenAddr = [], cfg_RelayAddr = ''relay'',
     cfg_RequireEncryption = True, cfg_ShutdownTimeout = 0, cfg_DedupTTL = 100, cfg_TLSEnabled = False,
     cfg_Identity = Some (sample_identity w d)\<rparr>"

definition sample_inputs :: "time \<Rightarrow> uuid \<Rightarrow> inputs" where
  "sample_inputs now u = \<lparr>in_now = now, in_msg_id = u, in_rpc_id = u + 100, in_peer_id = u + 200, in_nonce = Some (replicate 24 7),
     in_send = (\<lambda>t d. True), in_arrival = None, in_ord = (\<lambda>m. m)\<rparr>"

definition new_agent :: "byte \<Rightarrow> did \<Rightarrow> agent_rt" where
  "new_agent w d = (case New wire_env (sample_inputs 0 (ucast w)) None None (peer_config w d) of Inr a \<Rightarrow> a)"

text \<open>Connected to the relay, with one peer and one method that answers with a text.\<close>

definition ready_agent :: "byte \<Rightarrow> did \<Rightarrow> Agent \<Rightarrow> agent_rt" where
  "ready_agent w d peer =
     (let a = snd (Connect ''relay'' (Some 7) (RegisterMethod ''m'' (\<lambda>c b. Inr (Some (JStr (MessageFrom c)))) (new_agent w d)))
      in a\<lparr>rt_store := Put peer (rt_store a)\<rparr>)"

lemma new_agent_New: "New wire_env (sample_inputs 0 (ucast w)) None None (peer_config w d) = Inr (new_agent w d)"
  by (simp add: new_agent_def New_def peer_config_def)

lemma ready_agent_wf: "agent_wf (ready_agent w d peer)"
proof -
  have "agent_wf (snd (Connect ''relay'' (Some 7) (RegisterMethod ''m'' h (new_agent w d))))" for h
    by (intro agent_exec_lifecycle New_wf [OF new_agent_New])
  then show ?thesis by (simp add: ready_agent_def Let_def agent_wf_def index_total_Put)
qed

lemma sample_keys: "own_keys wire_env (sample_identity w d)"
proof -
  have "map2 (\<lambda>x y. xor x y) (replicate 32 w) (replicate 32 0) = replicate 32 w" by (rule map2_xor_zero) simp
  then have "GenerateAgentKeys wire_env (Some (replicate 32 w)) (Some (replicate 32 w)) = Inr (id_Keys (sample_identity w d))"
    by (simp add: GenerateAgentKeys_def GenerateSigningKeyPair_def GenerateEncryptionKeyPair_def Let_def wire_env_def sample_crypto_def
        sample_x25519_def sample_identity_def replicate_add [symmetric])
  then show ?thesis unfolding own_keys_def by (metis length_replicate)
qed

lemma ready_agent_sel:
  "rt_identity (ready_agent w d peer) = sample_identity w d" "agent_DID (ready_agent w d peer) = d"
  "rt_store (ready_agent w d peer) = Put peer NewAgentStore" "seenMsgs (ready_agent w d peer) = []" "calls (ready_agent w d peer) = []"
  "peers (ready_agent w d peer) = [(''relay'', 7)]" "relayAddr (ready_agent w d peer) = ''relay''" "ACL (rt_record (ready_agent w d peer)) = None"
  "rt_handlers (ready_agent w d peer) = [(''m'', \<lambda>c b. Inr (Some (JStr (MessageFrom c))))]"
  by (simp_all add: ready_agent_def new_agent_def New_def peer_config_def Connect_def RegisterMethod_def Let_def agent_DID_def
      sample_identity_def agent_record_def AddPublicKey_def NewAgent_def)

lemma key_agent_known: "d \<noteq> [] \<Longrightarrow> knows (Put (key_agent w d) NewAgentStore) (sample_identity w d)"
  by (simp add: knows_def GetByDID_def Put_def NewAgentStore_def key_agent_def AddPublicKey_def NewAgent_def sample_identity_def Let_def
      GetSigningKey_def GetEncryptionKey_def)

abbreviation alice :: agent_rt where "alice \<equiv> ready_agent 1 ''did:wba:a'' (key_agent 2 ''did:wba:b'')"
abbreviation bob :: agent_rt where "bob \<equiv> ready_agent 2 ''did:wba:b'' (key_agent 1 ''did:wba:a'')"

lemma sample_inputs_sel:
  "in_now (sample_inputs now u) = now" "in_msg_id (sample_inputs now u) = u" "in_nonce (sample_inputs now u) = Some (replicate 24 7)"
  "in_send (sample_inputs now u) t d"
  by (simp_all add: sample_inputs_def)

lemma sample_any: "m_any wire_env (JStr s) = Some (enc_string s)"
  by (simp add: wire_env_def)

lemma sample_dids: "json_text ''did:wba:a''" "json_text ''did:wba:b''" "json_text ''m''"
  by (simp_all add: json_text_def)

theorem agent_call_returns_witness:
  "\<exists>msg ch a1 t1 data b' t2 rdata a2 resp a3.
     Send_begin wire_env (sample_inputs 10 1) ''did:wba:b'' ''m'' (Some (JStr ''hi'')) alice = (Inr (msg, ch), a1)
     \<and> sent a1 = sent alice @ [(t1, data)] \<and> handleIncoming wire_env (sample_inputs 20 2) 7 data bob = Some b'
     \<and> sent b' = sent bob @ [(t2, rdata)] \<and> handleIncoming wire_env (sample_inputs 30 3) 7 rdata a1 = Some a2
     \<and> sendAndWait_end True False (msg_ID msg) ch a2 = Some (Inr resp, a3) \<and> Body resp = Some (enc_string ''did:wba:a'')"
proof -
  have fields: "agent_wf alice" "agent_wf bob" "own_keys wire_env (rt_identity alice)" "own_keys wire_env (rt_identity bob)"
      "knows (rt_store alice) (rt_identity bob)" "knows (rt_store bob) (rt_identity alice)"
    by (simp_all only: ready_agent_wf ready_agent_sel sample_keys key_agent_known list.distinct(2) not_False_eq_True)
  have net: "relay_connected alice" "relay_connected bob" "from_relay 7 bob"
    by (simp_all add: relay_connected_def from_relay_def ready_agent_sel)
  have acl: "CheckAccess (rt_record bob) (agent_DID alice) ''m'' = None"
    by (simp add: CheckAccess_def ready_agent_sel)
  let ?i = "sample_inputs 10 1" and ?j = "sample_inputs 20 2" and ?h = "\<lambda>c b. Inr (Some (JStr (MessageFrom c))) :: string + json option"
  have plain: "json_text (agent_DID alice)" "json_text (agent_DID bob)" "json_text ''m''" "''m'' \<noteq> []"
      "0 \<le> in_now ?i" "in_now ?i < 2 ^ 63" "0 \<le> in_now ?j" "in_now ?j < 2 ^ 63"
    by (simp_all add: ready_agent_sel sample_dids sample_inputs_sel)
  have call: "m_any wire_env (JStr ''hi'') = Some (enc_string ''hi'')" "enc_string ''hi'' \<noteq> []" "in_nonce ?i = Some (replicate 24 7)"
      "length (replicate 24 (7 :: byte)) = 24"
    by (simp_all add: sample_any sample_inputs_sel enc_string_def enc_bytes_def enc_nat_def)
  have fresh: "map_of (seenMsgs bob) (uuid_String wire_env (in_msg_id ?i)) = None" "map_of (seenMsgs alice) (uuid_String wire_env (in_msg_id ?j)) = None"
    by (simp_all add: ready_agent_sel)
  have h: "map_of (rt_handlers bob) ''m'' = Some ?h" by (simp add: ready_agent_sel)
  have res: "?h [(ctxKeyMethod, ''m''), (ctxKeyFrom, agent_DID alice)] (Some (enc_string ''hi'')) = Inr (Some (JStr ''did:wba:a''))"
    by (simp add: MessageFrom_def ready_agent_sel)
  note all = agent_call_returns [OF wire_env_crypto wire_env_codec(1-3) fields net sample_inputs_sel(4) sample_inputs_sel(4)
      plain call fresh acl h res sample_any, of "sample_inputs 30 3" 7 True]
  show ?thesis using all unfolding ready_agent_sel(2) by blast
qed

definition frame_of :: "json \<Rightarrow> string \<Rightarrow> slice \<Rightarrow> bytes" where
  "frame_of rid m p = the (enc_request \<lparr>rq_JSONRPC = ''2.0'', rq_ID = rid, rq_Method = m, rq_Params = p\<rparr>)"

lemma frame_of_decodes:
  assumes "m \<noteq> []" and "rid = JNull \<or> rid = JStr cid"
  shows "DecodeRequest (u_req wire_env) (frame_of rid m p) = Inr \<lparr>rq_JSONRPC = ''2.0'', rq_ID = rid, rq_Method = m, rq_Params = p\<rparr>"
proof -
  have sel: "u_req wire_env = dec_request" by (simp add: wire_env_def)
  have opt: "dec_option dec_bytes (enc_option enc_bytes p) = Some (p, [])" using dec_options(2) [of p "[]"] by simp
  show ?thesis unfolding sel DecodeRequest_def frame_of_def using assms by (elim disjE) (simp_all add: opt)
qed

lemma wire_env_msg: "m_msg wire_env m = Some (enc_message m)" "u_msg wire_env (enc_message m) = Some m"
  by (simp_all add: wire_env_def dec_message_enc)

text \<open>A request in the name of \<open>did:wba:a\<close>, signed with the key \<open>w\<close>, and its frame.\<close>

definition alice_request :: "byte \<Rightarrow> uuid \<Rightarrow> Message" where
  "alice_request w u = sign_message wire_env (sample_identity w ''did:wba:a'') (NewMessage u 40 ''did:wba:a'' ''did:wba:b'' TypeRequest ''m'')"

lemma alice_request_fields:
  "msg_ID (alice_request w u) = u" "From (alice_request w u) = ''did:wba:a''" "Method (alice_request w u) = ''m''"
  "MsgType (alice_request w u) = TypeRequest" "\<not> Encrypted (alice_request w u)" "slice_bytes (Signature (alice_request w u)) \<noteq> []"
  "m_msg wire_env (signed_part (alice_request w u)) = Some (enc_message (signed_part (alice_request w u)))"
  "crypto_VerifySignature wire_env (Some (replicate 32 w)) (enc_message (signed_part (alice_request w u))) (Signature (alice_request w u))"
proof -
  let ?m = "NewMessage u 40 ''did:wba:a'' ''did:wba:b'' TypeRequest ''m''"
  have part: "signed_part (alice_request w u) = ?m"
    by (simp add: alice_request_def sign_message_def signed_part_def NewMessage_def)
  have sig: "Signature (alice_request w u) = Some (replicate 64 w @ enc_message ?m)"
    by (simp add: alice_request_def sign_message_def identity_Sign_def Sign_def wire_env_sel wire_env_msg slice_bytes_def
        sample_identity_def Let_def sample_crypto_def)
  show "slice_bytes (Signature (alice_request w u)) \<noteq> []" by (simp add: sig slice_bytes_def)
  have "ed_Verify sample_crypto p d s \<longleftrightarrow> drop 32 s = p @ d" for p d s by (simp add: sample_crypto_def)
  then show "crypto_VerifySignature wire_env (Some (replicate 32 w)) (enc_message (signed_part (alice_request w u))) (Signature (alice_request w u))"
    unfolding crypto_VerifySignature_def wire_env_sel part sig by (simp add: slice_bytes_def key_sizes)
qed (simp_all add: alice_request_def sign_message_def NewMessage_def wire_env_msg)

definition request_frame :: "byte \<Rightarrow> uuid \<Rightarrow> bytes" where
  "request_frame w u = frame_of (JStr ''u'') ''m'' (Some (enc_message (alice_request w u)))"

definition announce_frame :: "byte \<Rightarrow> bytes" where
  "announce_frame w = frame_of JNull ''discovery.announce'' (Some [w])"

lemma request_frame_decodes:
  "DecodeRequest (u_req wire_env) (request_frame w u) =
     Inr \<lparr>rq_JSONRPC = ''2.0'', rq_ID = JStr ''u'', rq_Method = ''m'', rq_Params = Some (enc_message (alice_request w u))\<rparr>"
  "ParseParams (u_msg wire_env) zero_Message
     \<lparr>rq_JSONRPC = ''2.0'', rq_ID = JStr ''u'', rq_Method = ''m'', rq_Params = Some (enc_message (alice_request w u))\<rparr> = Some (alice_request w u)"
  using frame_of_decodes [of "''m''" "JStr ''u''" "''u''"] by (simp_all add: request_frame_def ParseParams_def wire_env_msg)

lemma announce_frame_decodes:
  "DecodeRequest (u_req wire_env) (announce_frame w) =
     Inr \<lparr>rq_JSONRPC = ''2.0'', rq_ID = JNull, rq_Method = ''discovery.announce'', rq_Params = Some [w]\<rparr>"
  using frame_of_decodes [of "''discovery.announce''" JNull] by (simp add: announce_frame_def)

lemma announced_agent:
  "u_announce wire_env [w] = Some \<lparr>dm_Type = ''announce'', dm_AgentID = 0, dm_DID = ''did:wba:a'', dm_Capability = [],
     dm_Agent = Some (key_agent w ''did:wba:a''), dm_Timestamp = 0\<rparr>"
  by (simp add: wire_env_def)

lemma key_agent_fields:
  "DID (key_agent w d) = d" "GetSigningKey (key_agent w d) = Some \<lparr>pk_ID = ''signing'', pk_Type = KeyTypeEd25519, pk_Key = Some (replicate 32 w), Purpose = ''signing''\<rparr>"
  by (simp_all add: key_agent_def AddPublicKey_def NewAgent_def GetSigningKey_def)

lemma sample_uuid: "uuid_String wire_env u = CHR ''u'' # replicate (unat u) CHR ''1''"
  by (simp add: wire_env_def)

theorem announced_key_accepted_witness:
  "\<exists>b1 b2. handleIncoming wire_env (sample_inputs 10 1) 7 (announce_frame 9) bob = Some b1
     \<and> handleIncoming wire_env (sample_inputs 20 2) 7 (request_frame 9 5) b1 = Some b2
     \<and> calls b2 = [RequestCall 20 (alice_request 9 5) ''m''] \<and> GetByDID ''did:wba:a'' (rt_store bob) = Inr (Some (key_agent 1 ''did:wba:a''))"
proof -
  have prem: "CheckAccess (rt_record bob) (DID (key_agent 9 ''did:wba:a'')) (Method (alice_request 9 5)) = None"
      "map_of (rt_handlers bob) (Method (alice_request 9 5)) \<noteq> None" "DID (key_agent 9 ''did:wba:a'') \<noteq> agent_DID bob"
      "DID (key_agent 9 ''did:wba:a'') \<noteq> []" "map_of (seenMsgs bob) (uuid_String wire_env (msg_ID (alice_request 9 5))) = None"
      "uuid_String wire_env (msg_ID (alice_request 9 5)) \<noteq> []" "From (alice_request 9 5) = DID (key_agent 9 ''did:wba:a'')"
    by (simp_all add: CheckAccess_def ready_agent_sel alice_request_fields key_agent_fields sample_uuid)
  let ?req = "\<lparr>rq_JSONRPC = ''2.0'', rq_ID = JNull, rq_Method = ''discovery.announce'', rq_Params = Some [9]\<rparr> :: JSONRPCRequest"
  obtain dm where ann: "rq_ID ?req = JNull" "rq_Method ?req = ''discovery.announce''" "u_announce wire_env (slice_bytes (rq_Params ?req)) = Some dm"
      "dm_Agent dm = Some (key_agent 9 ''did:wba:a'')"
    using announced_agent [of 9] by (simp add: slice_bytes_def)
  have ver: "crypto_VerifySignature wire_env (pk_Key \<lparr>pk_ID = ''signing'', pk_Type = KeyTypeEd25519, pk_Key = Some (replicate 32 9), Purpose = ''signing''\<rparr>)
      (enc_message (signed_part (alice_request 9 5))) (Signature (alice_request 9 5))"
    using alice_request_fields(8) [of 9 5] by simp
  have rid: "rq_ID \<lparr>rq_JSONRPC = ''2.0'', rq_ID = JStr ''u'', rq_Method = ''m'', rq_Params = Some (enc_message (alice_request 9 5))\<rparr> \<noteq> JNull" by simp
  have "GetByDID ''did:wba:a'' (rt_store bob) = Inr (Some (key_agent 1 ''did:wba:a''))"
    by (simp add: ready_agent_sel GetByDID_def Put_lookup key_agent_fields NewAgentStore_def)
  moreover note announced_key_accepted [OF ready_agent_wf announce_frame_decodes ann prem(3,4) key_agent_fields(2) request_frame_decodes(1) rid
      request_frame_decodes(2) prem(5,6) alice_request_fields(4) prem(7) alice_request_fields(5,7,6) ver prem(1,2),
      where i = "sample_inputs 10 1" and j = "sample_inputs 20 2" and t = 7]
  ultimately show ?thesis by (auto simp: alice_request_fields ready_agent_sel sample_inputs_sel)
qed

definition unsigned_request :: Message where
  "unsigned_request = NewMessage 5 40 ''did:wba:z'' ''did:wba:b'' TypeRequest ''m''"

theorem notification_bypasses_checks_witness:
  "\<exists>b1 b2. handleIncoming wire_env (sample_inputs 10 1) 7 (frame_of (JStr ''u'') ''m'' (Some (enc_message unsigned_request))) bob = Some b1
     \<and> calls b1 = [] \<and> handleIncoming wire_env (sample_inputs 10 1) 7 (frame_of JNull ''m'' (Some (enc_message unsigned_request))) bob = Some b2
     \<and> calls b2 = [NotificationCall ''m'' None]"
proof -
  let ?req = "\<lambda>rid. \<lparr>rq_JSONRPC = ''2.0'', rq_ID = rid, rq_Method = ''m'', rq_Params = Some (enc_message unsigned_request)\<rparr> :: JSONRPCRequest"
  have msg: "slice_bytes (Signature unsigned_request) = []" "MsgType unsigned_request = TypeRequest" "Body unsigned_request = None"
      "map_option fst (find_handler (Method unsigned_request) bob) = Some ''m''"
    by (simp_all add: unsigned_request_def NewMessage_def slice_bytes_def find_handler_def ready_agent_sel)
  have dec: "DecodeRequest (u_req wire_env) (frame_of (JStr ''u'') ''m'' (Some (enc_message unsigned_request))) = Inr (?req (JStr ''u''))"
      "DecodeRequest (u_req wire_env) (frame_of JNull ''m'' (Some (enc_message unsigned_request))) = Inr (?req JNull)"
    by (rule frame_of_decodes [where cid = "''u''"]; simp)+
  have par: "ParseParams (u_msg wire_env) zero_Message (?req rid) = Some unsigned_request" for rid
    by (simp add: ParseParams_def wire_env_msg)
  have ids: "rq_ID (?req (JStr ''u'')) \<noteq> JNull" "rq_ID (?req JNull) = JNull"
      "rq_Method (?req JNull) \<notin> {''relay.ack'', ''relay.presence'', ''relay.typing'', ''discovery.announce''}"
    by simp_all
  show ?thesis
    using notification_bypasses_checks [OF ready_agent_wf msg(1,2) dec(1) ids(1) par dec(2) ids(2) par ids(3) msg(4),
        where i = "sample_inputs 10 1" and t = 7]
    by (auto simp: msg(3) ready_agent_sel)
qed

theorem direct_result_lost_witness:
  "\<exists>rdata a1 a2. send_result wire_env (sample_inputs 20 2) 8
       \<lparr>rq_JSONRPC = ''2.0'', rq_ID = JStr (uuid_String wire_env 5), rq_Method = ''m'', rq_Params = None\<rparr> (alice_request 1 5) (Some (JStr ''secret'')) bob
       = Some (bob\<lparr>sent := sent bob @ [(8, rdata)]\<rparr>)
     \<and> handleIncoming wire_env (sample_inputs 30 3) 9 rdata (alice\<lparr>pending := [(5, 0)], chans := [[]]\<rparr>) = Some a1
     \<and> sendAndWait_end True False 5 0 a1 = Some (Inr zero_Message, a2)"
proof (rule direct_result_lost [OF wire_env_codec(4,3)])
  show "\<not> from_relay 8 bob" by (simp add: from_relay_def ready_agent_sel)
  show "uuid_Parse wire_env (uuid_String wire_env 5) = Some 5" by (simp add: wire_env_def)
  show "map_of (pendingRPC (alice\<lparr>pending := [(5, 0)], chans := [[]]\<rparr>)) (uuid_String wire_env 5) = None"
    by (simp add: ready_agent_def new_agent_def New_def peer_config_def Connect_def RegisterMethod_def Let_def)
qed (simp_all add: sample_inputs_sel)

text \<open>A history of the second agent: a method, the announced key of its peer, and one request sent
  twice with a cleanup in between.\<close>

definition bob_known :: agent_rt where
  "bob_known = (RegisterMethod ''m'' (\<lambda>c b. Inr (Some (JStr (MessageFrom c)))) (new_agent 2 ''did:wba:b''))
     \<lparr>rt_store := Put (key_agent 1 ''did:wba:a'') NewAgentStore\<rparr>"

definition bob_served :: "(transport \<times> bytes) list \<Rightarrow> time \<Rightarrow> agent_rt \<Rightarrow> agent_rt" where
  "bob_served s now b = (logged now (alice_request 1 5) ''m'' (b\<lparr>seenMsgs := [(uuid_String wire_env 5, now)]\<rparr>))\<lparr>sent := s\<rparr>"

lemma new_agent_sel:
  "rt_store (new_agent w d) = NewAgentStore" "seenMsgs (new_agent w d) = []" "calls (new_agent w d) = []" "ACL (rt_record (new_agent w d)) = None"
  "agent_DID (new_agent w d) = d" "rt_handlers (new_agent w d) = []" "dedupTTL (new_agent w d) = 100"
  by (simp_all add: new_agent_def New_def peer_config_def agent_DID_def sample_identity_def agent_record_def AddPublicKey_def NewAgent_def Let_def)

lemma bob_known_reached: "agent_reach wire_env (new_agent 2 ''did:wba:b'') 2 bob_known"
proof -
  let ?h = "\<lambda>c b. Inr (Some (JStr (MessageFrom c))) :: string + json option" and ?b0 = "new_agent 2 ''did:wba:b''"
  have "agent_exec wire_env (sample_inputs 1 1) (OpRegister ''m'' ?h) ?b0 = Some (RegisterMethod ''m'' ?h ?b0)" by simp
  from agent_step [OF agent_init _ this, of 0] have one: "agent_reach wire_env ?b0 1 (RegisterMethod ''m'' ?h ?b0)"
    by (simp add: sample_inputs_sel)
  have "agent_exec wire_env (sample_inputs 2 1) (OpIncoming 7 (announce_frame 1)) (RegisterMethod ''m'' ?h ?b0) = Some bob_known"
    using announce_frame_decodes [of 1] announced_agent [of 1]
    by (simp add: handleIncoming_def handleNotification_def slice_bytes_def key_agent_fields RegisterMethod_def new_agent_sel agent_DID_def
        bob_known_def) (simp add: new_agent_def New_def peer_config_def sample_identity_def Let_def)
  from agent_step [OF one _ this] show ?thesis by (simp add: sample_inputs_sel)
qed

lemma bob_serves:
  assumes "agent_wf b" and "seenMsgs b = []" and "rt_store b = rt_store bob_known" and "rt_handlers b = rt_handlers bob_known"
    and "rt_record b = rt_record bob_known"
  obtains s where "handleIncoming wire_env (sample_inputs now u) 7 (request_frame 1 5) b = Some (bob_served s now b)"
proof -
  have known: "GetByDID (From (alice_request 1 5)) (rt_store b) = Inr (Some (key_agent 1 ''did:wba:a''))"
    using assms(3) by (simp add: bob_known_def alice_request_fields GetByDID_def Put_lookup key_agent_fields)
  have ver: "crypto_VerifySignature wire_env (pk_Key \<lparr>pk_ID = ''signing'', pk_Type = KeyTypeEd25519, pk_Key = Some (replicate 32 1), Purpose = ''signing''\<rparr>)
      (enc_message (signed_part (alice_request 1 5))) (Signature (alice_request 1 5))"
    using alice_request_fields(8) [of 1 5] by simp
  obtain s where "handleIncoming wire_env (sample_inputs now u) 7 (request_frame 1 5) b =
      Some ((logged (in_now (sample_inputs now u)) (alice_request 1 5) (Method (alice_request 1 5))
        (b\<lparr>seenMsgs := mput (uuid_String wire_env (msg_ID (alice_request 1 5))) (in_now (sample_inputs now u)) (seenMsgs b)\<rparr>))\<lparr>sent := s\<rparr>)"
    by (rule known_request_runs [OF assms(1) known key_agent_fields(2) request_frame_decodes(1) _ request_frame_decodes(2) _ _
          alice_request_fields(4,5,7,6) ver])
      (use assms in \<open>simp_all add: bob_known_def RegisterMethod_def new_agent_sel CheckAccess_def alice_request_fields sample_uuid\<close>)
  then show thesis using that [of s] by (simp add: bob_served_def sample_inputs_sel alice_request_fields assms(2))
qed

lemma bob_served_sel:
  "seenMsgs (bob_served s now b) = [(uuid_String wire_env 5, now)]" "rt_store (bob_served s now b) = rt_store b"
  "rt_handlers (bob_served s now b) = rt_handlers b" "rt_record (bob_served s now b) = rt_record b" "dedupTTL (bob_served s now b) = dedupTTL b"
  "calls (bob_served s now b) = calls b @ [RequestCall now (alice_request 1 5) ''m'']"
  by (simp_all add: bob_served_def logged_def)

lemma bob_known_sel: "seenMsgs bob_known = []" "calls bob_known = []" "dedupTTL bob_known = 100"
  by (simp_all add: bob_known_def RegisterMethod_def new_agent_sel)

lemmas bob_wf = agent_reach_wf [OF _ New_wf [OF new_agent_New]]

theorem handler_needs_authorization_witness:
  "\<exists>a' (k :: PublicKey) bytes. agent_exec wire_env (sample_inputs 20 2) (OpIncoming 7 (request_frame 1 5)) bob_known = Some a'
     \<and> calls a' = calls bob_known @ [RequestCall 20 (alice_request 1 5) ''m'']
     \<and> crypto_VerifySignature wire_env (pk_Key k) bytes (Signature (alice_request 1 5))
     \<and> CheckAccess (rt_record bob_known) ''did:wba:a'' ''m'' = None"
proof -
  obtain s where s: "handleIncoming wire_env (sample_inputs 20 2) 7 (request_frame 1 5) bob_known = Some (bob_served s 20 bob_known)"
    by (rule bob_serves [OF bob_wf [OF bob_known_reached]]) (simp_all add: bob_known_sel)
  then have step: "agent_exec wire_env (sample_inputs 20 2) (OpIncoming 7 (request_frame 1 5)) bob_known = Some (bob_served s 20 bob_known)" by simp
  obtain t data req msg and k :: PublicKey and bytes where w: "OpIncoming 7 (request_frame 1 5) = OpIncoming t data" "DecodeRequest (u_req wire_env) data = Inr req"
      "ParseParams (u_msg wire_env) zero_Message req = Some msg" "crypto_VerifySignature wire_env (pk_Key k) bytes (Signature msg)"
      "CheckAccess (rt_record bob_known) (From msg) (Method msg) = None"
    using handler_needs_authorization [OF new_agent_New bob_known_reached step bob_served_sel(6)] by (elim exE conjE) (rule that)
  have data: "data = request_frame 1 5" using w(1) by (simp only: agent_op.inject)
  have "req = \<lparr>rq_JSONRPC = ''2.0'', rq_ID = JStr ''u'', rq_Method = ''m'', rq_Params = Some (enc_message (alice_request 1 5))\<rparr>"
    using w(2) unfolding data request_frame_decodes(1) by (simp only: sum.inject)
  then have "msg = alice_request 1 5" using w(3) by (simp only: request_frame_decodes(2) option.inject)
  with w(4,5) have "crypto_VerifySignature wire_env (pk_Key k) bytes (Signature (alice_request 1 5))"
      "CheckAccess (rt_record bob_known) ''did:wba:a'' ''m'' = None"
    by (simp_all add: alice_request_fields)
  with step bob_served_sel(6) show ?thesis by (intro exI conjI)
qed

theorem handler_once_per_ttl_witness:
  "\<exists>a t. agent_reach wire_env (new_agent 2 ''did:wba:b'') t a \<and> request_log (calls a) = [(20, 5), (210, 5)] \<and> (210 :: int) - 20 > dedupTTL a"
proof -
  let ?b0 = "new_agent 2 ''did:wba:b''"
  obtain s where s: "handleIncoming wire_env (sample_inputs 20 2) 7 (request_frame 1 5) bob_known = Some (bob_served s 20 bob_known)"
    by (rule bob_serves [OF bob_wf [OF bob_known_reached]]) (simp_all add: bob_known_sel)
  let ?b1 = "bob_served s 20 bob_known" and ?b2 = "(bob_served s 20 bob_known)\<lparr>seenMsgs := []\<rparr>"
  have r1: "agent_reach wire_env ?b0 20 ?b1"
    using agent_step [OF bob_known_reached, of "sample_inputs 20 2" "OpIncoming 7 (request_frame 1 5)" ?b1] s by (simp add: sample_inputs_sel)
  have tick: "agent_exec wire_env (sample_inputs 200 3) OpTick ?b1 = Some ?b2"
    by (simp add: cleanupDedup_def bob_served_sel bob_known_sel sample_inputs_sel)
  from agent_step [OF r1 _ tick] have r2: "agent_reach wire_env ?b0 200 ?b2" by (simp add: sample_inputs_sel)
  obtain s' where s': "handleIncoming wire_env (sample_inputs 210 4) 7 (request_frame 1 5) ?b2 = Some (bob_served s' 210 ?b2)"
    by (rule bob_serves [OF bob_wf [OF r2]]) (simp_all add: bob_served_sel)
  then have inc: "agent_exec wire_env (sample_inputs 210 4) (OpIncoming 7 (request_frame 1 5)) ?b2 = Some (bob_served s' 210 ?b2)" by simp
  from agent_step [OF r2 _ inc] have r3: "agent_reach wire_env ?b0 210 (bob_served s' 210 ?b2)" by (simp add: sample_inputs_sel)
  have twice: "request_log (calls (bob_served s' 210 ?b2)) = [] @ (20, 5) # [] @ (210, 5) # []"
    by (simp add: bob_served_sel bob_known_sel alice_request_fields)
  have "uuid_String wire_env u \<noteq> []" for u by (simp add: sample_uuid)
  from handler_once_per_ttl [OF new_agent_New this r3 twice] have "(210 :: int) - 20 > dedupTTL (bob_served s' 210 ?b2)" .
  with r3 twice show ?thesis by (intro exI conjI) simp_all
qed

theorem agent_type_safe_witness:
  "agent_wf bob_known \<and> (\<exists>a'. agent_exec wire_env (sample_inputs 20 2) (OpIncoming 7 (request_frame 1 5)) bob_known = Some a' \<and> agent_wf a')"
  by (rule agent_type_safe [OF new_agent_New bob_known_reached])

end
